(* ===== verification/SSH_Prelude.thy ===== *)
theory SSH_Prelude
  imports Main "HOL-Library.Word"
begin

section \<open>Shared types, results and lemmas\<close>

text \<open>
  What every component uses: the machine types, the \<open>Result\<close> plumbing of Rust's \<open>?\<close>
  operator (an error is \<open>Inl\<close>, a value \<open>Inr\<close>), big-endian byte conversion, saturating
  arithmetic, and slices of byte buffers.

  \<open>u8\<close>, \<open>u32\<close> and \<open>u64\<close> are words. A \<open>usize\<close> is a natural number with the
  range of a 64-bit target written out where the code checks or saturates
  (\<open>usize_max\<close>); \<open>n as u32\<close> is \<^term>\<open>word_of_nat n :: 32 word\<close>, which wraps.
\<close>

unbundle bit_operations_syntax

type_synonym u8 = "8 word"
type_synonym u32 = "32 word"
type_synonym u64 = "64 word"
type_synonym bytes = "u8 list"

text \<open>
  \<open>wire\<close> collects the rewrite rules of encoders and decoders, \<open>ssh_defs\<close> the small
  accessor definitions that proofs always unfold.
\<close>

named_theorems wire
named_theorems ssh_defs

subsection \<open>Results\<close>

text \<open>\<open>r?\<close> followed by the rest of the function body.\<close>

fun and_then :: "'e + 'a \<Rightarrow> ('a \<Rightarrow> 'e + 'b) \<Rightarrow> 'e + 'b" where
  "and_then (Inl e) f = Inl e"
| "and_then (Inr a) f = f a"

text \<open>\<open>Result::map_err\<close>.\<close>

fun map_err :: "('e \<Rightarrow> 'f) \<Rightarrow> 'e + 'a \<Rightarrow> 'f + 'a" where
  "map_err g (Inl e) = Inl (g e)"
| "map_err g (Inr a) = Inr a"

text \<open>\<open>Option::ok_or\<close>.\<close>

fun ok_or :: "'e \<Rightarrow> 'a option \<Rightarrow> 'e + 'a" where
  "ok_or e None = Inl e"
| "ok_or e (Some a) = Inr a"

lemma and_then_assoc: "and_then (and_then r f) g = and_then r (\<lambda>a. and_then (f a) g)"
  by (cases r) auto

lemma and_then_Inr_eq: "and_then r f = Inr b \<longleftrightarrow> (\<exists>a. r = Inr a \<and> f a = Inr b)"
  by (cases r) auto

lemma and_then_Inl_eq:
  "and_then r f = Inl e \<longleftrightarrow> r = Inl e \<or> (\<exists>a. r = Inr a \<and> f a = Inl e)"
  by (cases r) auto

lemma and_then_cases:
  assumes "and_then r f = x"
  obtains (err) e where "r = Inl e" "x = Inl e" | (ok) a where "r = Inr a" "f a = x"
  using assms by (cases r) auto

lemma ok_or_Inr_eq [simp]: "ok_or e m = Inr a \<longleftrightarrow> m = Some a"
  by (cases m) auto

lemma ok_or_Inl_eq [simp]: "ok_or e m = Inl e' \<longleftrightarrow> m = None \<and> e' = e"
  by (cases m) auto

lemma map_err_Inr_eq [simp]: "map_err g r = Inr a \<longleftrightarrow> r = Inr a"
  by (cases r) auto

lemma map_err_Inl_eq: "map_err g r = Inl e \<longleftrightarrow> (\<exists>x. r = Inl x \<and> e = g x)"
  by (cases r) auto

subsection \<open>Results with a state\<close>

text \<open>
  An operation on a \<open>&mut\<close> state: the result and the state afterwards, whether it failed or not.
  \<open>st_bind\<close> is \<open>op()?; rest\<close>.
\<close>

definition st_bind :: "('s \<Rightarrow> ('e + 'a) \<times> 's) \<Rightarrow> ('a \<Rightarrow> 's \<Rightarrow> ('e + 'b) \<times> 's) \<Rightarrow> 's \<Rightarrow> ('e + 'b) \<times> 's" where
  "st_bind m f s = (case m s of (Inl e, s') \<Rightarrow> (Inl e, s') | (Inr a, s') \<Rightarrow> f a s')"

definition st_lift :: "'e + 'a \<Rightarrow> 's \<Rightarrow> ('e + 'a) \<times> 's" where
  "st_lift r s = (r, s)"

lemma st_bind_Inr_eq:
  "st_bind m f s = (Inr b, s'') \<longleftrightarrow> (\<exists>a s'. m s = (Inr a, s') \<and> f a s' = (Inr b, s''))"
  by (auto simp: st_bind_def split: prod.splits sum.splits)

lemma st_bind_cases:
  assumes "st_bind m f s = (r, s'')"
  obtains (err) e where "m s = (Inl e, s'')" "r = Inl e" | (ok) a s' where "m s = (Inr a, s')" "f a s' = (r, s'')"
  using assms by (auto simp: st_bind_def split: prod.splits sum.splits)

lemma st_bind_simps [simp]:
  "m s = (Inl e, s') \<Longrightarrow> st_bind m f s = (Inl e, s')"
  "m s = (Inr a, s') \<Longrightarrow> st_bind m f s = f a s'"
  by (simp_all add: st_bind_def)

subsection \<open>Machine arithmetic\<close>

definition usize_max :: nat where
  "usize_max = 2 ^ 64 - 1"

definition u32_max :: nat where
  "u32_max = 2 ^ 32 - 1"

text \<open>\<open>usize::saturating_add\<close>; \<open>usize::saturating_sub\<close> is \<open>-\<close> on \<^typ>\<open>nat\<close>.\<close>

definition usize_sat_add :: "nat \<Rightarrow> nat \<Rightarrow> nat" where
  "usize_sat_add a b = min usize_max (a + b)"

text \<open>\<open>+=\<close> on \<open>Saturating<u32>\<close>.\<close>

definition u32_sat_add :: "u32 \<Rightarrow> u32 \<Rightarrow> u32" where
  "u32_sat_add a b = (if unat a + unat b \<le> u32_max then a + b else word_of_nat u32_max)"

text \<open>\<open>usize::div_ceil\<close>.\<close>

definition div_ceil :: "nat \<Rightarrow> nat \<Rightarrow> nat" where
  "div_ceil n d = (n + d - 1) div d"

lemma unat_u8_less [simp]: "unat (w :: u8) < 256"
  using unsigned_less [of w, where 'a = nat] by simp

lemma unat_u32_less [simp]: "unat (w :: u32) < 4294967296"
  using unsigned_less [of w, where 'a = nat] by simp

lemma unat_of_nat_u32: "n < 2 ^ 32 \<Longrightarrow> unat (word_of_nat n :: u32) = n"
  by (simp add: unat_of_nat take_bit_nat_eq_self)

lemma u32_sat_add_code [code]: "u32_sat_add a b = (if a + b < a then - 1 else a + b)"
proof -
  have b: "unat b < 4294967296" by simp
  have "unat a + unat b - 4294967296 < unat a" if "\<not> unat a + unat b \<le> 4294967295" using b that by linarith
  then show ?thesis
    unfolding u32_sat_add_def u32_max_def
    by (auto simp: word_less_nat_alt unat_plus_if_size word_size split: if_splits)
qed

lemma unat_u32_sat_add: "unat (u32_sat_add a b) = min u32_max (unat a + unat b)"
proof (cases "unat a + unat b \<le> u32_max")
  case True
  then have "unat a + unat b < 2 ^ 32"
    by (simp add: u32_max_def)
  then have "unat (a + b) = unat a + unat b"
    by (simp add: unat_word_ariths)
  with True show ?thesis by (simp add: u32_sat_add_def)
next
  case False
  then show ?thesis by (simp add: u32_sat_add_def u32_max_def unat_of_nat take_bit_nat_eq_self)
qed

lemma usize_sat_add_le: "usize_sat_add a b \<le> usize_max"
  by (simp add: usize_sat_add_def)

lemma usize_sat_add_exact: "a + b \<le> usize_max \<Longrightarrow> usize_sat_add a b = a + b"
  by (simp add: usize_sat_add_def)

lemma div_ceil_pos: "0 < n \<Longrightarrow> 0 < d \<Longrightarrow> 0 < div_ceil n d"
  by (auto simp: div_ceil_def div_greater_zero_iff)

lemma div_ceil_mono: "m \<le> n \<Longrightarrow> div_ceil m d \<le> div_ceil n d"
  by (auto simp: div_ceil_def intro: div_le_mono)

subsection \<open>Big-endian bytes\<close>

text \<open>\<open>u32::to_be_bytes\<close>, \<open>u32::from_be_bytes\<close> and the same for \<open>u64\<close>.\<close>

definition be32 :: "u32 \<Rightarrow> bytes" where
  "be32 w = [ucast (drop_bit 24 w), ucast (drop_bit 16 w), ucast (drop_bit 8 w), ucast w]"

fun of_be32 :: "bytes \<Rightarrow> u32" where
  "of_be32 [a, b, c, d] =
     push_bit 24 (ucast a) OR push_bit 16 (ucast b) OR push_bit 8 (ucast c) OR ucast d"
| "of_be32 _ = 0"

definition be64 :: "u64 \<Rightarrow> bytes" where
  "be64 w = be32 (ucast (drop_bit 32 w)) @ be32 (ucast w)"

definition of_be64 :: "bytes \<Rightarrow> u64" where
  "of_be64 bs = push_bit 32 (ucast (of_be32 (take 4 bs))) OR ucast (of_be32 (drop 4 bs))"

lemma length_be32 [simp]: "length (be32 w) = 4"
  by (simp add: be32_def)

lemma length_be64 [simp]: "length (be64 w) = 8"
  by (simp add: be64_def)

lemma bit_u8_high: "8 \<le> n \<Longrightarrow> \<not> bit (w :: u8) n"
  using bit_imp_le_length [of w n] by auto

lemma of_be32_be32 [simp]: "of_be32 (be32 w) = w"
proof (rule bit_word_eqI)
  fix n assume "n < LENGTH(32)"
  then consider "n < 8" | "8 \<le> n" "n < 16" | "16 \<le> n" "n < 24" | "24 \<le> n" "n < 32"
    by fastforce
  then show "bit (of_be32 (be32 w)) n = bit w n"
    by cases (simp_all add: be32_def bit_simps less_diff_conv2)
qed

lemma be32_of_be32: "be32 (of_be32 [a,b,c,d]) = [a,b,c,d]"
  unfolding be32_def of_be32.simps
  by (auto intro!: bit_word_eqI simp add: bit_simps bit_u8_high)

lemma of_be64_be64 [simp]: "of_be64 (be64 w) = w"
  unfolding be64_def of_be64_def by (rule bit_word_eqI) (auto simp: bit_simps)

subsection \<open>Strings as bytes\<close>

text \<open>
  A Rust \<open>&str\<close> or \<open>&AsciiStr\<close> is the HOL string with the same bytes; \<open>as_bytes\<close> is
  \<open>str_bytes\<close>, a bijection.
\<close>

definition byte_of_char :: "char \<Rightarrow> u8" where
  "byte_of_char c = word_of_nat (of_char c)"

definition char_of_byte :: "u8 \<Rightarrow> char" where
  "char_of_byte b = char_of (unat b)"

definition str_bytes :: "string \<Rightarrow> bytes" where
  "str_bytes s = map byte_of_char s"

definition bytes_str :: "bytes \<Rightarrow> string" where
  "bytes_str b = map char_of_byte b"

lemma of_char_less_256: "(of_char c :: nat) < 256"
  using nat_of_char_less_256 by simp

lemma char_of_byte_of_char [simp]: "char_of_byte (byte_of_char c) = c"
  using of_char_less_256 [of c]
  by (simp add: char_of_byte_def byte_of_char_def unat_of_nat take_bit_nat_eq_self)

lemma byte_of_char_of_byte [simp]: "byte_of_char (char_of_byte b) = b"
  by (simp add: char_of_byte_def byte_of_char_def)

lemma bytes_str_str_bytes [simp]: "bytes_str (str_bytes s) = s"
  by (simp add: bytes_str_def str_bytes_def comp_def)

lemma str_bytes_bytes_str [simp]: "str_bytes (bytes_str b) = b"
  by (simp add: bytes_str_def str_bytes_def comp_def)

lemma length_str_bytes [simp]: "length (str_bytes s) = length s"
  by (simp add: str_bytes_def)

lemma str_bytes_inject [simp]: "str_bytes s = str_bytes t \<longleftrightarrow> s = t"
  by (metis bytes_str_str_bytes)

lemma str_bytes_append: "str_bytes (s @ t) = str_bytes s @ str_bytes t"
  by (simp add: str_bytes_def)

subsection \<open>Slices\<close>

text \<open>
  \<open>buf[from..to]\<close>; a range outside the buffer panics, which is \<^term>\<open>None\<close>.
  \<open>overwrite\<close> is \<open>buf[from..from + v.len()].copy_from_slice(v)\<close>.
\<close>

definition slice :: "'a list \<Rightarrow> nat \<Rightarrow> nat \<Rightarrow> 'a list option" where
  "slice b from to = (if from \<le> to \<and> to \<le> length b then Some (take (to - from) (drop from b)) else None)"

definition overwrite :: "'a list \<Rightarrow> nat \<Rightarrow> 'a list \<Rightarrow> 'a list" where
  "overwrite b from v = take from b @ v @ drop (from + length v) b"

lemma slice_nth: "n < length b \<Longrightarrow> slice b n (Suc n) = Some [b ! n]"
  by (simp add: slice_def) (metis Cons_nth_drop_Suc take0 take_Suc_Cons)

lemma length_overwrite [simp]: "from + length v \<le> length b \<Longrightarrow> length (overwrite b from v) = length b"
  by (simp add: overwrite_def)

lemma take_overwrite: "from + length v \<le> length b \<Longrightarrow> n \<le> from \<Longrightarrow> take n (overwrite b from v) = take n b"
  by (simp add: overwrite_def min_def)

lemma take_overwrite_end:
  "from + length v \<le> length b \<Longrightarrow> take (from + length v) (overwrite b from v) = take from b @ v"
  by (simp add: overwrite_def)

lemma overwrite_overwrite:
  assumes "i + length x + length y \<le> length b"
  shows "overwrite (overwrite b i x) (i + length x) y = overwrite b i (x @ y)"
proof -
  have i: "length (take i b) = i" using assms by simp
  show ?thesis by (simp add: overwrite_def i ac_simps del: length_take)
qed

lemma overwrite_Nil [simp]: "overwrite b i [] = b"
  by (simp add: overwrite_def)

lemma slice_overwrite:
  "from + length v \<le> length b \<Longrightarrow> slice (overwrite b from v) from (from + length v) = Some v"
  by (simp add: slice_def overwrite_def)

end
