(* ===== verification/SSH_Errors.thy ===== *)
theory SSH_Errors
  imports SSH_Prelude
begin

section \<open>Errors, message numbers and limits\<close>

text \<open>
  The two error enums: \<open>WireError\<close> of \<open>src/src/sshwire.rs\<close> and \<open>Error\<close> of
  \<open>src/src/error.rs\<close>, with the conversion between them, the message numbers of
  \<open>src/src/packets.rs\<close> that an error can carry, and the constants of \<open>src/src/config.rs\<close>.

  The model is of a release build with the default features: \<open>Error::bug\<close> returns
  \<open>Error::Bug\<close> and a \<open>debug_assert\<close> is not evaluated (lemmas show the asserted facts
  instead). A Rust panic, which has no value, is the extra constructor \<open>Panic\<close>; lemmas show it is
  unreachable.
\<close>

type_synonym chan_num = u32

datatype message_number =
    SSH_MSG_DISCONNECT | SSH_MSG_IGNORE | SSH_MSG_UNIMPLEMENTED | SSH_MSG_DEBUG
  | SSH_MSG_SERVICE_REQUEST | SSH_MSG_SERVICE_ACCEPT | SSH_MSG_EXT_INFO
  | SSH_MSG_KEXINIT | SSH_MSG_NEWKEYS | SSH_MSG_KEXDH_INIT | SSH_MSG_KEXDH_REPLY
  | SSH_MSG_USERAUTH_REQUEST | SSH_MSG_USERAUTH_FAILURE | SSH_MSG_USERAUTH_SUCCESS
  | SSH_MSG_USERAUTH_BANNER | SSH_MSG_USERAUTH_60
  | SSH_MSG_GLOBAL_REQUEST | SSH_MSG_REQUEST_SUCCESS | SSH_MSG_REQUEST_FAILURE
  | SSH_MSG_CHANNEL_OPEN | SSH_MSG_CHANNEL_OPEN_CONFIRMATION | SSH_MSG_CHANNEL_OPEN_FAILURE
  | SSH_MSG_CHANNEL_WINDOW_ADJUST | SSH_MSG_CHANNEL_DATA | SSH_MSG_CHANNEL_EXTENDED_DATA
  | SSH_MSG_CHANNEL_EOF | SSH_MSG_CHANNEL_CLOSE | SSH_MSG_CHANNEL_REQUEST
  | SSH_MSG_CHANNEL_SUCCESS | SSH_MSG_CHANNEL_FAILURE

text \<open>The discriminants of the \<open>messagetypes!\<close> table: \<open>m as u8\<close>.\<close>

fun message_number_u8 :: "message_number \<Rightarrow> u8" where
  "message_number_u8 SSH_MSG_DISCONNECT = 1"
| "message_number_u8 SSH_MSG_IGNORE = 2"
| "message_number_u8 SSH_MSG_UNIMPLEMENTED = 3"
| "message_number_u8 SSH_MSG_DEBUG = 4"
| "message_number_u8 SSH_MSG_SERVICE_REQUEST = 5"
| "message_number_u8 SSH_MSG_SERVICE_ACCEPT = 6"
| "message_number_u8 SSH_MSG_EXT_INFO = 7"
| "message_number_u8 SSH_MSG_KEXINIT = 20"
| "message_number_u8 SSH_MSG_NEWKEYS = 21"
| "message_number_u8 SSH_MSG_KEXDH_INIT = 30"
| "message_number_u8 SSH_MSG_KEXDH_REPLY = 31"
| "message_number_u8 SSH_MSG_USERAUTH_REQUEST = 50"
| "message_number_u8 SSH_MSG_USERAUTH_FAILURE = 51"
| "message_number_u8 SSH_MSG_USERAUTH_SUCCESS = 52"
| "message_number_u8 SSH_MSG_USERAUTH_BANNER = 53"
| "message_number_u8 SSH_MSG_USERAUTH_60 = 60"
| "message_number_u8 SSH_MSG_GLOBAL_REQUEST = 80"
| "message_number_u8 SSH_MSG_REQUEST_SUCCESS = 81"
| "message_number_u8 SSH_MSG_REQUEST_FAILURE = 82"
| "message_number_u8 SSH_MSG_CHANNEL_OPEN = 90"
| "message_number_u8 SSH_MSG_CHANNEL_OPEN_CONFIRMATION = 91"
| "message_number_u8 SSH_MSG_CHANNEL_OPEN_FAILURE = 92"
| "message_number_u8 SSH_MSG_CHANNEL_WINDOW_ADJUST = 93"
| "message_number_u8 SSH_MSG_CHANNEL_DATA = 94"
| "message_number_u8 SSH_MSG_CHANNEL_EXTENDED_DATA = 95"
| "message_number_u8 SSH_MSG_CHANNEL_EOF = 96"
| "message_number_u8 SSH_MSG_CHANNEL_CLOSE = 97"
| "message_number_u8 SSH_MSG_CHANNEL_REQUEST = 98"
| "message_number_u8 SSH_MSG_CHANNEL_SUCCESS = 99"
| "message_number_u8 SSH_MSG_CHANNEL_FAILURE = 100"

text \<open>The error enums. Payloads that are only rendered for a user (\<open>backtrace\<close>) are left out.\<close>

datatype wire_error =
    WireNoRoom | WireRanOut | WireBadString | WireBadName | WireEncodeUnknown | WirePacketWrong
  | WireSSHProto | WireBadKey | WireBadNumber | WireUnknownVariant | WireSSHProtoUnsupported
  | WireUnknownPacket u8

datatype ssh_error =
    RanOut | BusySend message_number bool | NoRoom | BadString | BadName | BadKex | BadDecrypt
  | BadSig | BadNumber | SSHProto | SSHProtoUnsupported | NotSSH | BadKey | NoChannels
  | BadChannel chan_num | BadChannelData | BadUsage | WrongPacketLength | ChannelEOF | SessionEOF
  | NotAvailable string | UnknownPacket u8 | PacketWrong | AlgoNoMatch string | BigPacket nat
  | NoAuthMethods | UnknownMethod string | Custom string | Bug
  | Panic

type_synonym 'a wire_result = "wire_error + 'a"
type_synonym 'a ssh_result = "ssh_error + 'a"

text \<open>\<open>TryFrom<u8> for MessageNumber\<close>.\<close>

definition message_number_try_from :: "u8 \<Rightarrow> message_number ssh_result" where
  "message_number_try_from v =
     (if v = 1 then Inr SSH_MSG_DISCONNECT else if v = 2 then Inr SSH_MSG_IGNORE
      else if v = 3 then Inr SSH_MSG_UNIMPLEMENTED else if v = 4 then Inr SSH_MSG_DEBUG
      else if v = 5 then Inr SSH_MSG_SERVICE_REQUEST else if v = 6 then Inr SSH_MSG_SERVICE_ACCEPT
      else if v = 7 then Inr SSH_MSG_EXT_INFO else if v = 20 then Inr SSH_MSG_KEXINIT
      else if v = 21 then Inr SSH_MSG_NEWKEYS else if v = 30 then Inr SSH_MSG_KEXDH_INIT
      else if v = 31 then Inr SSH_MSG_KEXDH_REPLY else if v = 50 then Inr SSH_MSG_USERAUTH_REQUEST
      else if v = 51 then Inr SSH_MSG_USERAUTH_FAILURE
      else if v = 52 then Inr SSH_MSG_USERAUTH_SUCCESS
      else if v = 53 then Inr SSH_MSG_USERAUTH_BANNER else if v = 60 then Inr SSH_MSG_USERAUTH_60
      else if v = 80 then Inr SSH_MSG_GLOBAL_REQUEST else if v = 81 then Inr SSH_MSG_REQUEST_SUCCESS
      else if v = 82 then Inr SSH_MSG_REQUEST_FAILURE else if v = 90 then Inr SSH_MSG_CHANNEL_OPEN
      else if v = 91 then Inr SSH_MSG_CHANNEL_OPEN_CONFIRMATION
      else if v = 92 then Inr SSH_MSG_CHANNEL_OPEN_FAILURE
      else if v = 93 then Inr SSH_MSG_CHANNEL_WINDOW_ADJUST
      else if v = 94 then Inr SSH_MSG_CHANNEL_DATA
      else if v = 95 then Inr SSH_MSG_CHANNEL_EXTENDED_DATA
      else if v = 96 then Inr SSH_MSG_CHANNEL_EOF else if v = 97 then Inr SSH_MSG_CHANNEL_CLOSE
      else if v = 98 then Inr SSH_MSG_CHANNEL_REQUEST
      else if v = 99 then Inr SSH_MSG_CHANNEL_SUCCESS
      else if v = 100 then Inr SSH_MSG_CHANNEL_FAILURE
      else Inl (UnknownPacket v))"

text \<open>\<open>From<WireError> for Error\<close>.\<close>

fun error_from_wire :: "wire_error \<Rightarrow> ssh_error" where
  "error_from_wire WireNoRoom = NoRoom"
| "error_from_wire WireRanOut = RanOut"
| "error_from_wire WireBadString = BadString"
| "error_from_wire WireBadName = BadName"
| "error_from_wire WireSSHProto = SSHProto"
| "error_from_wire WirePacketWrong = PacketWrong"
| "error_from_wire WireBadKey = BadKey"
| "error_from_wire WireBadNumber = BadNumber"
| "error_from_wire WireEncodeUnknown = Bug"
| "error_from_wire WireUnknownVariant = UnknownMethod ''''"
| "error_from_wire WireSSHProtoUnsupported = SSHProtoUnsupported"
| "error_from_wire (WireUnknownPacket n) = UnknownPacket n"

text \<open>\<open>TrapBug::trap\<close> for \<open>Option\<close> and \<open>Result\<close>: a failure becomes \<open>Error::Bug\<close>.\<close>

definition trap_option :: "'a option \<Rightarrow> 'a ssh_result" where
  "trap_option m = ok_or Bug m"

definition trap_result :: "'e + 'a \<Rightarrow> 'a ssh_result" where
  "trap_result r = map_err (\<lambda>_. Bug) r"

definition panic_option :: "'a option \<Rightarrow> 'a ssh_result" where
  "panic_option m = ok_or Panic m"

definition DEFAULT_WINDOW :: nat where "DEFAULT_WINDOW = 1000"
definition DEFAULT_MAX_PACKET :: nat where "DEFAULT_MAX_PACKET = 1000"
definition MAX_CHANNELS :: nat where "MAX_CHANNELS = 16"
definition MAX_TERM :: nat where "MAX_TERM = 32"
definition MAX_USERNAME :: nat where "MAX_USERNAME = 31"

lemmas config_defs = DEFAULT_WINDOW_def DEFAULT_MAX_PACKET_def MAX_CHANNELS_def MAX_TERM_def
  MAX_USERNAME_def

lemma message_number_try_from_u8 [simp]: "message_number_try_from (message_number_u8 m) = Inr m"
  by (cases m) (simp_all add: message_number_try_from_def)

lemma message_number_u8_inj [simp]: "message_number_u8 m = message_number_u8 n \<longleftrightarrow> m = n"
  by (metis message_number_try_from_u8 sum.inject(2))

lemma message_number_try_from_Inr:
  "message_number_try_from v = Inr m \<Longrightarrow> message_number_u8 m = v"
  unfolding message_number_try_from_def by (auto split: if_splits)

lemma error_from_wire_not_Panic [simp]: "error_from_wire w \<noteq> Panic"
  by (cases w) auto

end
