(* ===== verification/SSH_Wire.thy ===== *)
theory SSH_Wire
  imports SSH_Errors
begin

section \<open>SSH wire encoding\<close>

text \<open>
  The encoders and decoders of \<open>src/src/sshwire.rs\<close>.

  An \<open>SSHEncode::enc\<close> method only ever calls \<open>push\<close> on the sink it is given, and \<open>Blob::enc\<close>
  runs the encoder of its content on two sinks of different types. So the value of \<open>enc\<close> is the
  sequence of \<open>push\<close> calls it makes, a \<open>sink_prog\<close> that ends normally or with an error, and
  \<open>run_sink\<close> performs the calls on a sink. The three sinks (\<open>EncodeBytes\<close>, \<open>EncodeLen\<close>,
  \<open>EncodeHash\<close>) satisfy one contract, the locale \<open>ssh_sink\<close>.

  A decoder maps a source, the rest of the input and the \<open>ParseContext\<close>, to a value and the
  advanced source. The locale \<open>codec\<close> is the contract between the \<open>enc\<close> and \<open>dec\<close> of
  a type: what was encoded decodes to the same value and leaves what followed. The predicate
  \<open>consuming\<close> holds of every decoder: it takes a prefix of the input.
\<close>

subsection \<open>Sinks\<close>

datatype sink_prog = Done | Fail wire_error | Push bytes sink_prog

primrec seq :: "sink_prog \<Rightarrow> sink_prog \<Rightarrow> sink_prog" where
  "seq Done q = q"
| "seq (Fail e) q = Fail e"
| "seq (Push v p) q = Push v (seq p q)"

text \<open>The derived \<open>enc\<close> of a struct: the fields in order.\<close>

primrec enc_all :: "sink_prog list \<Rightarrow> sink_prog" where
  "enc_all [] = Done"
| "enc_all (p # ps) = seq p (enc_all ps)"

primrec run_sink :: "(bytes \<Rightarrow> 's \<Rightarrow> 's wire_result) \<Rightarrow> sink_prog \<Rightarrow> 's \<Rightarrow> 's wire_result" where
  "run_sink psh Done s = Inr s"
| "run_sink psh (Fail e) s = Inl e"
| "run_sink psh (Push v p) s = and_then (psh v s) (run_sink psh p)"

text \<open>
  \<open>EncodeBytes\<close> holds the part of the target slice that is still free; the bytes already
  written in front of it are kept beside it. \<open>EncodeLen\<close> counts with \<open>checked_add\<close> and
  \<open>EncodeHash\<close> passes the bytes to a digest, which is the bytes it has absorbed.
\<close>

record encode_bytes =
  written :: bytes
  target :: bytes

definition encode_bytes_push :: "bytes \<Rightarrow> encode_bytes \<Rightarrow> encode_bytes wire_result" where
  "encode_bytes_push v s =
     (if length v > length (target s) then Inl WireNoRoom
      else Inr \<lparr>written = written s @ v, target = drop (length v) (target s)\<rparr>)"

definition encode_len_push :: "bytes \<Rightarrow> nat \<Rightarrow> nat wire_result" where
  "encode_len_push v pos =
     (if pos + length v > usize_max then Inl WireNoRoom else Inr (pos + length v))"

definition encode_hash_push :: "bytes \<Rightarrow> bytes \<Rightarrow> bytes wire_result" where
  "encode_hash_push v h = Inr (h @ v)"

text \<open>\<open>write_ssh\<close>: the number of bytes written and the target slice afterwards.\<close>

definition write_ssh :: "bytes \<Rightarrow> sink_prog \<Rightarrow> (nat \<times> bytes) ssh_result" where
  "write_ssh targ value =
     and_then (map_err error_from_wire
                 (run_sink encode_bytes_push value \<lparr>written = [], target = targ\<rparr>))
       (\<lambda>s. Inr (length targ - length (target s), written s @ target s))"

definition length_enc :: "sink_prog \<Rightarrow> u32 wire_result" where
  "length_enc value =
     and_then (run_sink encode_len_push value 0)
       (\<lambda>pos. if pos \<le> u32_max then Inr (word_of_nat pos) else Inl WireNoRoom)"

definition hash_ser :: "bytes \<Rightarrow> sink_prog \<Rightarrow> bytes ssh_result" where
  "hash_ser hash_ctx value = map_err error_from_wire (run_sink encode_hash_push value hash_ctx)"

definition hash_ser_length :: "bytes \<Rightarrow> sink_prog \<Rightarrow> bytes ssh_result" where
  "hash_ser_length hash_ctx value =
     and_then (map_err error_from_wire (length_enc value))
       (\<lambda>len. hash_ser (hash_ctx @ be32 len) value)"

text \<open>
  \<open>ssh_push_vec\<close> appends to a growable vector (\<open>resize\<close>, then write behind the old content).
\<close>

definition ssh_push_vec :: "bytes \<Rightarrow> sink_prog \<Rightarrow> bytes ssh_result" where
  "ssh_push_vec targ value =
     and_then (map_err error_from_wire (length_enc value))
       (\<lambda>len. if length targ + unat len > usize_max then Inl NoRoom
          else and_then (write_ssh (replicate (unat len) 0) value)
                 (\<lambda>(wl, tail). Inr (targ @ tail)))"

subsection \<open>Encoders\<close>

definition enc_u8 :: "u8 \<Rightarrow> sink_prog" where
  "enc_u8 b = Push [b] Done"

definition enc_bool :: "bool \<Rightarrow> sink_prog" where
  "enc_bool b = enc_u8 (if b then 1 else 0)"

definition enc_u32 :: "u32 \<Rightarrow> sink_prog" where
  "enc_u32 n = Push (be32 n) Done"

definition enc_u64 :: "u64 \<Rightarrow> sink_prog" where
  "enc_u64 n = Push (be64 n) Done"

text \<open>\<open>[u8; N]\<close>, no length prefix.\<close>

definition enc_array :: "bytes \<Rightarrow> sink_prog" where
  "enc_array b = Push b Done"

definition enc_binstring :: "bytes \<Rightarrow> sink_prog" where
  "enc_binstring b = seq (enc_u32 (word_of_nat (length b))) (Push b Done)"

definition enc_textstring :: "bytes \<Rightarrow> sink_prog" where
  "enc_textstring b = enc_binstring b"

definition enc_str :: "string \<Rightarrow> sink_prog" where
  "enc_str s = seq (enc_u32 (word_of_nat (length (str_bytes s)))) (Push (str_bytes s) Done)"

definition enc_ascii_str :: "string \<Rightarrow> sink_prog" where
  "enc_ascii_str s = enc_binstring (str_bytes s)"

primrec enc_option :: "('a \<Rightarrow> sink_prog) \<Rightarrow> 'a option \<Rightarrow> sink_prog" where
  "enc_option e None = Done"
| "enc_option e (Some t) = e t"

definition enc_blob :: "sink_prog \<Rightarrow> sink_prog" where
  "enc_blob inner =
     (case length_enc inner of Inl e \<Rightarrow> Fail e | Inr len \<Rightarrow> seq (enc_u32 len) inner)"

definition top_bit_set :: "bytes \<Rightarrow> bool" where
  "top_bit_set b = ((case b of [] \<Rightarrow> 0 | x # _ \<Rightarrow> x) AND 0x80 \<noteq> 0)"

text \<open>\<open>Mpint::new\<close>: the loop that drops leading zero bytes.\<close>

fun mpint_new :: "bytes \<Rightarrow> bytes" where
  "mpint_new (b # bs) = (if b = 0 then mpint_new bs else b # bs)"
| "mpint_new [] = []"

definition enc_mpint :: "bytes \<Rightarrow> sink_prog" where
  "enc_mpint m =
     (let pad = top_bit_set m in
      enc_all [enc_u32 (word_of_nat (length m) + (if pad then 1 else 0)),
               (if pad then enc_u8 0 else Done),
               Push m Done])"

definition hash_mpint :: "bytes \<Rightarrow> bytes \<Rightarrow> bytes ssh_result" where
  "hash_mpint hash_ctx m = map_err (\<lambda>_. Panic) (hash_ser hash_ctx (enc_mpint (mpint_new m)))"

subsection \<open>Sources and decoders\<close>

datatype auth_type = AuthPassword | AuthPubKey

record parse_context =
  cli_auth_type :: "auth_type option"
  seen_unknown :: bool

record ssh_source =
  input :: bytes
  parse_ctx :: parse_context

abbreviation src :: "bytes \<Rightarrow> parse_context \<Rightarrow> ssh_source" where
  "src b c \<equiv> \<lparr>input = b, parse_ctx = c\<rparr>"

type_synonym 'a decoder = "ssh_source \<Rightarrow> ('a \<times> ssh_source) wire_result"

definition parse_context_new :: parse_context where
  "parse_context_new = \<lparr>cli_auth_type = None, seen_unknown = False\<rparr>"

text \<open>Sequencing: \<open>let a = d(s)?; f(a)\<close>.\<close>

definition dec_bind :: "'a decoder \<Rightarrow> ('a \<Rightarrow> 'b decoder) \<Rightarrow> 'b decoder" where
  "dec_bind d f s = and_then (d s) (\<lambda>(a, s'). f a s')"

definition dec_return :: "'a \<Rightarrow> 'a decoder" where
  "dec_return a s = Inr (a, s)"

definition dec_fail :: "wire_error \<Rightarrow> 'a decoder" where
  "dec_fail e s = Inl e"

text \<open>A fallible conversion of a decoded value.\<close>

definition dec_lift :: "'a wire_result \<Rightarrow> 'a decoder" where
  "dec_lift r s = and_then r (\<lambda>a. Inr (a, s))"

definition source_take :: "nat \<Rightarrow> bytes decoder" where
  "source_take len s =
     (if len > length (input s) then Inl WireRanOut
      else Inr (take len (input s), s\<lparr>input := drop len (input s)\<rparr>))"

definition remaining :: "nat decoder" where
  "remaining s = Inr (length (input s), s)"

definition get_ctx :: "parse_context decoder" where
  "get_ctx s = Inr (parse_ctx s, s)"

definition set_seen_unknown :: "unit decoder" where
  "set_seen_unknown s = Inr ((), s\<lparr>parse_ctx := (parse_ctx s)\<lparr>seen_unknown := True\<rparr>\<rparr>)"

definition dec_u8 :: "u8 decoder" where
  "dec_u8 = dec_bind (source_take 1) (\<lambda>t. dec_return (hd t))"

definition dec_bool :: "bool decoder" where
  "dec_bool = dec_bind dec_u8 (\<lambda>b. dec_return (b \<noteq> 0))"

definition dec_u32 :: "u32 decoder" where
  "dec_u32 = dec_bind (source_take 4) (\<lambda>t. dec_return (of_be32 t))"

definition dec_u64 :: "u64 decoder" where
  "dec_u64 = dec_bind (source_take 8) (\<lambda>t. dec_return (of_be64 t))"

definition dec_array :: "nat \<Rightarrow> bytes decoder" where
  "dec_array n = source_take n"

definition dec_binstring :: "bytes decoder" where
  "dec_binstring = dec_bind dec_u32 (\<lambda>len. source_take (unat len))"

definition dec_textstring :: "bytes decoder" where
  "dec_textstring = dec_bind dec_u32 (\<lambda>len. source_take (unat len))"

definition try_as_ascii :: "bytes \<Rightarrow> string wire_result" where
  "try_as_ascii t =
     (if \<not> list_all (\<lambda>ch. ch < 0x80) t then Inl WireBadName
      else if list_ex (\<lambda>ch. ch < 0x20 \<or> ch = 0x7f) t then Inl WireBadName
      else Inr (bytes_str t))"

definition dec_str :: "string decoder" where
  "dec_str = dec_bind dec_u32 (\<lambda>len. dec_bind (source_take (unat len))
     (\<lambda>t. dec_lift (try_as_ascii t)))"

definition dec_ascii_str :: "string decoder" where
  "dec_ascii_str = dec_bind dec_binstring (\<lambda>b. dec_lift (try_as_ascii b))"

text \<open>\<open>heapless::String<N>\<close>: at most \<open>N\<close> bytes fit.\<close>

definition dec_heapless :: "nat \<Rightarrow> string decoder" where
  "dec_heapless n = dec_bind dec_str
     (\<lambda>t. dec_lift (if length t \<le> n then Inr t else Inl WireNoRoom))"

definition dec_mpint :: "bytes decoder" where
  "dec_mpint = dec_bind dec_binstring
     (\<lambda>b. if top_bit_set b then dec_fail WireBadNumber else dec_return (mpint_new b))"

definition dec_blob :: "'a decoder \<Rightarrow> 'a decoder" where
  "dec_blob d =
     dec_bind dec_u32 (\<lambda>len32. let len = unat len32 in
     dec_bind remaining (\<lambda>rem1.
     dec_bind d (\<lambda>inner.
     dec_bind remaining (\<lambda>rem2.
       let used_len = rem1 - rem2 in
       if used_len \<noteq> len then
         dec_bind get_ctx (\<lambda>ctx.
           if seen_unknown ctx then
             (if used_len > len then dec_fail WireSSHProto
              else dec_bind (source_take (len - used_len)) (\<lambda>_. dec_return inner))
           else dec_fail WireSSHProto)
       else dec_return inner))))"

definition read_ssh :: "'a decoder \<Rightarrow> bytes \<Rightarrow> parse_context option \<Rightarrow> ('a \<times> nat) ssh_result" where
  "read_ssh d b ctx =
     and_then (map_err error_from_wire
                 (d (src b (case ctx of None \<Rightarrow> parse_context_new | Some c \<Rightarrow> c))))
       (\<lambda>(r, s). Inr (r, length b - length (input s)))"


subsection \<open>What a sink program writes\<close>

primrec emitted :: "sink_prog \<Rightarrow> bytes" where
  "emitted Done = []"
| "emitted (Fail e) = []"
| "emitted (Push v p) = v @ emitted p"

primrec failure :: "sink_prog \<Rightarrow> wire_error option" where
  "failure Done = None"
| "failure (Fail e) = Some e"
| "failure (Push v p) = failure p"

text \<open>The contract of a sink, and what follows for a whole encoder.\<close>

locale ssh_sink =
  fixes psh :: "bytes \<Rightarrow> 's \<Rightarrow> 's wire_result"
    and feed :: "'s \<Rightarrow> bytes \<Rightarrow> 's"
    and room :: "'s \<Rightarrow> nat \<Rightarrow> bool"
    and sink_ok :: "'s \<Rightarrow> bool"
  assumes push_ok: "sink_ok s \<Longrightarrow> room s (length v) \<Longrightarrow> psh v s = Inr (feed s v)"
    and push_err: "sink_ok s \<Longrightarrow> \<not> room s (length v) \<Longrightarrow> psh v s = Inl WireNoRoom"
    and feed_Nil: "sink_ok s \<Longrightarrow> feed s [] = s"
    and feed_append: "sink_ok s \<Longrightarrow> room s (length v) \<Longrightarrow> feed (feed s v) w = feed s (v @ w)"
    and feed_keeps: "sink_ok s \<Longrightarrow> room s (length v) \<Longrightarrow> sink_ok (feed s v)"
    and room_0: "sink_ok s \<Longrightarrow> room s 0"
    and room_append: "sink_ok s \<Longrightarrow>
          room s (length v + n) \<longleftrightarrow> room s (length v) \<and> room (feed s v) n"
begin

text \<open>How an encoder chunks its output does not matter: only the bytes and the room do.\<close>

lemma run_sink_eq:
  "sink_ok s \<Longrightarrow> run_sink psh p s =
     (if room s (length (emitted p))
      then (case failure p of None \<Rightarrow> Inr (feed s (emitted p)) | Some e \<Rightarrow> Inl e)
      else Inl WireNoRoom)"
proof (induction p arbitrary: s)
  case (Push v p)
  show ?case
  proof (cases "room s (length v)")
    case True
    with Push show ?thesis
      by (simp add: push_ok feed_append feed_keeps room_append split: option.split)
  next
    case False
    with Push.prems show ?thesis by (simp add: push_err room_append)
  qed
qed (simp_all add: feed_Nil room_0)

end

interpretation bytes_sink: ssh_sink encode_bytes_push
  "\<lambda>s v. \<lparr>written = written s @ v, target = drop (length v) (target s)\<rparr>"
  "\<lambda>s n. n \<le> length (target s)" "\<lambda>_. True"
  by unfold_locales (auto simp: encode_bytes_push_def add.commute)

interpretation len_sink: ssh_sink encode_len_push
  "\<lambda>pos v. pos + length v" "\<lambda>pos n. pos + n \<le> usize_max" "\<lambda>pos. pos \<le> usize_max"
  by unfold_locales (auto simp: encode_len_push_def)

interpretation hash_sink: ssh_sink encode_hash_push "(@)" "\<lambda>_ _. True" "\<lambda>_. True"
  by unfold_locales (auto simp: encode_hash_push_def)

lemma emitted_seq [wire]: "failure p = None \<Longrightarrow> emitted (seq p q) = emitted p @ emitted q"
  by (induction p) auto

lemma failure_seq [wire]: "failure (seq p q) = (case failure p of None \<Rightarrow> failure q | Some e \<Rightarrow> Some e)"
  by (induction p) auto

lemma length_enc_eq:
  "length_enc p = (if length (emitted p) \<le> usize_max then
       (case failure p of
          None \<Rightarrow> if length (emitted p) \<le> u32_max then Inr (word_of_nat (length (emitted p)))
                  else Inl WireNoRoom
        | Some e \<Rightarrow> Inl e)
     else Inl WireNoRoom)"
  by (simp add: length_enc_def len_sink.run_sink_eq split: option.split)

lemma write_ssh_eq:
  "write_ssh targ p =
     (if length (emitted p) \<le> length targ
      then (case failure p of
              None \<Rightarrow> Inr (length (emitted p), overwrite targ 0 (emitted p))
            | Some e \<Rightarrow> Inl (error_from_wire e))
      else Inl NoRoom)"
  by (auto simp: write_ssh_def bytes_sink.run_sink_eq overwrite_def split: option.split)

lemma hash_ser_eq:
  "hash_ser h p = (case failure p of None \<Rightarrow> Inr (h @ emitted p) | Some e \<Rightarrow> Inl (error_from_wire e))"
  by (simp add: hash_ser_def hash_sink.run_sink_eq split: option.split)

lemma emitted_enc_blob [wire]:
  "failure p = None \<Longrightarrow> length (emitted p) < 2 ^ 32 \<Longrightarrow>
     emitted (enc_blob p) = be32 (word_of_nat (length (emitted p))) @ emitted p"
  by (simp add: enc_blob_def length_enc_eq enc_u32_def u32_max_def usize_max_def)

lemma failure_enc_blob [wire]:
  "failure p = None \<Longrightarrow> length (emitted p) < 2 ^ 32 \<Longrightarrow> failure (enc_blob p) = None"
  by (simp add: enc_blob_def length_enc_eq enc_u32_def u32_max_def usize_max_def)

lemmas enc_basic_defs = enc_u8_def enc_bool_def enc_u32_def enc_u64_def enc_array_def
  enc_binstring_def enc_textstring_def enc_str_def enc_ascii_str_def

lemma failure_basic [wire, simp]:
  "failure (enc_u8 b) = None" "failure (enc_bool c) = None" "failure (enc_u32 n) = None"
  "failure (enc_u64 m) = None" "failure (enc_array v) = None" "failure (enc_binstring v) = None"
  "failure (enc_textstring v) = None" "failure (enc_str t) = None"
  "failure (enc_ascii_str t) = None" "failure (enc_mpint v) = None"
  by (simp_all add: enc_basic_defs enc_mpint_def Let_def failure_seq)

lemma emitted_basic [wire, simp]:
  "emitted (enc_u8 b) = [b]" "emitted (enc_bool c) = [if c then 1 else 0]"
  "emitted (enc_u32 n) = be32 n" "emitted (enc_u64 m) = be64 m" "emitted (enc_array v) = v"
  "emitted (enc_binstring v) = be32 (word_of_nat (length v)) @ v"
  "emitted (enc_textstring v) = be32 (word_of_nat (length v)) @ v"
  "emitted (enc_str t) = be32 (word_of_nat (length t)) @ str_bytes t"
  "emitted (enc_ascii_str t) = be32 (word_of_nat (length t)) @ str_bytes t"
  by (simp_all add: enc_basic_defs emitted_seq)

subsection \<open>Decoders take a prefix of the input\<close>

text \<open>
  Every decoder gives back a suffix of the source it was given: it never reads past the end, never
  moves backwards and never invents input. The parser context can only gain \<open>seen_unknown\<close>.
\<close>

definition advances :: "ssh_source \<Rightarrow> ssh_source \<Rightarrow> bool" where
  "advances s s' \<longleftrightarrow> (\<exists>used. input s = used @ input s')
     \<and> cli_auth_type (parse_ctx s') = cli_auth_type (parse_ctx s)
     \<and> (seen_unknown (parse_ctx s) \<longrightarrow> seen_unknown (parse_ctx s'))"

lemma advances_refl [simp]: "advances s s"
  by (simp add: advances_def)

lemma advances_trans: "advances s t \<Longrightarrow> advances t u \<Longrightarrow> advances s u"
  by (auto simp: advances_def)

lemma advances_length: "advances s s' \<Longrightarrow> length (input s') \<le> length (input s)"
  by (auto simp: advances_def)

definition consuming :: "'a decoder \<Rightarrow> bool" where
  "consuming d \<longleftrightarrow> (\<forall>s a s'. d s = Inr (a, s') \<longrightarrow> advances s s')"

named_theorems consuming_intros

lemma consumingD: "consuming d \<Longrightarrow> d s = Inr (a, s') \<Longrightarrow> advances s s'"
  by (auto simp: consuming_def)

lemma consuming_bind [consuming_intros]:
  assumes "consuming d" and "\<And>a. consuming (f a)"
  shows "consuming (dec_bind d f)"
  unfolding consuming_def dec_bind_def
  by (auto simp: and_then_Inr_eq split_beta
      intro: advances_trans [OF consumingD [OF assms(1)] consumingD [OF assms(2)]])

lemma consuming_basic [consuming_intros]:
  "consuming (dec_return a)" "consuming (dec_fail e)" "consuming (dec_lift r)"
  "consuming remaining" "consuming get_ctx" "consuming set_seen_unknown"
  by (auto simp: consuming_def dec_return_def dec_fail_def dec_lift_def remaining_def get_ctx_def
      set_seen_unknown_def and_then_Inr_eq) (simp add: advances_def)

lemma consuming_take [consuming_intros]: "consuming (source_take n)"
  by (auto simp: consuming_def source_take_def advances_def split: if_splits)
     (metis append_take_drop_id)

lemma consuming_if [consuming_intros]:
  "consuming d \<Longrightarrow> consuming e \<Longrightarrow> consuming (if b then d else e)"
  by simp

lemma consuming_prim [consuming_intros]:
  "consuming dec_u8" "consuming dec_bool" "consuming dec_u32" "consuming dec_u64"
  "consuming (dec_array n)" "consuming dec_binstring" "consuming dec_textstring"
  "consuming dec_str" "consuming dec_ascii_str" "consuming (dec_heapless n)" "consuming dec_mpint"
  unfolding dec_u8_def dec_bool_def dec_u32_def dec_u64_def dec_array_def dec_binstring_def
    dec_textstring_def dec_str_def dec_ascii_str_def dec_heapless_def dec_mpint_def
  by (intro consuming_intros)+

lemma consuming_blob [consuming_intros]: "consuming d \<Longrightarrow> consuming (dec_blob d)"
  unfolding dec_blob_def Let_def by (intro consuming_intros)


subsection \<open>Round trips\<close>

locale codec =
  fixes enc :: "'a \<Rightarrow> sink_prog"
    and dec :: "'a decoder"
    and wf :: "parse_context \<Rightarrow> 'a \<Rightarrow> bool"
  assumes enc_ok: "wf c a \<Longrightarrow> failure (enc a) = None"
    and dec_enc: "wf c a \<Longrightarrow> dec (src (emitted (enc a) @ rest) c) = Inr (a, src rest c)"
begin

text \<open>Different values have different encodings, none a prefix of another.\<close>

lemma prefix_free:
  assumes "wf c a" "wf c b" "emitted (enc a) @ r = emitted (enc b) @ r'"
  shows "a = b \<and> r = r'"
proof -
  have "(Inr (a, src r c) :: _ wire_result) = Inr (b, src r' c)"
    unfolding dec_enc [OF assms(1), symmetric] dec_enc [OF assms(2), symmetric] assms(3) ..
  then show ?thesis by simp
qed

text \<open>What \<open>write_ssh\<close> put in a buffer, \<open>read_ssh\<close> gets back, whatever follows it.\<close>

lemma read_write:
  assumes "wf c a" "write_ssh t (enc a) = Inr (n, t')"
  shows "read_ssh dec t' (Some c) = Inr (a, n)"
  using assms enc_ok [of c a]
  by (auto simp: write_ssh_eq read_ssh_def overwrite_def dec_enc split: if_splits)

lemma codec_blob:
  "codec (\<lambda>a. enc_blob (enc a)) (dec_blob dec) (\<lambda>c a. wf c a \<and> length (emitted (enc a)) < 2 ^ 32)"
proof unfold_locales
  fix c a rest
  assume a: "wf c a \<and> length (emitted (enc a)) < 2 ^ 32"
  have ok: "failure (enc a) = None"
    using a enc_ok by blast
  with a show "failure (enc_blob (enc a)) = None"
    by (simp add: failure_enc_blob)
  have "dec_u32 (src (be32 n @ r) c) = Inr (n, src r c)" for n r
    by (simp add: dec_u32_def dec_bind_def source_take_def dec_return_def)
  with a ok show "dec_blob dec (src (emitted (enc_blob (enc a)) @ rest) c) = Inr (a, src rest c)"
    by (simp add: emitted_enc_blob dec_blob_def dec_bind_def remaining_def Let_def
        unat_of_nat_u32 dec_enc dec_return_def)
qed

end

definition is_name :: "string \<Rightarrow> bool" where
  "is_name s = list_all (\<lambda>ch. 0x20 \<le> byte_of_char ch \<and> byte_of_char ch < 0x7f) s"

abbreviation len_ok :: "'a list \<Rightarrow> bool" where
  "len_ok v \<equiv> length v < 2 ^ 32"

lemmas dec_defs = dec_bind_def dec_return_def dec_fail_def dec_lift_def source_take_def

lemma dec_prim [wire]:
  "dec_u8 (src (b # r) c) = Inr (b, src r c)"
  "dec_u32 (src (be32 n @ r) c) = Inr (n, src r c)"
  "dec_u64 (src (be64 m @ r) c) = Inr (m, src r c)"
  by (simp_all add: dec_u8_def dec_u32_def dec_u64_def dec_defs)

lemma dec_bool [wire]: "dec_bool (src ((if b then 1 else 0) # r) c) = Inr (b, src r c)"
  by (simp add: dec_bool_def dec_bind_def dec_prim dec_return_def)

lemma dec_array [wire]: "length v = n \<Longrightarrow> dec_array n (src (v @ r) c) = Inr (v, src r c)"
  by (simp add: dec_array_def source_take_def)

lemma dec_binstring [wire]:
  "len_ok v \<Longrightarrow> dec_binstring (src (be32 (word_of_nat (length v)) @ v @ r) c) = Inr (v, src r c)"
  by (simp add: dec_binstring_def dec_bind_def dec_prim source_take_def unat_of_nat_u32)

lemma dec_textstring_eq: "dec_textstring = dec_binstring"
  by (simp add: dec_textstring_def dec_binstring_def)

lemma dec_bind_assoc: "dec_bind (dec_bind d f) g = dec_bind d (\<lambda>a. dec_bind (f a) g)"
  by (rule ext) (simp add: dec_bind_def and_then_assoc case_prod_beta')

lemma dec_ascii_str_eq: "dec_ascii_str = dec_str"
  by (simp add: dec_ascii_str_def dec_str_def dec_binstring_def dec_bind_assoc)

lemma try_as_ascii_Inr: "try_as_ascii b = Inr s \<longleftrightarrow> is_name s \<and> b = str_bytes s"
proof -
  have "list_all (\<lambda>ch. ch < 0x80) b \<and> \<not> list_ex (\<lambda>ch. ch < 0x20 \<or> ch = 0x7f) b \<longleftrightarrow>
        is_name (bytes_str b)"
    by (auto simp: is_name_def bytes_str_def list_all_iff list_ex_iff word_less_nat_alt
        word_le_nat_alt word_unat_eq_iff intro: le_neq_implies_less) force+
  then show ?thesis
    by (auto simp: try_as_ascii_def split: if_splits)
qed

lemma dec_str [wire]:
  "is_name s \<Longrightarrow> len_ok s \<Longrightarrow>
     dec_str (src (be32 (word_of_nat (length s)) @ str_bytes s @ r) c) = Inr (s, src r c)"
  by (simp add: dec_str_def dec_bind_def dec_prim source_take_def unat_of_nat_u32 dec_lift_def
      try_as_ascii_Inr [THEN iffD2])

lemma dec_heapless [wire]:
  "is_name s \<Longrightarrow> len_ok s \<Longrightarrow> length s \<le> n \<Longrightarrow>
     dec_heapless n (src (be32 (word_of_nat (length s)) @ str_bytes s @ r) c) = Inr (s, src r c)"
  by (simp add: dec_heapless_def dec_bind_def dec_str dec_lift_def)

lemma mpint_new_id: "mpint_new m = m \<longleftrightarrow> m = [] \<or> hd m \<noteq> 0"
proof (cases m)
  case (Cons b bs)
  have "length (mpint_new bs) \<le> length bs"
    by (induction bs rule: mpint_new.induct) auto
  with Cons show ?thesis by (auto dest: arg_cong [of _ _ length])
qed simp

lemma mpint_new_idem [simp]: "mpint_new (mpint_new m) = mpint_new m"
  by (induction m rule: mpint_new.induct) auto

definition mpint_ok :: "bytes \<Rightarrow> bool" where
  "mpint_ok m \<longleftrightarrow> mpint_new m = m \<and> length m + 1 < 2 ^ 32"

lemma emitted_mpint:
  assumes "mpint_ok m"
  shows "\<exists>v. emitted (enc_mpint m) = be32 (word_of_nat (length v)) @ v \<and> len_ok v
     \<and> \<not> top_bit_set v \<and> mpint_new v = m"
proof (cases "top_bit_set m")
  case True
  with assms show ?thesis
    by (intro exI [of _ "0 # m"])
       (simp add: enc_mpint_def Let_def emitted_seq mpint_ok_def top_bit_set_def add.commute)
next
  case False
  with assms show ?thesis
    by (intro exI [of _ m]) (simp add: enc_mpint_def Let_def emitted_seq mpint_ok_def)
qed

lemma dec_mpint:
  assumes "mpint_ok m"
  shows "dec_mpint (src (emitted (enc_mpint m) @ r) c) = Inr (m, src r c)"
  using emitted_mpint [OF assms]
  by (auto simp: dec_mpint_def dec_bind_def dec_binstring dec_return_def)

interpretation u8_codec: codec enc_u8 dec_u8 "\<lambda>_ _. True"
  by unfold_locales (simp_all add: wire)

interpretation bool_codec: codec enc_bool dec_bool "\<lambda>_ _. True"
  by unfold_locales (simp_all add: wire)

interpretation u32_codec: codec enc_u32 dec_u32 "\<lambda>_ _. True"
  by unfold_locales (simp_all add: wire)

interpretation u64_codec: codec enc_u64 dec_u64 "\<lambda>_ _. True"
  by unfold_locales (simp_all add: wire)

interpretation binstring_codec: codec enc_binstring dec_binstring "\<lambda>_ v. len_ok v"
  by unfold_locales (simp_all add: wire)

interpretation str_codec: codec enc_str dec_str "\<lambda>_ s. is_name s \<and> len_ok s"
  by unfold_locales (simp_all add: wire)

interpretation mpint_codec: codec enc_mpint dec_mpint "\<lambda>_ m. mpint_ok m"
  by unfold_locales (simp_all add: dec_mpint)

end
