(* ===== verification/SSH_Names.thy ===== *)
theory SSH_Names
  imports SSH_Wire
begin

section \<open>Algorithm names and name lists\<close>

text \<open>
  The names of \<open>src/src/sshnames.rs\<close> and the comma separated lists of \<open>src/src/namelist.rs\<close>.

  \<open>AsciiStr::split\<close> is code of the \<open>ascii\<close> package, so it is a parameter \<open>spl\<close> of the
  operations that call it. What they rely on is \<open>splits_at_comma spl\<close>: the pieces contain no
  comma and joined by commas they give the string back. \<open>split_comma\<close> is a function that does
  this; the lemma \<open>splits_at_comma_unique\<close> shows that it is the only one.
\<close>

definition SSH_NAME_CURVE25519 :: string where "SSH_NAME_CURVE25519 = ''curve25519-sha256''"
definition SSH_NAME_CURVE25519_LIBSSH :: string where
  "SSH_NAME_CURVE25519_LIBSSH = ''curve25519-sha256@libssh.org''"
definition SSH_NAME_MLKEM_X25519 :: string where "SSH_NAME_MLKEM_X25519 = ''mlkem768x25519-sha256''"
definition SSH_NAME_EXT_INFO_S :: string where "SSH_NAME_EXT_INFO_S = ''ext-info-s''"
definition SSH_NAME_EXT_INFO_C :: string where "SSH_NAME_EXT_INFO_C = ''ext-info-c''"
definition SSH_NAME_KEXGUESS2 :: string where "SSH_NAME_KEXGUESS2 = ''kexguess2@matt.ucc.asn.au''"
definition SSH_NAME_STRICT_KEX_S :: string where
  "SSH_NAME_STRICT_KEX_S = ''kex-strict-s-v00@openssh.com''"
definition SSH_NAME_STRICT_KEX_C :: string where
  "SSH_NAME_STRICT_KEX_C = ''kex-strict-c-v00@openssh.com''"
definition SSH_NAME_ED25519 :: string where "SSH_NAME_ED25519 = ''ssh-ed25519''"
definition SSH_NAME_SK_ED25519 :: string where "SSH_NAME_SK_ED25519 = ''sk-ssh-ed25519@openssh.com''"
definition SSH_NAME_AES256_CTR :: string where "SSH_NAME_AES256_CTR = ''aes256-ctr''"
definition SSH_NAME_CHAPOLY :: string where "SSH_NAME_CHAPOLY = ''chacha20-poly1305@openssh.com''"
definition SSH_NAME_HMAC_SHA256 :: string where "SSH_NAME_HMAC_SHA256 = ''hmac-sha2-256''"
definition SSH_NAME_NONE :: string where "SSH_NAME_NONE = ''none''"
definition SSH_SERVICE_USERAUTH :: string where "SSH_SERVICE_USERAUTH = ''ssh-userauth''"
definition SSH_SERVICE_CONNECTION :: string where "SSH_SERVICE_CONNECTION = ''ssh-connection''"
definition SSH_AUTHMETHOD_PASSWORD :: string where "SSH_AUTHMETHOD_PASSWORD = ''password''"
definition SSH_AUTHMETHOD_PUBLICKEY :: string where "SSH_AUTHMETHOD_PUBLICKEY = ''publickey''"
definition SSH_EXTENDED_DATA_STDERR :: u32 where "SSH_EXTENDED_DATA_STDERR = 1"
definition SSH_EXT_SERVER_SIG_ALGS :: string where "SSH_EXT_SERVER_SIG_ALGS = ''server-sig-algs''"

lemmas ssh_name_defs = SSH_NAME_CURVE25519_def SSH_NAME_CURVE25519_LIBSSH_def
  SSH_NAME_MLKEM_X25519_def SSH_NAME_EXT_INFO_S_def SSH_NAME_EXT_INFO_C_def SSH_NAME_KEXGUESS2_def
  SSH_NAME_STRICT_KEX_S_def SSH_NAME_STRICT_KEX_C_def SSH_NAME_ED25519_def SSH_NAME_SK_ED25519_def
  SSH_NAME_AES256_CTR_def SSH_NAME_CHAPOLY_def SSH_NAME_HMAC_SHA256_def SSH_NAME_NONE_def
  SSH_SERVICE_USERAUTH_def SSH_SERVICE_CONNECTION_def SSH_AUTHMETHOD_PASSWORD_def
  SSH_AUTHMETHOD_PUBLICKEY_def SSH_EXT_SERVER_SIG_ALGS_def

datatype chan_fail =
    SSH_OPEN_ADMINISTRATIVELY_PROHIBITED | SSH_OPEN_CONNECT_FAILED
  | SSH_OPEN_UNKNOWN_CHANNEL_TYPE | SSH_OPEN_RESOURCE_SHORTAGE

fun chan_fail_u32 :: "chan_fail \<Rightarrow> u32" where
  "chan_fail_u32 SSH_OPEN_ADMINISTRATIVELY_PROHIBITED = 1"
| "chan_fail_u32 SSH_OPEN_CONNECT_FAILED = 2"
| "chan_fail_u32 SSH_OPEN_UNKNOWN_CHANNEL_TYPE = 3"
| "chan_fail_u32 SSH_OPEN_RESOURCE_SHORTAGE = 4"

subsection \<open>Name lists\<close>

definition MAX_LOCAL_NAMES :: nat where "MAX_LOCAL_NAMES = 6"

type_synonym local_names = "string list"

datatype name_list = StringNames string | LocalNames local_names

type_synonym splitter = "string \<Rightarrow> string list"

text \<open>A \<open>for\<close> loop that returns from the function when its body does.\<close>

primrec find_first :: "'a list \<Rightarrow> ('a \<Rightarrow> 'b option) \<Rightarrow> 'b option" where
  "find_first [] f = None"
| "find_first (x # xs) f = (case f x of Some r \<Rightarrow> Some r | None \<Rightarrow> find_first xs f)"

text \<open>\<open>SSHEncode for &LocalNames\<close>: the names in order, a comma after each but the last.\<close>

fun enc_names_loop :: "local_names \<Rightarrow> sink_prog" where
  "enc_names_loop [] = Done"
| "enc_names_loop [n] = Push (str_bytes n) Done"
| "enc_names_loop (n # m # ns) = Push (str_bytes n) (seq (enc_u8 0x2c) (enc_names_loop (m # ns)))"

definition enc_local_names :: "local_names \<Rightarrow> sink_prog" where
  "enc_local_names names =
     (let strlen = sum_list (map length names) + (length names - 1) in
      seq (enc_u32 (word_of_nat strlen)) (enc_names_loop names))"

fun enc_name_list :: "name_list \<Rightarrow> sink_prog" where
  "enc_name_list (StringNames s) = enc_ascii_str s"
| "enc_name_list (LocalNames l) = enc_local_names l"

definition dec_name_list :: "name_list decoder" where
  "dec_name_list = dec_bind dec_ascii_str (\<lambda>s. dec_return (StringNames s))"

definition local_names_try_from :: "string list \<Rightarrow> local_names option" where
  "local_names_try_from s = (if length s \<le> MAX_LOCAL_NAMES then Some s else None)"

definition first_string_match :: "splitter \<Rightarrow> string \<Rightarrow> local_names \<Rightarrow> string option" where
  "first_string_match spl s options =
     find_first (spl s) (\<lambda>n. find_first options (\<lambda>opt. if n = opt then Some opt else None))"

definition first_options_match :: "splitter \<Rightarrow> string \<Rightarrow> local_names \<Rightarrow> string option" where
  "first_options_match spl s options =
     find_first options (\<lambda>opt. find_first (spl s) (\<lambda>n. if n = opt then Some opt else None))"

fun first_match ::
  "splitter \<Rightarrow> name_list \<Rightarrow> bool \<Rightarrow> local_names \<Rightarrow> string option ssh_result" where
  "first_match spl (StringNames s) is_client our_options =
     Inr (if is_client then first_options_match spl s our_options
          else first_string_match spl s our_options)"
| "first_match spl (LocalNames _) is_client our_options = Inl Bug"

fun has_algo :: "splitter \<Rightarrow> name_list \<Rightarrow> string \<Rightarrow> bool ssh_result" where
  "has_algo spl (StringNames s) algo = Inr (list_ex (\<lambda>a. a = algo) (spl s))"
| "has_algo spl (LocalNames _) algo = Inl Bug"

definition local_names_first :: "local_names \<Rightarrow> string" where
  "local_names_first l = (if l = [] then '''' else hd l)"

text \<open>\<open>split()\<close> always returns an item, so \<open>unwrap\<close> on the first one does not fail.\<close>

fun name_list_first :: "splitter \<Rightarrow> name_list \<Rightarrow> string" where
  "name_list_first spl (StringNames s) = hd (spl s)"
| "name_list_first spl (LocalNames l) = local_names_first l"

definition name_list_empty :: name_list where
  "name_list_empty = LocalNames []"

subsection \<open>Splitting and joining\<close>

fun join_comma :: "string list \<Rightarrow> string" where
  "join_comma [] = ''''"
| "join_comma [n] = n"
| "join_comma (n # m # ns) = n @ CHR '','' # join_comma (m # ns)"

definition splits_at_comma :: "splitter \<Rightarrow> bool" where
  "splits_at_comma spl \<longleftrightarrow>
     (\<forall>s. spl s \<noteq> [] \<and> join_comma (spl s) = s \<and> (\<forall>n \<in> set (spl s). CHR '','' \<notin> set n))"

fun split_comma :: splitter where
  "split_comma [] = [[]]"
| "split_comma (c # cs) =
     (if c = CHR '','' then [] # split_comma cs
      else (case split_comma cs of [] \<Rightarrow> [[c]] | n # ns \<Rightarrow> (c # n) # ns))"

lemma join_comma_Cons: "ns \<noteq> [] \<Longrightarrow> join_comma (n # ns) = n @ CHR '','' # join_comma ns"
  by (cases ns) auto

lemma split_comma_not_Nil [simp]: "split_comma s \<noteq> []"
  by (induction s rule: split_comma.induct) (auto split: list.split)

lemma join_split: "join_comma (split_comma s) = s"
proof (induction s rule: split_comma.induct)
  case (2 c cs)
  then show ?case
    by (cases "split_comma cs"; cases "tl (split_comma cs)") (auto simp: join_comma_Cons)
qed simp

lemma split_no_comma: "n \<in> set (split_comma s) \<Longrightarrow> CHR '','' \<notin> set n"
  by (induction s arbitrary: n rule: split_comma.induct) (fastforce split: if_splits list.splits)+

lemma splits_at_comma_split_comma: "splits_at_comma split_comma"
  by (simp add: splits_at_comma_def join_split split_no_comma)

lemma split_comma_append: "CHR '','' \<notin> set n \<Longrightarrow>
  split_comma (n @ CHR '','' # s) = n # split_comma s"
  by (induction n) auto

lemma split_comma_single: "CHR '','' \<notin> set n \<Longrightarrow> split_comma n = [n]"
  by (induction n) auto

lemma split_join: "ns \<noteq> [] \<Longrightarrow> \<forall>n \<in> set ns. CHR '','' \<notin> set n \<Longrightarrow> split_comma (join_comma ns) = ns"
  by (induction ns rule: join_comma.induct) (auto simp: split_comma_append split_comma_single)

lemma splits_at_comma_unique: "splits_at_comma spl \<Longrightarrow> spl = split_comma"
  by (rule ext) (metis splits_at_comma_def split_join)

lemma emitted_enc_names_loop:
  "failure (enc_names_loop ns) = None \<and> emitted (enc_names_loop ns) = str_bytes (join_comma ns)"
  by (induction ns rule: enc_names_loop.induct)
     (auto simp: failure_seq emitted_seq str_bytes_append enc_u8_def str_bytes_def byte_of_char_def)

lemma length_join_comma: "length (join_comma ns) = sum_list (map length ns) + (length ns - 1)"
  by (induction ns rule: join_comma.induct) auto

lemma enc_local_names_eq [wire]:
  "failure (enc_local_names ns) = None"
  "emitted (enc_local_names ns) = emitted (enc_ascii_str (join_comma ns))"
  by (simp_all add: enc_local_names_def Let_def failure_seq emitted_seq emitted_enc_names_loop
      length_join_comma)

lemma failure_enc_name_list [wire, simp]: "failure (enc_name_list l) = None"
  by (cases l) (simp_all add: enc_local_names_eq)

lemma consuming_name_list [consuming_intros]: "consuming dec_name_list"
  unfolding dec_name_list_def by (intro consuming_intros)

text \<open>What a list becomes on the other side.\<close>

fun sent_names :: "name_list \<Rightarrow> string" where
  "sent_names (StringNames s) = s"
| "sent_names (LocalNames l) = join_comma l"

definition name_list_ok :: "name_list \<Rightarrow> bool" where
  "name_list_ok l \<longleftrightarrow> is_name (sent_names l) \<and> len_ok (sent_names l)"

lemma dec_name_list_sent:
  "name_list_ok l \<Longrightarrow>
     dec_name_list (src (emitted (enc_name_list l) @ r) c) = Inr (StringNames (sent_names l), src r c)"
  by (cases l) (simp_all add: name_list_ok_def dec_name_list_def dec_bind_def dec_ascii_str_eq dec_str
      dec_return_def enc_local_names_eq)

interpretation name_list_codec: codec enc_name_list dec_name_list
  "\<lambda>_ l. name_list_ok l \<and> l = StringNames (sent_names l)"
proof unfold_locales
  fix c :: parse_context and l rest
  assume "name_list_ok l \<and> l = StringNames (sent_names l)"
  then show "dec_name_list (src (emitted (enc_name_list l) @ rest) c) = Inr (l, src rest c)"
    using dec_name_list_sent [of l rest c] by simp
qed simp

subsection \<open>Negotiation by preference\<close>

lemma find_first_find: "find_first xs (\<lambda>x. if P x then Some x else None) = find P xs"
  by (induction xs) auto

lemma find_first_self: "find_first xs (\<lambda>x. if n = x then Some x else None) = (if n \<in> set xs then Some n else None)"
  by (induction xs) auto

lemma find_first_const:
  "find_first xs (\<lambda>n. if n = x then Some x else None) = (if x \<in> set xs then Some x else None)"
  by (induction xs) auto

lemma first_string_match_eq: "first_string_match spl s options = find (\<lambda>n. n \<in> set options) (spl s)"
  by (simp add: first_string_match_def find_first_self find_first_find)

lemma first_options_match_eq: "first_options_match spl s options = find (\<lambda>n. n \<in> set (spl s)) options"
  by (simp add: first_options_match_def find_first_const find_first_find)

text \<open>
  The two ends agree: what the client picks from the list the server sent is what the server picks
  from the list the client sent, namely the client's first name that the server has.
\<close>

lemma first_match_agrees:
  assumes "splits_at_comma spl" "cli \<noteq> []" "srv \<noteq> []"
    and "\<forall>n \<in> set cli \<union> set srv. CHR '','' \<notin> set n"
  shows "first_match spl (StringNames (sent_names (LocalNames srv))) True cli
       = first_match spl (StringNames (sent_names (LocalNames cli))) False srv"
  using assms splits_at_comma_unique [OF assms(1)]
  by (simp add: first_string_match_eq first_options_match_eq split_join)

end
