(* ===== verification/SSH_Crypto.thy ===== *)
theory SSH_Crypto
  imports SSH_Names
begin

section \<open>The packages the program uses\<close>

text \<open>
  The cryptographic primitives come from packages outside the repository, so they are a parameter of
  the model: a record of functions, with the function that splits an ASCII string at its commas. A stream cipher is the function from the key, the nonce and a
  position to the keystream byte there, with \<open>apply_keystream\<close> the exclusive or that the packages
  document. \<open>getrandom\<close> gives the answer of the operating system to the \<open>n\<close>-th request for
  \<open>len\<close> random bytes, or \<^term>\<open>None\<close> when it fails.

  What the code relies on is \<open>crypto_ok\<close>, \<open>kex_crypto_ok\<close> and \<open>sign_crypto_ok\<close>: the output
  sizes that the packages document, that the two sides of a key exchange get the same secret, and that
  a signature verifies. No secrecy or unforgeability is assumed anywhere.
\<close>

record crypto =
  chacha20 :: "bytes \<Rightarrow> bytes \<Rightarrow> nat \<Rightarrow> u8"
  poly1305 :: "bytes \<Rightarrow> bytes \<Rightarrow> bytes"
  aes256_ctr :: "bytes \<Rightarrow> bytes \<Rightarrow> nat \<Rightarrow> u8"
  hmac_sha256 :: "bytes \<Rightarrow> bytes \<Rightarrow> bytes"
  sha256 :: "bytes \<Rightarrow> bytes"
  getrandom :: "nat \<Rightarrow> nat \<Rightarrow> bytes option"
  x25519_public :: "bytes \<Rightarrow> bytes"
  x25519_diffie_hellman :: "bytes \<Rightarrow> bytes \<Rightarrow> bytes"
  mlkem_encapsulation_key :: "bytes \<Rightarrow> bytes"
  mlkem_key_valid :: "bytes \<Rightarrow> bool"
  mlkem_encapsulate :: "bytes \<Rightarrow> bytes \<Rightarrow> bytes \<times> bytes"
  mlkem_decapsulate :: "bytes \<Rightarrow> bytes \<Rightarrow> bytes"
  ed25519_verifying_key :: "bytes \<Rightarrow> bytes"
  ed25519_key_valid :: "bytes \<Rightarrow> bool"
  ed25519_sign :: "bytes \<Rightarrow> bytes \<Rightarrow> bytes"
  ed25519_verify :: "bytes \<Rightarrow> bytes \<Rightarrow> bytes \<Rightarrow> bool"
  ascii_split :: splitter

definition crypto_ok :: "crypto \<Rightarrow> bool" where
  "crypto_ok cr \<longleftrightarrow>
     (\<forall>k m. length (poly1305 cr k m) = 16) \<and> (\<forall>k m. length (hmac_sha256 cr k m) = 32)
     \<and> (\<forall>m. length (sha256 cr m) = 32)
     \<and> (\<forall>n len r. getrandom cr n len = Some r \<longrightarrow> length r = len)"

text \<open>
  The sizes of the public key packages, that both sides of an exchange get the same secret, and that names
  are split at the commas.
\<close>

definition kex_crypto_ok :: "crypto \<Rightarrow> bool" where
  "kex_crypto_ok cr \<longleftrightarrow>
     (\<forall>a. length (x25519_public cr a) = 32)
     \<and> (\<forall>a b. x25519_diffie_hellman cr a (x25519_public cr b) = x25519_diffie_hellman cr b (x25519_public cr a))
     \<and> (\<forall>seed. length (mlkem_encapsulation_key cr seed) = 1184 \<and> mlkem_key_valid cr (mlkem_encapsulation_key cr seed))
     \<and> (\<forall>ek m. length (fst (mlkem_encapsulate cr ek m)) = 1088)
     \<and> (\<forall>seed m. case mlkem_encapsulate cr (mlkem_encapsulation_key cr seed) m of
          (ct, ss) \<Rightarrow> mlkem_decapsulate cr seed ct = ss)
     \<and> splits_at_comma (ascii_split cr)"

text \<open>A signature verifies with the public half of the key that made it.\<close>

definition sign_crypto_ok :: "crypto \<Rightarrow> bool" where
  "sign_crypto_ok cr \<longleftrightarrow>
     (\<forall>k. length (ed25519_verifying_key cr k) = 32 \<and> ed25519_key_valid cr (ed25519_verifying_key cr k))
     \<and> (\<forall>k m. length (ed25519_sign cr k m) = 64
          \<and> ed25519_verify cr (ed25519_verifying_key cr k) m (ed25519_sign cr k m))"

text \<open>A concrete instance, for evaluating the model. It is not meant to be secure.\<close>

definition sum_bytes :: "bytes \<Rightarrow> u8" where
  "sum_bytes b = fold (+) b 0"

definition toy_crypto :: crypto where
  "toy_crypto =
     \<lparr>chacha20 = (\<lambda>k n pos. sum_bytes k + 3 * sum_bytes n + word_of_nat pos),
      poly1305 = (\<lambda>k m. replicate 16 (sum_bytes k + sum_bytes m)),
      aes256_ctr = (\<lambda>k n pos. sum_bytes k + 5 * sum_bytes n + word_of_nat pos),
      hmac_sha256 = (\<lambda>k m. replicate 32 (sum_bytes k + sum_bytes m)),
      sha256 = (\<lambda>m. replicate 32 (sum_bytes m)),
      getrandom = (\<lambda>n len. Some (replicate len (word_of_nat n))),
      x25519_public = (\<lambda>k. replicate 32 (sum_bytes k)),
      x25519_diffie_hellman = (\<lambda>k p. replicate 32 (sum_bytes k + hd p)),
      mlkem_encapsulation_key = (\<lambda>seed. replicate 1184 (sum_bytes seed)),
      mlkem_key_valid = (\<lambda>ek. length ek = 1184),
      mlkem_encapsulate = (\<lambda>ek m. (replicate 1088 (sum_bytes m), replicate 32 (hd ek + sum_bytes m))),
      mlkem_decapsulate = (\<lambda>seed ct. replicate 32 (sum_bytes seed + hd ct)),
      ed25519_verifying_key = (\<lambda>k. replicate 32 (sum_bytes k)),
      ed25519_key_valid = (\<lambda>p. length p = 32),
      ed25519_sign = (\<lambda>k m. replicate 64 (sum_bytes k + sum_bytes m)),
      ed25519_verify = (\<lambda>p m sg. sg = replicate 64 (hd p + sum_bytes m)),
      ascii_split = split_comma\<rparr>"

lemma toy_crypto_ok: "crypto_ok toy_crypto" "kex_crypto_ok toy_crypto" "sign_crypto_ok toy_crypto"
  by (simp_all add: crypto_ok_def kex_crypto_ok_def sign_crypto_ok_def toy_crypto_def hd_replicate add.commute
      splits_at_comma_split_comma)

subsection \<open>Keystreams\<close>

primrec apply_keystream :: "(nat \<Rightarrow> u8) \<Rightarrow> nat \<Rightarrow> bytes \<Rightarrow> bytes" where
  "apply_keystream ks pos [] = []"
| "apply_keystream ks pos (b # bs) = (b XOR ks pos) # apply_keystream ks (pos + 1) bs"

lemma length_apply_keystream [simp]: "length (apply_keystream ks pos bs) = length bs"
  by (induction bs arbitrary: pos) auto

lemma apply_keystream_twice [simp]: "apply_keystream ks pos (apply_keystream ks pos bs) = bs"
  by (induction bs arbitrary: pos) (auto simp: xor.assoc)

lemma apply_keystream_append:
  "apply_keystream ks pos (xs @ ys) = apply_keystream ks pos xs @ apply_keystream ks (pos + length xs) ys"
  by (induction xs arbitrary: pos) auto

lemma take_apply_keystream: "take n (apply_keystream ks pos bs) = apply_keystream ks pos (take n bs)"
proof (induction n arbitrary: bs pos)
  case (Suc n)
  then show ?case by (cases bs) auto
qed simp

lemma drop_apply_keystream:
  "drop n (apply_keystream ks pos bs) = apply_keystream ks (pos + n) (drop n bs)"
proof (induction n arbitrary: bs pos)
  case (Suc n)
  then show ?case by (cases bs) auto
qed simp

subsection \<open>\<open>chacha20-poly1305@openssh.com\<close>\<close>

text \<open>\<open>src/src/ssh_chapoly.rs\<close>: the cipher as the repository builds it from the primitives.\<close>

record cha_poly =
  k1 :: bytes
  k2 :: bytes

definition CHAPOLY_TAG_LEN :: nat where "CHAPOLY_TAG_LEN = 16"
definition CHAPOLY_KEY_LEN :: nat where "CHAPOLY_KEY_LEN = 64"
definition SSH_LENGTH_SIZE :: nat where "SSH_LENGTH_SIZE = 4"

definition chapoly_new_from_slice :: "bytes \<Rightarrow> cha_poly ssh_result" where
  "chapoly_new_from_slice key =
     (if length key \<noteq> CHAPOLY_KEY_LEN then Inl BadKey
      else Inr \<lparr>k1 = take 32 (drop 32 key), k2 = take 32 key\<rparr>)"

definition cha20 :: "crypto \<Rightarrow> bytes \<Rightarrow> u32 \<Rightarrow> nat \<Rightarrow> u8" where
  "cha20 cr key sq = chacha20 cr key (replicate 8 0 @ be32 sq)"

definition chapoly_packet_length :: "crypto \<Rightarrow> cha_poly \<Rightarrow> u32 \<Rightarrow> bytes \<Rightarrow> u32 ssh_result" where
  "chapoly_packet_length cr k sq buf =
     (if length buf < SSH_LENGTH_SIZE then Inl BadDecrypt
      else Inr (of_be32 (apply_keystream (cha20 cr (k1 k) sq) 0 (take SSH_LENGTH_SIZE buf))))"

text \<open>The one-time Poly1305 key: the keystream over 32 zero bytes.\<close>

definition chapoly_poly_key :: "crypto \<Rightarrow> cha_poly \<Rightarrow> u32 \<Rightarrow> bytes" where
  "chapoly_poly_key cr k sq = apply_keystream (cha20 cr (k2 k) sq) 0 (replicate 32 0)"

definition chapoly_decrypt :: "crypto \<Rightarrow> cha_poly \<Rightarrow> u32 \<Rightarrow> bytes \<Rightarrow> bytes \<Rightarrow> bytes ssh_result" where
  "chapoly_decrypt cr k sq msg mac =
     (if length msg < SSH_LENGTH_SIZE then Inl BadDecrypt
      else if length mac \<noteq> CHAPOLY_TAG_LEN then Inl BadDecrypt
      else if poly1305 cr (chapoly_poly_key cr k sq) msg \<noteq> mac then Inl BadDecrypt
      else Inr (take SSH_LENGTH_SIZE msg
                @ apply_keystream (cha20 cr (k2 k) sq) 64 (drop SSH_LENGTH_SIZE msg)))"

definition chapoly_encrypt ::
  "crypto \<Rightarrow> cha_poly \<Rightarrow> u32 \<Rightarrow> bytes \<Rightarrow> bytes \<Rightarrow> (bytes \<times> bytes) ssh_result" where
  "chapoly_encrypt cr k sq msg mac =
     (if length msg < SSH_LENGTH_SIZE then Inl BadDecrypt
      else if length mac \<noteq> CHAPOLY_TAG_LEN then Inl BadDecrypt
      else
        let l = (word_of_nat (length msg - SSH_LENGTH_SIZE) :: u32);
            msg_len = apply_keystream (cha20 cr (k1 k) sq) 0 (be32 l);
            payload = apply_keystream (cha20 cr (k2 k) sq) 64 (drop SSH_LENGTH_SIZE msg);
            msg' = msg_len @ payload
        in Inr (msg', poly1305 cr (chapoly_poly_key cr k sq) msg'))"

lemma chapoly_length:
  "length msg \<ge> 4 \<Longrightarrow> chapoly_encrypt cr k sq msg mac = Inr (msg', mac') \<Longrightarrow>
     length msg' = length msg"
  by (auto simp: chapoly_encrypt_def Let_def SSH_LENGTH_SIZE_def split: if_splits)

lemma chapoly_packet_length_encrypt:
  assumes "chapoly_encrypt cr k sq msg mac = Inr (msg', mac')"
  shows "chapoly_packet_length cr k sq (msg' @ r) = Inr (word_of_nat (length msg - 4))"
  using assms
  by (auto simp: chapoly_packet_length_def chapoly_encrypt_def Let_def SSH_LENGTH_SIZE_def split: if_splits)

lemma chapoly_decrypt_encrypt:
  assumes "crypto_ok cr" "chapoly_encrypt cr k sq msg mac = Inr (msg', mac')"
  shows "\<exists>h. length h = 4 \<and> chapoly_decrypt cr k sq msg' mac' = Inr (h @ drop 4 msg)"
  using assms
  by (auto simp: chapoly_decrypt_def chapoly_encrypt_def Let_def SSH_LENGTH_SIZE_def CHAPOLY_TAG_LEN_def
      crypto_ok_def split: if_splits)

end
