(* ===== verification/SSH_Encrypt.thy ===== *)
theory SSH_Encrypt
  imports SSH_Crypto
begin

section \<open>Packet framing and encryption\<close>

text \<open>
  \<open>src/src/encrypt.rs\<close>: the keys of the two directions (\<open>KeysSend\<close>, \<open>KeysRecv\<close>), the framing of a
  payload with length, padding and MAC, and \<open>KeyState\<close> with the sequence numbers and the rekey
  counters.

  The functions work in place on a buffer, so they return the buffer afterwards and the new key state
  (the position of a stream cipher moves) with the result. \<open>rng_calls\<close> counts the requests to the
  random number generator. The keystream of AES-CTR is taken as unbounded.
\<close>

definition SSH_MIN_PADLEN :: nat where "SSH_MIN_PADLEN = 4"
definition SSH_MIN_BLOCK :: nat where "SSH_MIN_BLOCK = 8"
definition SSH_PAYLOAD_START :: nat where "SSH_PAYLOAD_START = SSH_LENGTH_SIZE + 1"
definition REKEY_BLOCKS_OUT_LIMIT :: u32 where "REKEY_BLOCKS_OUT_LIMIT = 0x80000000"
definition REKEY_BLOCKS_IN_LIMIT :: u32 where "REKEY_BLOCKS_IN_LIMIT = 0x81000000"
definition REKEY_BLOCK_SIZE :: nat where "REKEY_BLOCK_SIZE = 16"

lemmas framing_consts = SSH_MIN_PADLEN_def SSH_MIN_BLOCK_def SSH_PAYLOAD_START_def SSH_LENGTH_SIZE_def

subsection \<open>Ciphers and MACs\<close>

datatype cipher = ChaPoly | Aes256Ctr

definition cipher_from_name :: "string \<Rightarrow> cipher ssh_result" where
  "cipher_from_name name =
     (if name = SSH_NAME_CHAPOLY then Inr ChaPoly
      else if name = SSH_NAME_AES256_CTR then Inr Aes256Ctr else Inl Bug)"

fun cipher_key_len :: "cipher \<Rightarrow> nat" where
  "cipher_key_len ChaPoly = CHAPOLY_KEY_LEN"
| "cipher_key_len Aes256Ctr = 32"

fun cipher_iv_len :: "cipher \<Rightarrow> nat" where
  "cipher_iv_len ChaPoly = 0"
| "cipher_iv_len Aes256Ctr = 16"

datatype integ = IntegChaPoly | IntegHmacSha256

fun cipher_integ :: "cipher \<Rightarrow> integ option" where
  "cipher_integ ChaPoly = Some IntegChaPoly"
| "cipher_integ Aes256Ctr = None"

definition integ_from_name :: "string \<Rightarrow> integ ssh_result" where
  "integ_from_name name = (if name = SSH_NAME_HMAC_SHA256 then Inr IntegHmacSha256 else Inl Bug)"

fun integ_key_len :: "integ \<Rightarrow> nat" where
  "integ_key_len IntegChaPoly = 0"
| "integ_key_len IntegHmacSha256 = 32"

text \<open>\<open>Aes256Ctr32BE\<close>: the key, the IV and the position in the keystream.\<close>

record aes_ctr =
  aes_key :: bytes
  aes_iv :: bytes
  aes_pos :: nat

definition aes_new_from_slices :: "bytes \<Rightarrow> bytes \<Rightarrow> aes_ctr ssh_result" where
  "aes_new_from_slices key iv =
     (if length key = 32 \<and> length iv = 16 then Inr \<lparr>aes_key = key, aes_iv = iv, aes_pos = 0\<rparr>
      else Inl BadKey)"

definition aes_apply :: "crypto \<Rightarrow> aes_ctr \<Rightarrow> bytes \<Rightarrow> aes_ctr \<times> bytes" where
  "aes_apply cr a b =
     (a\<lparr>aes_pos := aes_pos a + length b\<rparr>,
      apply_keystream (aes256_ctr cr (aes_key a) (aes_iv a)) (aes_pos a) b)"

datatype enc_key = EncChaPoly cha_poly | EncAes256Ctr aes_ctr | EncNoCipher
datatype dec_key = DecChaPoly cha_poly | DecAes256Ctr aes_ctr | DecNoCipher

fun enc_key_from_cipher :: "cipher \<Rightarrow> bytes \<Rightarrow> bytes \<Rightarrow> enc_key ssh_result" where
  "enc_key_from_cipher ChaPoly key iv =
     and_then (trap_result (chapoly_new_from_slice key)) (\<lambda>k. Inr (EncChaPoly k))"
| "enc_key_from_cipher Aes256Ctr key iv =
     and_then (trap_result (aes_new_from_slices key iv)) (\<lambda>a. Inr (EncAes256Ctr a))"

fun enc_is_aead :: "enc_key \<Rightarrow> bool" where
  "enc_is_aead (EncChaPoly _) = True"
| "enc_is_aead (EncAes256Ctr _) = False"
| "enc_is_aead EncNoCipher = False"

fun enc_size_block :: "enc_key \<Rightarrow> nat" where
  "enc_size_block (EncChaPoly _) = SSH_MIN_BLOCK"
| "enc_size_block (EncAes256Ctr _) = 16"
| "enc_size_block EncNoCipher = SSH_MIN_BLOCK"

fun dec_key_from_cipher :: "cipher \<Rightarrow> bytes \<Rightarrow> bytes \<Rightarrow> dec_key ssh_result" where
  "dec_key_from_cipher ChaPoly key iv =
     and_then (trap_result (chapoly_new_from_slice key)) (\<lambda>k. Inr (DecChaPoly k))"
| "dec_key_from_cipher Aes256Ctr key iv =
     and_then (trap_result (aes_new_from_slices key iv)) (\<lambda>a. Inr (DecAes256Ctr a))"

fun dec_is_aead :: "dec_key \<Rightarrow> bool" where
  "dec_is_aead (DecChaPoly _) = True"
| "dec_is_aead (DecAes256Ctr _) = False"
| "dec_is_aead DecNoCipher = False"

fun dec_size_block :: "dec_key \<Rightarrow> nat" where
  "dec_size_block (DecChaPoly _) = SSH_MIN_BLOCK"
| "dec_size_block (DecAes256Ctr _) = 16"
| "dec_size_block DecNoCipher = SSH_MIN_BLOCK"

datatype integ_key = IntegKeyChaPoly | IntegKeyHmacSha256 bytes | NoInteg

fun integ_key_from_integ :: "integ \<Rightarrow> bytes \<Rightarrow> integ_key ssh_result" where
  "integ_key_from_integ IntegChaPoly key = Inr IntegKeyChaPoly"
| "integ_key_from_integ IntegHmacSha256 key =
     (if length key = 32 then Inr (IntegKeyHmacSha256 key) else Inl Bug)"

fun integ_size_out :: "integ_key \<Rightarrow> nat" where
  "integ_size_out IntegKeyChaPoly = CHAPOLY_TAG_LEN"
| "integ_size_out (IntegKeyHmacSha256 _) = 32"
| "integ_size_out NoInteg = 0"

subsection \<open>Sending\<close>

record keys_send =
  s_cipher :: enc_key
  s_integ :: integ_key

definition keys_send_new_cleartext :: keys_send where
  "keys_send_new_cleartext = \<lparr>s_cipher = EncNoCipher, s_integ = NoInteg\<rparr>"

definition calc_encrypt_pad :: "keys_send \<Rightarrow> nat \<Rightarrow> nat" where
  "calc_encrypt_pad ks payload_len =
     (let size_block = enc_size_block (s_cipher ks);
          len = 1 + payload_len + (if enc_is_aead (s_cipher ks) then 0 else SSH_LENGTH_SIZE);
          padlen = size_block - len mod size_block
      in if padlen < SSH_MIN_PADLEN then padlen + size_block else padlen)"

definition keys_send_max_enc_payload :: "keys_send \<Rightarrow> nat \<Rightarrow> nat" where
  "keys_send_max_enc_payload ks avail =
     (let total_avail = avail - integ_size_out (s_integ ks);
          overhead = SSH_LENGTH_SIZE + 1 + SSH_MIN_PADLEN;
          enc_len = (if enc_is_aead (s_cipher ks) then total_avail - SSH_LENGTH_SIZE else total_avail);
          extra_block = enc_len mod enc_size_block (s_cipher ks);
          space = (if extra_block \<noteq> 0 then total_avail - extra_block else total_avail)
      in space - overhead)"

text \<open>The MAC over the sequence number and the cleartext packet.\<close>

fun integ_mac :: "crypto \<Rightarrow> integ_key \<Rightarrow> u32 \<Rightarrow> bytes \<Rightarrow> bytes \<Rightarrow> bytes" where
  "integ_mac cr (IntegKeyHmacSha256 k) sq enc mac = hmac_sha256 cr k (be32 sq @ enc)"
| "integ_mac cr _ sq enc mac = mac"

fun enc_key_encrypt ::
  "crypto \<Rightarrow> enc_key \<Rightarrow> u32 \<Rightarrow> bytes \<Rightarrow> bytes \<Rightarrow> (enc_key \<times> bytes \<times> bytes) ssh_result" where
  "enc_key_encrypt cr (EncChaPoly k) sq enc mac =
     and_then (trap_result (chapoly_encrypt cr k sq enc mac))
       (\<lambda>(enc', mac'). Inr (EncChaPoly k, enc', mac'))"
| "enc_key_encrypt cr (EncAes256Ctr a) sq enc mac =
     (let (a', enc') = aes_apply cr a enc in Inr (EncAes256Ctr a', enc', mac))"
| "enc_key_encrypt cr EncNoCipher sq enc mac = Inr (EncNoCipher, enc, mac)"

definition fill_random :: "crypto \<Rightarrow> nat \<Rightarrow> nat \<Rightarrow> bytes ssh_result" where
  "fill_random cr calls len = ok_or (Custom ''RNG failed'') (getrandom cr calls len)"

text \<open>
  \<open>KeysSend::encrypt\<close>: the result, the keys, the count of random requests and the buffer afterwards.
\<close>

definition keys_send_encrypt ::
  "crypto \<Rightarrow> nat \<Rightarrow> bytes \<Rightarrow> u32 \<Rightarrow> nat \<Rightarrow> keys_send \<Rightarrow> nat ssh_result \<times> keys_send \<times> nat \<times> bytes" where
  "keys_send_encrypt cr payload_len buf sq calls ks =
     (let size_integ = integ_size_out (s_integ ks);
          padlen = calc_encrypt_pad ks payload_len;
          len = SSH_LENGTH_SIZE + 1 + payload_len + padlen
      in
      if len + size_integ > length buf then (Inl NoRoom, ks, calls, buf)
      else
        let blen = be32 (word_of_nat (len - SSH_LENGTH_SIZE));
            buf1 = overwrite buf 0 (blen @ [word_of_nat padlen]);
            pad_start = SSH_LENGTH_SIZE + 1 + payload_len
        in
        case fill_random cr calls padlen of
          Inl e \<Rightarrow> (Inl e, ks, calls + 1, buf1)
        | Inr pad \<Rightarrow>
            let buf2 = overwrite buf1 pad_start pad;
                enc = take len buf2;
                mac = integ_mac cr (s_integ ks) sq enc (take size_integ (drop len buf2));
                rest = drop (len + size_integ) buf2
            in
            case enc_key_encrypt cr (s_cipher ks) sq enc mac of
              Inl e \<Rightarrow> (Inl e, ks, calls + 1, enc @ mac @ rest)
            | Inr (k', enc', mac') \<Rightarrow>
                (Inr (len + size_integ), ks\<lparr>s_cipher := k'\<rparr>, calls + 1, enc' @ mac' @ rest))"

subsection \<open>Receiving\<close>

record keys_recv =
  r_cipher :: dec_key
  r_integ :: integ_key

definition keys_recv_new_cleartext :: keys_recv where
  "keys_recv_new_cleartext = \<lparr>r_cipher = DecNoCipher, r_integ = NoInteg\<rparr>"

fun dec_key_first_block :: "crypto \<Rightarrow> dec_key \<Rightarrow> u32 \<Rightarrow> bytes \<Rightarrow> (u32 \<times> dec_key \<times> bytes) ssh_result" where
  "dec_key_first_block cr (DecChaPoly k) sq buf =
     and_then (trap_result (chapoly_packet_length cr k sq buf)) (\<lambda>len. Inr (len, DecChaPoly k, buf))"
| "dec_key_first_block cr (DecAes256Ctr a) sq buf =
     (let (a', first) = aes_apply cr a (take 16 buf); buf' = first @ drop 16 buf
      in Inr (of_be32 (take SSH_LENGTH_SIZE buf'), DecAes256Ctr a', buf'))"
| "dec_key_first_block cr DecNoCipher sq buf = Inr (of_be32 (take SSH_LENGTH_SIZE buf), DecNoCipher, buf)"

text \<open>The length of the whole packet with its MAC, from the first block.\<close>

definition keys_recv_decrypt_first_block ::
  "crypto \<Rightarrow> bytes \<Rightarrow> u32 \<Rightarrow> keys_recv \<Rightarrow> nat ssh_result \<times> keys_recv \<times> bytes" where
  "keys_recv_decrypt_first_block cr buf sq ks =
     (if length buf < dec_size_block (r_cipher ks) then (Inl Bug, ks, buf)
      else
        case dec_key_first_block cr (r_cipher ks) sq buf of
          Inl e \<Rightarrow> (Inl e, ks, buf)
        | Inr (len, k', buf') \<Rightarrow>
            ((let add = SSH_LENGTH_SIZE + integ_size_out (r_integ ks) in
              if unat len + add > u32_max then Inl BadDecrypt else Inr (unat len + add)),
             ks\<lparr>r_cipher := k'\<rparr>, buf'))"

fun dec_key_decrypt :: "crypto \<Rightarrow> dec_key \<Rightarrow> u32 \<Rightarrow> bytes \<Rightarrow> bytes \<Rightarrow> (dec_key \<times> bytes) ssh_result" where
  "dec_key_decrypt cr (DecChaPoly k) sq dat mac =
     and_then (map_err (\<lambda>_. BadDecrypt) (chapoly_decrypt cr k sq dat mac))
       (\<lambda>dat'. Inr (DecChaPoly k, dat'))"
| "dec_key_decrypt cr (DecAes256Ctr a) sq dat mac =
     and_then (panic_option (slice dat 16 (length dat))) (\<lambda>rest.
       let (a', rest') = aes_apply cr a rest in Inr (DecAes256Ctr a', take 16 dat @ rest'))"
| "dec_key_decrypt cr DecNoCipher sq dat mac = Inr (DecNoCipher, dat)"

fun integ_verify :: "crypto \<Rightarrow> integ_key \<Rightarrow> u32 \<Rightarrow> bytes \<Rightarrow> bytes \<Rightarrow> unit ssh_result" where
  "integ_verify cr (IntegKeyHmacSha256 k) sq dat mac =
     (if hmac_sha256 cr k (be32 sq @ dat) = mac then Inr () else Inl BadDecrypt)"
| "integ_verify cr _ sq dat mac = Inr ()"

definition keys_recv_decrypt ::
  "crypto \<Rightarrow> bytes \<Rightarrow> u32 \<Rightarrow> keys_recv \<Rightarrow> nat ssh_result \<times> keys_recv \<times> bytes" where
  "keys_recv_decrypt cr buf sq ks =
     (let size_block = dec_size_block (r_cipher ks);
          size_integ = integ_size_out (r_integ ks)
      in
      if length buf < size_block + size_integ then (Inl SSHProto, ks, buf)
      else
        let sublength = (if dec_is_aead (r_cipher ks) then SSH_LENGTH_SIZE else 0);
            len = length buf - size_integ - sublength
        in
        if len mod size_block \<noteq> 0 then (Inl SSHProto, ks, buf)
        else
          let dat = take (length buf - size_integ) buf; mac = drop (length buf - size_integ) buf in
          case dec_key_decrypt cr (r_cipher ks) sq dat mac of
            Inl e \<Rightarrow> (Inl e, ks, buf)
          | Inr (k', dat') \<Rightarrow>
              (and_then (integ_verify cr (r_integ ks) sq dat' mac) (\<lambda>_.
               and_then (panic_option (slice dat' SSH_LENGTH_SIZE (SSH_LENGTH_SIZE + 1))) (\<lambda>pl.
                 let padlen = unat (hd pl) in
                 if padlen < SSH_MIN_PADLEN then Inl SSHProto
                 else if SSH_LENGTH_SIZE + 1 + size_integ + padlen > length buf then Inl SSHProto
                 else Inr (length buf - (SSH_LENGTH_SIZE + 1 + size_integ + padlen)))),
               ks\<lparr>r_cipher := k'\<rparr>, dat' @ mac))"

subsection \<open>Key state\<close>

record key_state =
  ks_enc :: keys_send
  ks_dec :: keys_recv
  seq_encrypt :: u32
  seq_decrypt :: u32
  strict_kex :: bool
  rekey_blocks_out :: u32
  rekey_blocks_in :: u32
  rng_calls :: nat

definition key_state_new_cleartext :: key_state where
  "key_state_new_cleartext =
     \<lparr>ks_enc = keys_send_new_cleartext, ks_dec = keys_recv_new_cleartext, seq_encrypt = 0,
      seq_decrypt = 0, strict_kex = False, rekey_blocks_out = 0, rekey_blocks_in = 0, rng_calls = 0\<rparr>"

definition is_send_cleartext :: "key_state \<Rightarrow> bool" where
  "is_send_cleartext keys = (s_cipher (ks_enc keys) = EncNoCipher)"

definition is_rekey_needed :: "key_state \<Rightarrow> bool" where
  "is_rekey_needed keys \<longleftrightarrow> rekey_blocks_in keys > REKEY_BLOCKS_IN_LIMIT
     \<or> rekey_blocks_out keys > REKEY_BLOCKS_OUT_LIMIT"

definition enable_strict_kex :: "key_state \<Rightarrow> key_state" where
  "enable_strict_kex keys = keys\<lparr>strict_kex := True\<rparr>"

definition rekey_send :: "keys_send \<Rightarrow> key_state \<Rightarrow> key_state" where
  "rekey_send ks keys =
     keys\<lparr>ks_enc := ks, seq_encrypt := (if strict_kex keys then 0 else seq_encrypt keys),
          rekey_blocks_out := 0\<rparr>"

definition rekey_recv :: "keys_recv \<Rightarrow> key_state \<Rightarrow> key_state" where
  "rekey_recv ks keys =
     keys\<lparr>ks_dec := ks, seq_decrypt := (if strict_kex keys then 0 else seq_decrypt keys),
          rekey_blocks_in := 0\<rparr>"

definition recv_seq :: "key_state \<Rightarrow> u32" where
  "recv_seq keys = seq_decrypt keys"

definition decrypt_first_block :: "crypto \<Rightarrow> bytes \<Rightarrow> key_state \<Rightarrow> nat ssh_result \<times> key_state \<times> bytes" where
  "decrypt_first_block cr buf keys =
     (let (r, d, buf') = keys_recv_decrypt_first_block cr buf (seq_decrypt keys) (ks_dec keys)
      in (r, keys\<lparr>ks_dec := d\<rparr>, buf'))"

definition decrypt :: "crypto \<Rightarrow> bytes \<Rightarrow> key_state \<Rightarrow> nat ssh_result \<times> key_state \<times> bytes" where
  "decrypt cr buf keys =
     (let (e, d, buf') = keys_recv_decrypt cr buf (seq_decrypt keys) (ks_dec keys);
          keys = keys\<lparr>ks_dec := d, seq_decrypt := seq_decrypt keys + 1\<rparr>
      in (e,
          (case e of
             Inr payload_len \<Rightarrow> keys\<lparr>rekey_blocks_in := u32_sat_add (rekey_blocks_in keys)
                                   (word_of_nat (div_ceil payload_len REKEY_BLOCK_SIZE))\<rparr>
           | Inl _ \<Rightarrow> keys), buf'))"

definition encrypt :: "crypto \<Rightarrow> nat \<Rightarrow> bytes \<Rightarrow> key_state \<Rightarrow> nat ssh_result \<times> key_state \<times> bytes" where
  "encrypt cr payload_len buf keys =
     (let (e, k, calls, buf') =
            keys_send_encrypt cr payload_len buf (seq_encrypt keys) (rng_calls keys) (ks_enc keys);
          keys = keys\<lparr>ks_enc := k, rng_calls := calls\<rparr>
      in (e,
          (if e \<noteq> Inl NoRoom then
             keys\<lparr>seq_encrypt := seq_encrypt keys + 1,
                  rekey_blocks_out := u32_sat_add (rekey_blocks_out keys)
                    (word_of_nat (div_ceil (length buf) REKEY_BLOCK_SIZE))\<rparr>
           else keys), buf'))"

definition size_block_dec :: "key_state \<Rightarrow> nat" where
  "size_block_dec keys = dec_size_block (r_cipher (ks_dec keys))"

definition max_enc_payload :: "nat \<Rightarrow> key_state \<Rightarrow> nat" where
  "max_enc_payload total_avail keys = keys_send_max_enc_payload (ks_enc keys) total_avail"


subsection \<open>Padding\<close>

lemma enc_size_block_cases: "enc_size_block k = 8 \<or> enc_size_block k = 16"
  by (cases k) (simp_all add: SSH_MIN_BLOCK_def)

text \<open>The padding makes the length the least multiple of the block with four bytes to spare.\<close>

definition least_pad :: "nat \<Rightarrow> nat \<Rightarrow> nat" where
  "least_pad b len = (if b - len mod b < 4 then b - len mod b + b else b - len mod b)"

lemma least_pad:
  assumes "4 \<le> b"
  shows "b dvd len + least_pad b len" "4 \<le> least_pad b len" "least_pad b len < b + 4"
proof -
  have m: "len mod b < b"
    using assms by simp
  have "len + (b - len mod b) = len div b * b + b"
    using m div_mult_mod_eq [of len b] by linarith
  then have dq: "b dvd len + (b - len mod b)" by simp
  show "b dvd len + least_pad b len"
    using dq dvd_add [OF dq dvd_refl] by (auto simp: least_pad_def add.assoc)
  define r where "r = len mod b"
  show "4 \<le> least_pad b len" "least_pad b len < b + 4"
    using assms m unfolding least_pad_def r_def [symmetric] by auto
qed

lemma calc_encrypt_pad_eq:
  "calc_encrypt_pad ks n =
     least_pad (enc_size_block (s_cipher ks)) (1 + n + (if enc_is_aead (s_cipher ks) then 0 else 4))"
  by (simp add: calc_encrypt_pad_def least_pad_def Let_def framing_consts)

abbreviation (input) frame_len :: "keys_send \<Rightarrow> nat \<Rightarrow> nat" where
  "frame_len ks payload_len \<equiv> 5 + payload_len + calc_encrypt_pad ks payload_len"

lemma calc_encrypt_pad:
  fixes ks :: keys_send
  defines "b \<equiv> enc_size_block (s_cipher ks)"
  shows "4 \<le> calc_encrypt_pad ks n" "calc_encrypt_pad ks n < b + 4"
    and "b dvd frame_len ks n - (if enc_is_aead (s_cipher ks) then 4 else 0)"
proof -
  have b: "4 \<le> b"
    using enc_size_block_cases [of "s_cipher ks"] by (auto simp: b_def)
  show "4 \<le> calc_encrypt_pad ks n" "calc_encrypt_pad ks n < b + 4"
    using least_pad(2,3) [OF b] by (simp_all add: calc_encrypt_pad_eq b_def)
  show "b dvd frame_len ks n - (if enc_is_aead (s_cipher ks) then 4 else 0)"
    using least_pad(1) [OF b, of "1 + n + (if enc_is_aead (s_cipher ks) then 0 else 4)"]
    unfolding calc_encrypt_pad_eq b_def by (auto simp: algebra_simps)
qed

lemma calc_encrypt_pad_u8: "unat (word_of_nat (calc_encrypt_pad ks n) :: u8) = calc_encrypt_pad ks n"
  using calc_encrypt_pad(2) [of ks n] enc_size_block_cases [of "s_cipher ks"]
  by (auto simp: unat_of_nat take_bit_nat_eq_self)

lemma frame_len_block: "enc_size_block (s_cipher ks) \<le> frame_len ks n"
  using dvd_imp_le [OF calc_encrypt_pad(3) [of ks n]]
  by (cases "enc_is_aead (s_cipher ks)") simp_all

lemma least_multiple_le:
  fixes b n m avail :: nat
  assumes "0 < b" "b dvd m" "n \<le> m" "m < n + b"
  shows "m \<le> avail \<longleftrightarrow> n \<le> avail - avail mod b"
proof -
  obtain j where j: "m = j * b" using assms(2) by (metis dvd_def mult.commute)
  have a: "avail - avail mod b = avail div b * b"
    by (simp add: minus_mod_eq_div_mult)
  have "m \<le> avail \<longleftrightarrow> j \<le> avail div b"
    using assms(1) by (simp add: j less_eq_div_iff_mult_less_eq)
  also have "\<dots> \<longleftrightarrow> n \<le> avail div b * b"
  proof
    assume "j \<le> avail div b"
    then show "n \<le> avail div b * b"
      using assms(3) j by (meson le_trans mult_le_mono1)
  next
    assume "n \<le> avail div b * b"
    with assms(4) have "j * b < Suc (avail div b) * b" using j by simp
    then show "j \<le> avail div b" by (simp only: mult_less_cancel2) simp
  qed
  finally show ?thesis by (simp add: a)
qed

lemma max_payload_exact:
  assumes "0 < n"
  shows "frame_len ks n + integ_size_out (s_integ ks) \<le> avail \<longleftrightarrow> n \<le> keys_send_max_enc_payload ks avail"
proof -
  let ?b = "enc_size_block (s_cipher ks)" and ?i = "integ_size_out (s_integ ks)"
  let ?s = "if enc_is_aead (s_cipher ks) then 4 else (0::nat)"
  note pad = calc_encrypt_pad [where ks = ks and n = n]
  have b: "0 < ?b" using enc_size_block_cases [of "s_cipher ks"] by auto
  have "frame_len ks n - ?s \<le> avail - ?i - ?s
     \<longleftrightarrow> 9 + n - ?s \<le> (avail - ?i - ?s) - (avail - ?i - ?s) mod ?b"
    using pad by (intro least_multiple_le b) (auto split: if_splits)
  moreover have "(avail - ?i - ?s) mod ?b \<le> avail - ?i - ?s" by simp
  ultimately show ?thesis
    using assms pad(1)
    by (auto simp: keys_send_max_enc_payload_def Let_def framing_consts split: if_splits)
qed

subsection \<open>The shape of an encrypted packet\<close>

fun keys_ok :: "enc_key \<Rightarrow> integ_key \<Rightarrow> bool" where
  "keys_ok (EncChaPoly _) i \<longleftrightarrow> i = IntegKeyChaPoly"
| "keys_ok (EncAes256Ctr _) i \<longleftrightarrow> (\<exists>k. i = IntegKeyHmacSha256 k)"
| "keys_ok EncNoCipher i \<longleftrightarrow> i = NoInteg"

definition keys_send_ok :: "keys_send \<Rightarrow> bool" where
  "keys_send_ok ks \<longleftrightarrow> keys_ok (s_cipher ks) (s_integ ks)"

text \<open>The cleartext packet: length, padding length, payload and padding.\<close>

definition frame :: "keys_send \<Rightarrow> bytes \<Rightarrow> bytes \<Rightarrow> bytes" where
  "frame ks payload pad =
     be32 (word_of_nat (1 + length payload + length pad)) @ [word_of_nat (length pad)] @ payload @ pad"

lemma keys_send_encrypt_NoRoom:
  "frame_len ks n + integ_size_out (s_integ ks) > length buf \<Longrightarrow>
     keys_send_encrypt cr n buf sq calls ks = (Inl NoRoom, ks, calls, buf)"
  by (simp add: keys_send_encrypt_def Let_def framing_consts)

lemma enc_key_encrypt_ok:
  assumes "crypto_ok cr" "keys_ok k i" "4 \<le> length enc" "length mac = integ_size_out i"
  shows "\<exists>k' enc' mac'. enc_key_encrypt cr k sq enc mac = Inr (k', enc', mac')
     \<and> keys_ok k' i \<and> length enc' = length enc \<and> length mac' = integ_size_out i"
  using assms
  by (cases k) (auto simp: trap_result_def chapoly_encrypt_def Let_def framing_consts aes_apply_def
      CHAPOLY_TAG_LEN_def crypto_ok_def)

lemma keys_send_encrypt_fits:
  assumes "crypto_ok cr" "keys_send_ok ks" "5 + n \<le> length buf"
    and fits: "frame_len ks n + integ_size_out (s_integ ks) \<le> length buf"
    and rnd: "getrandom cr calls (calc_encrypt_pad ks n) = Some pad"
  defines "enc \<equiv> frame ks (take n (drop 5 buf)) pad"
  defines "tot \<equiv> frame_len ks n + integ_size_out (s_integ ks)"
  shows "\<exists>k' enc' mac' mac. length enc = frame_len ks n
     \<and> enc_key_encrypt cr (s_cipher ks) sq enc (integ_mac cr (s_integ ks) sq enc mac) = Inr (k', enc', mac')
     \<and> length enc' = length enc \<and> length mac' = integ_size_out (s_integ ks) \<and> keys_ok k' (s_integ ks)
     \<and> keys_send_encrypt cr n buf sq calls ks =
         (Inr tot, ks\<lparr>s_cipher := k'\<rparr>, calls + 1, enc' @ mac' @ drop tot buf)"
proof -
  let ?p = "calc_encrypt_pad ks n" and ?i = "integ_size_out (s_integ ks)"
  let ?len = "frame_len ks n"
  let ?buf1 = "overwrite buf 0 (be32 (word_of_nat (?len - 4)) @ [word_of_nat ?p])"
  let ?buf2 = "overwrite ?buf1 (5 + n) pad"
  have pad: "length pad = ?p" using assms(1) rnd by (auto simp: crypto_ok_def)
  have "?len - 4 = 1 + n + ?p" by simp
  then have b2: "?buf2 = enc @ drop ?len buf"
    using fits pad
    by (simp add: overwrite_def enc_def frame_def drop_take add.commute add.left_commute del: of_nat_add of_nat_Suc)
  have len: "length enc = ?len"
    using fits pad by (simp add: enc_def frame_def)
  define mac where "mac = take ?i (drop ?len buf)"
  have m: "length mac = ?i" using fits by (simp add: mac_def)
  have "length (integ_mac cr (s_integ ks) sq enc mac) = ?i"
    using m assms(1) by (cases "s_integ ks") (auto simp: crypto_ok_def)
  from enc_key_encrypt_ok [OF assms(1) assms(2) [unfolded keys_send_ok_def] _ this, of enc sq] len
  obtain k' enc' mac' where e: "enc_key_encrypt cr (s_cipher ks) sq enc (integ_mac cr (s_integ ks) sq enc mac)
      = Inr (k', enc', mac')" "keys_ok k' (s_integ ks)" "length enc' = length enc" "length mac' = ?i"
    by auto
  have "keys_send_encrypt cr n buf sq calls ks =
         (Inr tot, ks\<lparr>s_cipher := k'\<rparr>, calls + 1, enc' @ mac' @ drop tot buf)"
    using fits rnd e(1) len b2
    by (simp add: keys_send_encrypt_def Let_def framing_consts fill_random_def tot_def mac_def)
       (simp add: add.commute)
  with e len show ?thesis by blast
qed


subsection \<open>What was encrypted decrypts\<close>

fun paired_keys :: "enc_key \<Rightarrow> dec_key \<Rightarrow> bool" where
  "paired_keys (EncChaPoly k) (DecChaPoly k') \<longleftrightarrow> k = k'"
| "paired_keys (EncAes256Ctr a) (DecAes256Ctr a') \<longleftrightarrow> a = a'"
| "paired_keys EncNoCipher DecNoCipher \<longleftrightarrow> True"
| "paired_keys _ _ \<longleftrightarrow> False"

text \<open>The sender's and the receiver's keys of one direction are in step.\<close>

definition paired :: "keys_send \<Rightarrow> keys_recv \<Rightarrow> bool" where
  "paired ks kr \<longleftrightarrow> keys_send_ok ks \<and> paired_keys (s_cipher ks) (r_cipher kr) \<and> s_integ ks = r_integ kr"

lemma paired_simps:
  assumes "paired ks kr"
  shows "dec_size_block (r_cipher kr) = enc_size_block (s_cipher ks)"
    "dec_is_aead (r_cipher kr) = enc_is_aead (s_cipher ks)" "r_integ kr = s_integ ks"
  using assms by (cases "s_cipher ks"; cases "r_cipher kr"; simp add: paired_def)+

text \<open>What the receiver's two calls do to a packet, for each cipher.\<close>

lemma first_block_then_rest:
  assumes "crypto_ok cr" "paired_keys k d" "keys_ok k i"
    and "16 \<le> length enc \<or> 8 \<le> length enc \<and> enc_size_block k = 8"
    and "take 4 enc = be32 (word_of_nat (length enc - 4))" "length enc < 2 ^ 32"
    and e: "enc_key_encrypt cr k sq enc (integ_mac cr i sq enc mac) = Inr (k', enc', mac')"
  obtains d1 w1 d2 enc2 where
    "dec_key_first_block cr d sq (take (enc_size_block k) enc') = Inr (word_of_nat (length enc - 4), d1, w1)"
    "length w1 = enc_size_block k" "dec_size_block d1 = enc_size_block k" "dec_is_aead d1 = enc_is_aead k"
    "dec_key_decrypt cr d1 sq (w1 @ drop (enc_size_block k) enc') mac' = Inr (d2, enc2)"
    "length enc2 = length enc" "drop 4 enc2 = drop 4 enc" "integ_verify cr i sq enc2 mac' = Inr ()"
    "paired_keys k' d2"
proof (cases k)
  case (EncChaPoly c)
  have c: "chapoly_encrypt cr c sq enc (integ_mac cr i sq enc mac) = Inr (enc', mac')" "k' = k"
    using e EncChaPoly by (auto simp: and_then_Inr_eq trap_result_def)
  have len: "length enc' = length enc"
    using c(1) assms(4) by (auto dest!: chapoly_length [rotated])
  have enc': "take 8 enc' @ drop 8 enc' = enc'" by simp
  have "chapoly_packet_length cr c sq (take 8 enc') = chapoly_packet_length cr c sq enc'"
    using assms(4) len by (auto simp: chapoly_packet_length_def framing_consts min_def)
  then have p: "chapoly_packet_length cr c sq (take 8 enc') = Inr (word_of_nat (length enc - 4))"
    using chapoly_packet_length_encrypt [OF c(1), of "[]"] by simp
  from chapoly_decrypt_encrypt [OF assms(1) c(1)] obtain h where
    h: "length h = 4" "chapoly_decrypt cr c sq enc' mac' = Inr (h @ drop 4 enc)" by blast
  show ?thesis
    by (rule that [of d "take 8 enc'" d "h @ drop 4 enc"])
       (use EncChaPoly assms(2-4) len p h c(2) in \<open>cases d; auto simp: trap_result_def SSH_MIN_BLOCK_def\<close>)+
next
  case (EncAes256Ctr a)
  let ?ks = "aes256_ctr cr (aes_key a) (aes_iv a)"
  have c: "enc' = apply_keystream ?ks (aes_pos a) enc" "k' = EncAes256Ctr (a\<lparr>aes_pos := aes_pos a + length enc\<rparr>)"
    "mac' = integ_mac cr i sq enc mac"
    using e EncAes256Ctr by (auto simp: aes_apply_def)
  have len: "16 \<le> length enc" using assms(4) EncAes256Ctr by auto
  then have "take 4 (take 16 enc) = be32 (word_of_nat (length enc - 4))" using assms(5) by simp
  with len show ?thesis
    by (intro that [of "DecAes256Ctr (a\<lparr>aes_pos := aes_pos a + 16\<rparr>)" "take 16 enc"
          "DecAes256Ctr (a\<lparr>aes_pos := aes_pos a + length enc\<rparr>)" enc])
       (use EncAes256Ctr assms(2,3) c in \<open>cases d; auto simp: aes_apply_def take_apply_keystream
         drop_apply_keystream panic_option_def slice_def framing_consts\<close>)+
next
  case EncNoCipher
  then have c: "enc' = enc" "k' = k" "mac' = integ_mac cr i sq enc mac" using e by auto
  have "take 4 (take 8 enc) = be32 (word_of_nat (length enc - 4))" using assms(5) by simp
  then show ?thesis
    by (intro that [of DecNoCipher "take 8 enc" DecNoCipher enc])
       (use EncNoCipher assms(2-4) c in \<open>cases d; auto simp: framing_consts SSH_MIN_BLOCK_def\<close>)+
qed


lemma keys_send_encrypt_Inr:
  assumes "keys_send_encrypt cr n buf sq calls ks = (Inr tot, ks', calls', buf')"
  obtains pad where "frame_len ks n + integ_size_out (s_integ ks) \<le> length buf"
    "getrandom cr calls (calc_encrypt_pad ks n) = Some pad"
proof -
  have fits: "frame_len ks n + integ_size_out (s_integ ks) \<le> length buf"
    using assms keys_send_encrypt_NoRoom [where buf = buf and cr = cr and sq = sq and calls = calls]
    by (metis Inr_Inl_False fst_conv not_le_imp_less)
  moreover have "getrandom cr calls (calc_encrypt_pad ks n) \<noteq> None"
  proof
    assume "getrandom cr calls (calc_encrypt_pad ks n) = None"
    with fits assms show False by (simp add: keys_send_encrypt_def framing_consts fill_random_def Let_def)
  qed
  ultimately show ?thesis using that by blast
qed

text \<open>A packet with a known cleartext passes the checks of \<open>KeysRecv::decrypt\<close>.\<close>

lemma keys_recv_decrypt_ok:
  assumes "dec_key_decrypt cr (r_cipher kr) sq dat mac = Inr (d2, dat')"
    and "integ_verify cr (r_integ kr) sq dat' mac = Inr ()"
    and "length mac = integ_size_out (r_integ kr)" "length dat' = length dat"
    and "dec_size_block (r_cipher kr) \<le> length dat"
    and "dec_size_block (r_cipher kr) dvd length dat - (if dec_is_aead (r_cipher kr) then 4 else 0)"
    and "drop 4 dat' = word_of_nat p # rest" "4 \<le> p" "p < 256" "5 + p \<le> length dat"
  shows "keys_recv_decrypt cr (dat @ mac) sq kr
     = (Inr (length dat - (5 + p)), kr\<lparr>r_cipher := d2\<rparr>, dat' @ mac)"
proof -
  have p: "unat (word_of_nat p :: u8) = p"
    using assms(9) by (simp add: unat_of_nat take_bit_nat_eq_self)
  have "slice dat' 4 5 = Some [word_of_nat p]"
    using assms(4,7,10) by (simp add: slice_def)
  then show ?thesis
    using assms(1-3,5,6,8,10) p
    by (cases "dec_is_aead (r_cipher kr)")
       (simp_all add: keys_recv_decrypt_def Let_def framing_consts panic_option_def dvd_eq_mod_eq_0)
qed

lemma encrypt_decrypt_keys:
  assumes cr: "crypto_ok cr" and pr: "paired ks kr" and tot: "tot < 2 ^ 32"
    and e: "keys_send_encrypt cr n buf sq calls ks = (Inr tot, ks', calls', buf')"
  defines "blk \<equiv> dec_size_block (r_cipher kr)"
  obtains kr1 w1 kr2 pkt where "blk \<le> tot" "length w1 = blk"
    "keys_recv_decrypt_first_block cr (take blk buf') sq kr = (Inr tot, kr1, w1)"
    "keys_recv_decrypt cr (w1 @ drop blk (take tot buf')) sq kr1 = (Inr n, kr2, pkt)"
    "take n (drop 5 pkt) = take n (drop 5 buf)" "paired ks' kr2"
proof -
  let ?i = "integ_size_out (s_integ ks)" and ?p = "calc_encrypt_pad ks n"
  from keys_send_encrypt_Inr [OF e] obtain pad where
    fits: "frame_len ks n + ?i \<le> length buf" and rnd: "getrandom cr calls ?p = Some pad" .
  define enc where "enc = frame ks (take n (drop 5 buf)) pad"
  have padlen: "length pad = ?p" using cr rnd by (auto simp: crypto_ok_def)
  have ok: "keys_ok (s_cipher ks) (s_integ ks)" using pr unfolding paired_def keys_send_ok_def by blast
  from keys_send_encrypt_fits [OF cr _ _ fits rnd, of sq] pr fits obtain k' enc' mac' mac where
    k: "length enc = frame_len ks n"
      "enc_key_encrypt cr (s_cipher ks) sq enc (integ_mac cr (s_integ ks) sq enc mac) = Inr (k', enc', mac')"
      "length enc' = length enc" "length mac' = ?i" "keys_ok k' (s_integ ks)"
    and r: "tot = frame_len ks n + ?i" "ks' = ks\<lparr>s_cipher := k'\<rparr>"
      "buf' = enc' @ mac' @ drop (frame_len ks n + ?i) buf"
    using e by (auto simp: paired_def enc_def)
  have frame: "take 4 enc = be32 (word_of_nat (length enc - 4))"
    "drop 4 enc = word_of_nat ?p # take n (drop 5 buf) @ pad"
    using k(1) fits padlen by (simp_all add: enc_def frame_def)
  have blk: "blk = enc_size_block (s_cipher ks)" "dec_is_aead (r_cipher kr) = enc_is_aead (s_cipher ks)"
    "r_integ kr = s_integ ks" using paired_simps [OF pr] by (simp_all add: blk_def)
  note pad = calc_encrypt_pad [where ks = ks and n = n]
  have big: "blk \<le> length enc"
    using frame_len_block [of ks n] k(1) by (simp add: blk)
  then have big': "16 \<le> length enc \<or> 8 \<le> length enc \<and> enc_size_block (s_cipher ks) = 8"
    using enc_size_block_cases [of "s_cipher ks"] by (auto simp: blk)
  have tot_eq: "tot = length enc + ?i" using r(1) k(1) by simp
  have small: "length enc < 2 ^ 32" using tot tot_eq by simp
  have u: "unat (word_of_nat (length enc - 4) :: u32) = length enc - 4"
    by (rule unat_of_nat_u32) (use small in simp)
  from pr have "paired_keys (s_cipher ks) (r_cipher kr)" by (simp add: paired_def)
  from first_block_then_rest [OF cr this ok big' frame(1) small k(2)] obtain d1 w1 d2 enc2 where
    d: "dec_key_first_block cr (r_cipher kr) sq (take blk enc') = Inr (word_of_nat (length enc - 4), d1, w1)"
    "length w1 = blk" "dec_size_block d1 = blk" "dec_is_aead d1 = enc_is_aead (s_cipher ks)"
    "dec_key_decrypt cr d1 sq (w1 @ drop blk enc') mac' = Inr (d2, enc2)"
    "length enc2 = length enc" "drop 4 enc2 = drop 4 enc" "integ_verify cr (s_integ ks) sq enc2 mac' = Inr ()"
    "paired_keys k' d2" unfolding blk(1) by blast
  let ?kr1 = "kr\<lparr>r_cipher := d1\<rparr>" and ?kr2 = "kr\<lparr>r_cipher := d2\<rparr>"
  have first: "keys_recv_decrypt_first_block cr (take blk buf') sq kr = (Inr tot, ?kr1, w1)"
    using d(1,2) big big' tot k(3) tot_eq u
    by (auto simp: keys_recv_decrypt_first_block_def r(3) blk(3) framing_consts u32_max_def
        simp flip: blk_def)
  have dat: "length (w1 @ drop blk enc') = length enc" using d(2) big k(3) by simp
  have padlt: "?p < 256" "4 \<le> ?p" using pad(1,2) enc_size_block_cases [of "s_cipher ks"] by auto
  have dvd: "dec_size_block (r_cipher ?kr1) dvd length (w1 @ drop blk enc')
      - (if dec_is_aead (r_cipher ?kr1) then 4 else 0)"
    unfolding dat using pad(3) by (simp add: d(3,4) k(1) blk(1))
  have "keys_recv_decrypt cr ((w1 @ drop blk enc') @ mac') sq ?kr1
      = (Inr (length (w1 @ drop blk enc') - (5 + ?p)), ?kr1\<lparr>r_cipher := d2\<rparr>, enc2 @ mac')"
    by (rule keys_recv_decrypt_ok [OF _ _ _ _ _ dvd frame(2) [folded d(7)] padlt(2,1)])
       (simp_all add: d(3,5,6,8) blk(3) k(4) dat k(1) big [unfolded k(1)] del: length_append)
  then have rest: "keys_recv_decrypt cr ((w1 @ drop blk enc') @ mac') sq ?kr1 = (Inr n, ?kr2, enc2 @ mac')"
    by (simp add: dat k(1) del: length_append append_assoc)
  have split: "w1 @ drop blk (take tot buf') = (w1 @ drop blk enc') @ mac'"
    using big k(1,3,4) by (simp add: r(1,3) drop_append)
  have payload: "take n (drop 5 (enc2 @ mac')) = take n (drop 5 buf)"
    using arg_cong [OF frame(2) [folded d(7)], of "drop 1"] d(6) k(1) fits by simp
  have "paired ks' ?kr2" "blk \<le> tot"
    using d(9) k(5) r(2) blk(3) big tot_eq by (simp_all add: paired_def keys_send_ok_def)
  then show ?thesis
    using that [OF _ d(2) first rest [folded split] payload] by blast
qed


text \<open>One end's sending state and the other end's receiving state agree.\<close>

definition in_step :: "key_state \<Rightarrow> key_state \<Rightarrow> bool" where
  "in_step s r \<longleftrightarrow> paired (ks_enc s) (ks_dec r) \<and> seq_encrypt s = seq_decrypt r"

lemma encrypt_then_decrypt:
  assumes "crypto_ok cr" "in_step s r" "tot < 2 ^ 32" "encrypt cr n buf s = (Inr tot, s', buf')"
  obtains r1 w1 r2 pkt where "size_block_dec r \<le> tot" "length w1 = size_block_dec r"
    "decrypt_first_block cr (take (size_block_dec r) buf') r = (Inr tot, r1, w1)"
    "decrypt cr (w1 @ drop (size_block_dec r) (take tot buf')) r1 = (Inr n, r2, pkt)"
    "take n (drop 5 pkt) = take n (drop 5 buf)" "in_step s' r2"
proof -
  obtain e0 k calls b where
    e0: "keys_send_encrypt cr n buf (seq_encrypt s) (rng_calls s) (ks_enc s) = (e0, k, calls, b)"
    by (metis prod_cases4)
  have e: "keys_send_encrypt cr n buf (seq_encrypt s) (rng_calls s) (ks_enc s) = (Inr tot, k, calls, buf')"
    and s': "ks_enc s' = k" "seq_encrypt s' = seq_encrypt s + 1"
    using assms(4) by (auto simp: encrypt_def e0 Let_def split: if_splits)
  have sq: "seq_encrypt s = seq_decrypt r" and pr: "paired (ks_enc s) (ks_dec r)"
    using assms(2) by (simp_all add: in_step_def)
  obtain kr1 w1 kr2 pkt where
    k: "size_block_dec r \<le> tot" "length w1 = size_block_dec r"
    "keys_recv_decrypt_first_block cr (take (size_block_dec r) buf') (seq_decrypt r) (ks_dec r) = (Inr tot, kr1, w1)"
    "keys_recv_decrypt cr (w1 @ drop (size_block_dec r) (take tot buf')) (seq_decrypt r) kr1 = (Inr n, kr2, pkt)"
    "take n (drop 5 pkt) = take n (drop 5 buf)" "paired k kr2"
    by (rule encrypt_decrypt_keys [OF assms(1) pr assms(3) e [unfolded sq], folded size_block_dec_def])
  let ?r1 = "r\<lparr>ks_dec := kr1\<rparr>"
  let ?r2 = "?r1\<lparr>ks_dec := kr2, seq_decrypt := seq_decrypt r + 1, rekey_blocks_in :=
    u32_sat_add (rekey_blocks_in r) (word_of_nat (div_ceil n REKEY_BLOCK_SIZE))\<rparr>"
  have "decrypt_first_block cr (take (size_block_dec r) buf') r = (Inr tot, ?r1, w1)"
    by (simp add: decrypt_first_block_def k(3))
  moreover have "decrypt cr (w1 @ drop (size_block_dec r) (take tot buf')) ?r1 = (Inr n, ?r2, pkt)"
    by (simp add: decrypt_def k(4) Let_def)
  moreover have "in_step s' ?r2" using k(6) s' sq by (simp add: in_step_def)
  ultimately show ?thesis using that k(1,2,5) by metis
qed

lemma rekey_in_step:
  assumes "paired ks kr" "strict_kex s = strict_kex r" "strict_kex s \<or> seq_encrypt s = seq_decrypt r"
  shows "in_step (rekey_send ks s) (rekey_recv kr r)"
  using assms by (auto simp: in_step_def rekey_send_def rekey_recv_def)

subsection \<open>What decryption guarantees\<close>

text \<open>The packet carries the tag or MAC for its key and sequence number.\<close>

fun authentic :: "crypto \<Rightarrow> dec_key \<Rightarrow> integ_key \<Rightarrow> u32 \<Rightarrow> bytes \<Rightarrow> bytes \<Rightarrow> bytes \<Rightarrow> bool" where
  "authentic cr (DecChaPoly k) i sq dat dat' mac \<longleftrightarrow>
     poly1305 cr (chapoly_poly_key cr k sq) dat = mac \<and> drop 4 dat' =
       apply_keystream (cha20 cr (k2 k) sq) 64 (drop 4 dat)"
| "authentic cr _ (IntegKeyHmacSha256 k) sq dat dat' mac \<longleftrightarrow> hmac_sha256 cr k (be32 sq @ dat') = mac"
| "authentic cr _ _ sq dat dat' mac \<longleftrightarrow> True"

lemma dec_key_decrypt_length:
  "dec_key_decrypt cr k sq dat mac = Inr (k', dat') \<Longrightarrow> length dat' = length dat"
  by (cases k) (auto simp: and_then_Inr_eq chapoly_decrypt_def framing_consts panic_option_def slice_def
      aes_apply_def split: if_splits)

lemma dec_size_block_cases: "dec_size_block k = 8 \<or> dec_size_block k = 16"
  by (cases k) (simp_all add: SSH_MIN_BLOCK_def)

lemma keys_recv_decrypt_Inr:
  assumes "keys_recv_decrypt cr buf sq ks = (Inr n, ks', buf')"
  defines "m \<equiv> length buf - integ_size_out (r_integ ks)"
  obtains k' dat' padlen where
    "dec_key_decrypt cr (r_cipher ks) sq (take m buf) (drop m buf) = Inr (k', dat')"
    "integ_verify cr (r_integ ks) sq dat' (drop m buf) = Inr ()" "integ_size_out (r_integ ks) \<le> length buf"
    "ks' = ks\<lparr>r_cipher := k'\<rparr>" "buf' = dat' @ drop m buf" "length dat' = m"
    "5 + n + padlen + integ_size_out (r_integ ks) = length buf" "4 \<le> padlen"
proof -
  have big: "dec_size_block (r_cipher ks) + integ_size_out (r_integ ks) \<le> length buf"
    using assms by (auto simp: keys_recv_decrypt_def Let_def split: if_splits)
  from assms(1) big obtain k' dat' where
    k: "dec_key_decrypt cr (r_cipher ks) sq (take m buf) (drop m buf) = Inr (k', dat')"
    and r: "ks' = ks\<lparr>r_cipher := k'\<rparr>" "buf' = dat' @ drop m buf"
    and n: "and_then (integ_verify cr (r_integ ks) sq dat' (drop m buf)) (\<lambda>_.
               and_then (panic_option (slice dat' SSH_LENGTH_SIZE (SSH_LENGTH_SIZE + 1))) (\<lambda>pl.
                 let padlen = unat (hd pl) in
                 if padlen < SSH_MIN_PADLEN then Inl SSHProto
                 else if SSH_LENGTH_SIZE + 1 + integ_size_out (r_integ ks) + padlen > length buf then Inl SSHProto
                 else Inr (length buf - (SSH_LENGTH_SIZE + 1 + integ_size_out (r_integ ks) + padlen)))) = Inr n"
    by (auto simp: keys_recv_decrypt_def Let_def m_def split: if_splits sum.splits)
  have len: "length dat' = m" using dec_key_decrypt_length [OF k] big by (simp add: m_def)
  from n obtain pl where v: "integ_verify cr (r_integ ks) sq dat' (drop m buf) = Inr ()"
    and "(let padlen = unat (hd pl :: u8) in
           if padlen < SSH_MIN_PADLEN then Inl SSHProto
           else if SSH_LENGTH_SIZE + 1 + integ_size_out (r_integ ks) + padlen > length buf then Inl SSHProto
           else Inr (length buf - (SSH_LENGTH_SIZE + 1 + integ_size_out (r_integ ks) + padlen))) = Inr n"
    by (auto simp: and_then_Inr_eq)
  then have "4 \<le> unat (hd pl)" "5 + n + unat (hd pl) + integ_size_out (r_integ ks) = length buf"
    by (auto simp: Let_def framing_consts split: if_splits)
  with that [OF k v _ r len] big show ?thesis by simp
qed

lemma dec_key_decrypt_authentic:
  assumes "dec_key_decrypt cr k sq dat mac = Inr (k', dat')" "integ_verify cr i sq dat' mac = Inr ()"
  shows "authentic cr k i sq dat dat' mac"
  using assms
  by (cases k; cases i) (auto simp: and_then_Inr_eq chapoly_decrypt_def framing_consts split: if_splits)

lemma decrypt_authentic:
  assumes "keys_recv_decrypt cr buf sq ks = (Inr n, ks', buf')"
  defines "m \<equiv> length buf - integ_size_out (r_integ ks)"
  shows "authentic cr (r_cipher ks) (r_integ ks) sq (take m buf) (take m buf') (drop m buf)"
proof -
  from keys_recv_decrypt_Inr [OF assms(1), folded m_def] obtain k' dat' where
    "dec_key_decrypt cr (r_cipher ks) sq (take m buf) (drop m buf) = Inr (k', dat')"
    "integ_verify cr (r_integ ks) sq dat' (drop m buf) = Inr ()" "take m buf' = dat'"
    by (metis append_eq_conv_conj)
  then show ?thesis by (simp add: dec_key_decrypt_authentic)
qed

lemma dec_key_decrypt_not_Panic:
  "dec_size_block k \<le> length dat \<Longrightarrow> dec_key_decrypt cr k sq dat mac \<noteq> Inl Panic"
  by (cases k) (auto simp: and_then_Inl_eq map_err_Inl_eq panic_option_def slice_def aes_apply_def)

lemma integ_verify_not_Panic: "integ_verify cr i sq dat mac \<noteq> Inl Panic"
  by (cases i) auto

lemma keys_recv_decrypt_not_Panic: "fst (keys_recv_decrypt cr buf sq ks) \<noteq> Inl Panic"
proof (cases "dec_size_block (r_cipher ks) + integ_size_out (r_integ ks) \<le> length buf")
  case big: True
  let ?m = "length buf - integ_size_out (r_integ ks)"
  show ?thesis
  proof (cases "dec_key_decrypt cr (r_cipher ks) sq (take ?m buf) (drop ?m buf)")
    case (Inl e)
    with big dec_key_decrypt_not_Panic [of "r_cipher ks" "take ?m buf" cr sq "drop ?m buf"]
    show ?thesis by (simp add: keys_recv_decrypt_def Let_def)
  next
    case (Inr r)
    then obtain k' d where r: "dec_key_decrypt cr (r_cipher ks) sq (take ?m buf) (drop ?m buf) = Inr (k', d)"
      by (cases r) auto
    have "length d = ?m" using dec_key_decrypt_length [OF r] by simp
    then have "slice d 4 5 = Some [d ! 4]"
      using big dec_size_block_cases [of "r_cipher ks"] slice_nth [of 4 d] by auto
    with r integ_verify_not_Panic [of cr "r_integ ks" sq d "drop ?m buf"] show ?thesis
      by (cases "integ_verify cr (r_integ ks) sq d (drop ?m buf)")
         (simp_all add: keys_recv_decrypt_def Let_def panic_option_def framing_consts)
  qed
qed (simp add: keys_recv_decrypt_def)

lemma dec_key_first_block_not_Panic: "dec_key_first_block cr k sq buf \<noteq> Inl Panic"
  by (cases k) (auto simp: trap_result_def map_err_Inl_eq and_then_Inl_eq aes_apply_def)

lemma decrypt_first_block_not_Panic: "fst (keys_recv_decrypt_first_block cr buf sq ks) \<noteq> Inl Panic"
  using dec_key_first_block_not_Panic [of cr "r_cipher ks" sq buf]
  by (auto simp: keys_recv_decrypt_first_block_def Let_def split: sum.split)

subsection \<open>Rekeying comes before the sequence number wraps\<close>

lemma encrypt_counts:
  assumes "encrypt cr n buf s = (e, s', buf')" "e \<noteq> Inl NoRoom" "buf \<noteq> []" "length buf < 2 ^ 32"
  shows "min u32_max (unat (rekey_blocks_out s) + 1) \<le> unat (rekey_blocks_out s')"
    and "seq_encrypt s' = seq_encrypt s + 1"
proof -
  let ?b = "div_ceil (length buf) 16"
  have "?b \<le> length buf" and "0 < ?b"
    using assms(3) div_ceil_pos [of "length buf" 16] by (simp_all add: div_ceil_def)
  then have "unat (word_of_nat ?b :: u32) = ?b" using assms(4) by (intro unat_of_nat_u32) simp
  obtain e0 k calls b where
    e0: "keys_send_encrypt cr n buf (seq_encrypt s) (rng_calls s) (ks_enc s) = (e0, k, calls, b)"
    by (metis prod_cases4)
  with assms(1,2) have s': "rekey_blocks_out s' = u32_sat_add (rekey_blocks_out s) (word_of_nat ?b)"
    "seq_encrypt s' = seq_encrypt s + 1"
    by (auto simp: encrypt_def REKEY_BLOCK_SIZE_def Let_def split: if_splits)
  show "min u32_max (unat (rekey_blocks_out s) + 1) \<le> unat (rekey_blocks_out s')"
    using \<open>unat (word_of_nat ?b :: u32) = ?b\<close> \<open>0 < ?b\<close> by (simp add: s'(1) unat_u32_sat_add)
  show "seq_encrypt s' = seq_encrypt s + 1" by (rule s'(2))
qed

text \<open>A run of packets with one key.\<close>

inductive encrypts :: "crypto \<Rightarrow> key_state \<Rightarrow> nat \<Rightarrow> key_state \<Rightarrow> bool" for cr where
  none: "encrypts cr s 0 s"
| more: "encrypts cr s k t \<Longrightarrow> encrypt cr n buf t = (Inr tot, u, buf') \<Longrightarrow> length buf < 2 ^ 32 \<Longrightarrow>
           encrypts cr s (Suc k) u"

lemma encrypt_Inr_not_Nil: "encrypt cr n buf t = (Inr tot, u, buf') \<Longrightarrow> buf \<noteq> []"
  by (cases "keys_send_encrypt cr n buf (seq_encrypt t) (rng_calls t) (ks_enc t)")
     (auto simp: encrypt_def Let_def elim!: keys_send_encrypt_Inr)

lemma encrypts_counts:
  "encrypts cr s k t \<Longrightarrow> min u32_max (unat (rekey_blocks_out s) + k) \<le> unat (rekey_blocks_out t)
     \<and> seq_encrypt t = seq_encrypt s + word_of_nat k"
proof (induction rule: encrypts.induct)
  case (more s k t n buf tot u buf')
  have "min u32_max (unat (rekey_blocks_out t) + 1) \<le> unat (rekey_blocks_out u)"
    "seq_encrypt u = seq_encrypt t + 1"
    using encrypt_counts [OF more.hyps(2) _ encrypt_Inr_not_Nil [OF more.hyps(2)] more.hyps(3)] by simp_all
  with more.IH show ?case by auto
qed (simp add: u32_max_def)

lemma rekey_before_wrap:
  assumes "encrypts cr s k t" "unat REKEY_BLOCKS_OUT_LIMIT < k"
  shows "is_rekey_needed t"
  using encrypts_counts [OF assms(1)] assms(2)
  by (auto simp: is_rekey_needed_def REKEY_BLOCKS_OUT_LIMIT_def word_less_nat_alt u32_max_def)

end
