(* ===== verification/SSH_Ident.thy ===== *)
theory SSH_Ident
  imports SSH_Errors
begin

section \<open>Version exchange\<close>

text \<open>
  \<open>src/src/ident.rs\<close>: the identification string that opens a connection, and the byte by byte
  parser \<open>RemoteVersion\<close> for the one the peer sends.

  \<open>consume_byte\<close> is one round of the loop of \<open>RemoteVersion::consume\<close>, \<open>consume\<close> the loop. The
  lemmas show that the result does not depend on how the stream is cut into reads, that an accepted
  version is a line of the stream with the right shape, that a stream with such a line is accepted,
  and that the parser stays within its buffer.
\<close>

definition OUR_VERSION :: bytes where
  "OUR_VERSION = str_bytes ''SSH-2.0-Sunset-0.6.0''"

definition SSH_PREFIX :: bytes where
  "SSH_PREFIX = str_bytes ''SSH-2.0-''"

definition MAX_REMOTE_VERSION_LEN :: nat where "MAX_REMOTE_VERSION_LEN = 253"
definition MAX_LINES :: nat where "MAX_LINES = 50"
definition CR :: u8 where "CR = 0x0d"
definition LF :: u8 where "LF = 0x0a"

definition write_version :: "bytes \<Rightarrow> (nat \<times> bytes) ssh_result" where
  "write_version buf =
     (let total_len = length OUR_VERSION + 2 in
      if total_len > length buf then Inl NoRoom
      else Inr (total_len, overwrite buf 0 (OUR_VERSION @ [CR, LF])))"

datatype vers_pars = VStart nat | VDiscarding | VFillSSH nat | VHaveCR nat | VDone nat

record remote_version =
  storage :: bytes
  st :: vers_pars
  num_lines :: nat
  rv_is_client :: bool

definition remote_version_new :: "bool \<Rightarrow> remote_version" where
  "remote_version_new client =
     \<lparr>storage = replicate MAX_REMOTE_VERSION_LEN 0, st = VStart 0, num_lines = 0,
      rv_is_client = client\<rparr>"

text \<open>\<open>split_at\<close> past the end panics; the lemmas show that it does not happen.\<close>

definition version :: "remote_version \<Rightarrow> bytes option ssh_result" where
  "version rv =
     (case st rv of
        VDone len \<Rightarrow> and_then (panic_option (slice (storage rv) 0 len)) (\<lambda>v. Inr (Some v))
      | _ \<Rightarrow> Inr None)"

text \<open>\<open>storage.get_mut(pos).ok_or(NoRoom)?\<close>, write, and \<open>pos += 1\<close>.\<close>

definition store_byte :: "remote_version \<Rightarrow> nat \<Rightarrow> u8 \<Rightarrow> remote_version ssh_result" where
  "store_byte rv pos b =
     (if pos < length (storage rv) then Inr (rv\<lparr>storage := (storage rv)[pos := b]\<rparr>) else Inl NoRoom)"

definition consume_byte :: "remote_version \<Rightarrow> u8 \<Rightarrow> remote_version ssh_result" where
  "consume_byte rv b =
     (case st rv of
        VStart pos0 \<Rightarrow>
          and_then (store_byte rv pos0 b) (\<lambda>rv.
            let pos = pos0 + 1 in
            and_then (panic_option (slice (storage rv) 0 pos)) (\<lambda>s.
              if s = SSH_PREFIX then Inr (rv\<lparr>st := VFillSSH pos\<rparr>)
              else if pos \<le> length SSH_PREFIX then
                (if take pos SSH_PREFIX \<noteq> s then Inr (rv\<lparr>st := VDiscarding\<rparr>)
                 else Inr (rv\<lparr>st := VStart pos\<rparr>))
              else Inr (rv\<lparr>st := VDiscarding\<rparr>)))
      | VDiscarding \<Rightarrow>
          if b = LF then
            (let rv = rv\<lparr>st := VStart 0, num_lines := num_lines rv + 1\<rparr> in
             if \<not> rv_is_client rv \<or> num_lines rv > MAX_LINES then Inl NotSSH else Inr rv)
          else Inr rv
      | VFillSSH pos \<Rightarrow>
          if b = CR then
            and_then (panic_option (slice (storage rv) 0 pos)) (\<lambda>s.
              if \<not> list_all (\<lambda>x. x < 0x80) s then Inl NotSSH
              else Inr (rv\<lparr>st := VHaveCR pos\<rparr>))
          else if b = LF then Inl NotSSH
          else and_then (store_byte rv pos b) (\<lambda>rv. Inr (rv\<lparr>st := VFillSSH (pos + 1)\<rparr>))
      | VHaveCR len \<Rightarrow> if b = LF then Inr (rv\<lparr>st := VDone len\<rparr>) else Inl NotSSH
      | VDone _ \<Rightarrow> Inr rv)"

fun is_done :: "vers_pars \<Rightarrow> bool" where
  "is_done (VDone _) = True"
| "is_done _ = False"

fun consume_loop :: "remote_version \<Rightarrow> nat \<Rightarrow> bytes \<Rightarrow> (nat \<times> remote_version) ssh_result" where
  "consume_loop rv taken [] = Inr (taken, rv)"
| "consume_loop rv taken (b # bs) =
     (if is_done (st rv) then Inr (taken, rv)
      else and_then (consume_byte rv b) (\<lambda>rv. consume_loop rv (taken + 1) bs))"

definition consume :: "remote_version \<Rightarrow> bytes \<Rightarrow> (nat \<times> remote_version) ssh_result" where
  "consume rv buf = consume_loop rv 0 buf"

subsection \<open>Reads may be cut anywhere\<close>

lemma consume_loop_taken:
  "consume_loop rv n bs = and_then (consume_loop rv 0 bs) (\<lambda>(m, rv'). Inr (n + m, rv'))"
proof (induction bs arbitrary: rv n)
  case (Cons b bs)
  show ?case
  proof (cases "is_done (st rv)")
    case False
    then show ?thesis
      using Cons.IH [of _ "n + 1"] Cons.IH [of _ 1]
      by (simp add: and_then_assoc case_prod_beta')
  qed simp
qed simp

lemma consume_loop_done: "is_done (st rv) \<Longrightarrow> consume_loop rv n bs = Inr (n, rv)"
  by (cases bs) auto

lemma consume_append:
  "consume rv (xs @ ys) =
     and_then (consume rv xs) (\<lambda>(n, rv'). and_then (consume rv' ys) (\<lambda>(m, rv''). Inr (n + m, rv'')))"
proof -
  have "consume_loop rv k (xs @ ys) = and_then (consume_loop rv k xs) (\<lambda>(n, rv'). consume_loop rv' n ys)" for k
  proof (induction xs arbitrary: rv k)
    case (Cons x xs)
    then show ?case
      by (simp add: and_then_assoc consume_loop_done)
  qed simp
  then show ?thesis
    by (simp add: consume_def) (metis consume_loop_taken)
qed


subsection \<open>What the parser has seen\<close>

text \<open>
  \<open>rv_inv seen rv\<close> relates the state to all bytes consumed so far: what is in the buffer is the
  line being read, and that line starts the stream, or, on a client, follows a line feed.
\<close>

definition line_start :: "bool \<Rightarrow> bytes \<Rightarrow> bool" where
  "line_start client pre \<longleftrightarrow> pre = [] \<or> client \<and> last pre = LF"

definition version_shape :: "bytes \<Rightarrow> bool" where
  "version_shape v \<longleftrightarrow> take 8 v = SSH_PREFIX \<and> length v \<le> MAX_REMOTE_VERSION_LEN
     \<and> CR \<notin> set v \<and> LF \<notin> set v"

definition read_so_far :: "remote_version \<Rightarrow> bytes \<Rightarrow> bytes \<Rightarrow> bool" where
  "read_so_far rv seen line \<longleftrightarrow> (\<exists>pre. seen = pre @ line \<and> line_start (rv_is_client rv) pre)"

definition rv_inv :: "bytes \<Rightarrow> remote_version \<Rightarrow> bool" where
  "rv_inv seen rv \<longleftrightarrow> length (storage rv) = MAX_REMOTE_VERSION_LEN \<and> num_lines rv \<le> MAX_LINES \<and>
     (case st rv of
        VStart n \<Rightarrow> n < 8 \<and> take n (storage rv) = take n SSH_PREFIX
                     \<and> read_so_far rv seen (take n SSH_PREFIX)
      | VDiscarding \<Rightarrow> True
      | VFillSSH n \<Rightarrow> n \<le> MAX_REMOTE_VERSION_LEN \<and> version_shape (take n (storage rv))
                     \<and> read_so_far rv seen (take n (storage rv))
      | VHaveCR n \<Rightarrow> n \<le> MAX_REMOTE_VERSION_LEN \<and> version_shape (take n (storage rv))
                     \<and> list_all (\<lambda>x. x < 0x80) (take n (storage rv))
                     \<and> read_so_far rv seen (take n (storage rv) @ [CR])
      | VDone n \<Rightarrow> n \<le> MAX_REMOTE_VERSION_LEN \<and> version_shape (take n (storage rv))
                     \<and> list_all (\<lambda>x. x < 0x80) (take n (storage rv))
                     \<and> read_so_far rv seen (take n (storage rv) @ [CR, LF]))"

lemma length_SSH_PREFIX [simp]: "length SSH_PREFIX = 8"
  by (simp add: SSH_PREFIX_def)

lemma SSH_PREFIX_no_eol: "CR \<notin> set SSH_PREFIX \<and> LF \<notin> set SSH_PREFIX"
  by (simp add: SSH_PREFIX_def str_bytes_def byte_of_char_def CR_def LF_def)

lemma take_Suc_update: "n < length xs \<Longrightarrow> take (Suc n) (xs[n := b]) = take n xs @ [b]"
  by (simp add: take_Suc_conv_app_nth)

lemma slice_take: "n \<le> length b \<Longrightarrow> slice b 0 n = Some (take n b)"
  by (simp add: slice_def)

lemma read_so_far_snoc: "read_so_far rv seen l \<Longrightarrow> read_so_far rv (seen @ [b]) (l @ [b])"
  by (auto simp: read_so_far_def)

lemma read_so_far_cong: "rv_is_client rv = rv_is_client rv' \<Longrightarrow> read_so_far rv seen l = read_so_far rv' seen l"
  by (simp add: read_so_far_def)

lemma rv_inv_new: "rv_inv [] (remote_version_new client)"
  by (simp add: rv_inv_def remote_version_new_def read_so_far_def line_start_def)

lemma consume_byte_Start:
  assumes "st rv = VStart n" "n < 8" "length (storage rv) = MAX_REMOTE_VERSION_LEN"
    and "take n (storage rv) = take n SSH_PREFIX"
  shows "consume_byte rv b =
    Inr (rv\<lparr>storage := (storage rv)[n := b],
           st := (if b \<noteq> SSH_PREFIX ! n then VDiscarding
                  else if n = 7 then VFillSSH 8 else VStart (n + 1))\<rparr>)"
proof -
  have n: "n < length (storage rv)"
    using assms by (simp add: MAX_REMOTE_VERSION_LEN_def)
  have p: "take (Suc n) SSH_PREFIX = take n SSH_PREFIX @ [SSH_PREFIX ! n]"
    using assms(2) by (simp add: take_Suc_conv_app_nth)
  have "take n SSH_PREFIX @ [b] = SSH_PREFIX \<longleftrightarrow> n = 7 \<and> b = SSH_PREFIX ! n"
  proof
    assume e: "take n SSH_PREFIX @ [b] = SSH_PREFIX"
    from arg_cong [OF e, of length] assms(2) have "n = 7" by simp
    then have "take (Suc n) SSH_PREFIX = SSH_PREFIX" by simp
    with p e \<open>n = 7\<close> show "n = 7 \<and> b = SSH_PREFIX ! n" by (metis append1_eq_conv)
  next
    assume "n = 7 \<and> b = SSH_PREFIX ! n"
    with p show "take n SSH_PREFIX @ [b] = SSH_PREFIX" by simp
  qed
  with n p assms show ?thesis
    by (auto simp: consume_byte_def store_byte_def panic_option_def slice_take take_Suc_update)
qed

lemma take_store: "n < length (storage rv) \<Longrightarrow>
  take (Suc n) (storage (rv\<lparr>storage := (storage rv)[n := b], st := s\<rparr>)) = take n (storage rv) @ [b]"
  by (simp add: take_Suc_update)

lemma version_shape_length: "version_shape v \<Longrightarrow> 8 \<le> length v"
  unfolding version_shape_def by (metis length_SSH_PREFIX length_take min.cobounded1)

lemma version_shape_snoc:
  "version_shape v \<Longrightarrow> length v < MAX_REMOTE_VERSION_LEN \<Longrightarrow> b \<noteq> CR \<Longrightarrow> b \<noteq> LF \<Longrightarrow> version_shape (v @ [b])"
  using version_shape_length [of v] by (auto simp: version_shape_def)

lemma consume_byte_inv:
  assumes "rv_inv seen rv" "\<not> is_done (st rv)"
  shows "case consume_byte rv b of
           Inl e \<Rightarrow> e \<noteq> Panic
         | Inr rv' \<Rightarrow> rv_inv (seen @ [b]) rv' \<and> rv_is_client rv' = rv_is_client rv"
proof (cases "st rv")
  case (VStart n)
  with assms(1) have n: "n < 8" "length (storage rv) = MAX_REMOTE_VERSION_LEN" "num_lines rv \<le> MAX_LINES"
    "take n (storage rv) = take n SSH_PREFIX" "read_so_far rv seen (take n SSH_PREFIX)"
    by (simp_all add: rv_inv_def)
  have nl: "n < length (storage rv)" and big: "8 \<le> MAX_REMOTE_VERSION_LEN"
    using n by (simp_all add: MAX_REMOTE_VERSION_LEN_def)
  have p: "take (Suc n) SSH_PREFIX = take n SSH_PREFIX @ [SSH_PREFIX ! n]"
    using n(1) by (simp add: take_Suc_conv_app_nth)
  have t: "take (Suc n) ((storage rv)[n := b]) = take n SSH_PREFIX @ [b]"
    using nl n(4) by (simp add: take_Suc_update)
  have r: "read_so_far rv (seen @ [b]) (take n SSH_PREFIX @ [b])"
    by (rule read_so_far_snoc [OF n(5)])
  have shape: "version_shape SSH_PREFIX"
    using SSH_PREFIX_no_eol big by (simp add: version_shape_def)
  consider "b \<noteq> SSH_PREFIX ! n" | "b = SSH_PREFIX ! n" "n < 7" | "b = SSH_PREFIX ! n" "n = 7"
    using n(1) by linarith
  then show ?thesis
    using n(2,3) p t r big shape
    by cases (simp_all add: consume_byte_Start [OF VStart n(1,2,4)] rv_inv_def read_so_far_def)
next
  case VDiscarding
  with assms(1) show ?thesis
    by (auto simp: consume_byte_def rv_inv_def Let_def read_so_far_def line_start_def)
next
  case (VFillSSH n)
  with assms(1) have n: "n \<le> MAX_REMOTE_VERSION_LEN" "length (storage rv) = MAX_REMOTE_VERSION_LEN"
    "num_lines rv \<le> MAX_LINES" "version_shape (take n (storage rv))"
    "read_so_far rv seen (take n (storage rv))"
    by (simp_all add: rv_inv_def)
  have "n < MAX_REMOTE_VERSION_LEN \<Longrightarrow> b \<noteq> CR \<Longrightarrow> b \<noteq> LF \<Longrightarrow> version_shape (take n (storage rv) @ [b])"
    using version_shape_snoc [OF n(4)] n(2) by simp
  with VFillSSH n read_so_far_snoc [OF n(5), of b] show ?thesis
    by (auto simp: consume_byte_def rv_inv_def panic_option_def slice_take store_byte_def
        take_Suc_update read_so_far_def)
next
  case (VHaveCR n)
  with assms(1) read_so_far_snoc [of rv seen _ b] show ?thesis
    by (auto simp: consume_byte_def rv_inv_def read_so_far_def)
next
  case (VDone n)
  with assms(2) show ?thesis by simp
qed

lemma consume_inv:
  assumes "rv_inv seen rv"
  shows "case consume rv bs of
           Inl e \<Rightarrow> e \<noteq> Panic
         | Inr (n, rv') \<Rightarrow> n \<le> length bs \<and> rv_inv (seen @ take n bs) rv'
              \<and> rv_is_client rv' = rv_is_client rv"
  using assms
proof (induction bs arbitrary: seen rv)
  case (Cons b bs)
  show ?case
  proof (cases "is_done (st rv)")
    case False
    show ?thesis
    proof (cases "consume_byte rv b")
      case (Inl e)
      with False consume_byte_inv [OF Cons.prems False, of b] show ?thesis by (simp add: consume_def)
    next
      case (Inr rv1)
      with consume_byte_inv [OF Cons.prems False, of b]
      have "rv_inv (seen @ [b]) rv1" and [simp]: "rv_is_client rv1 = rv_is_client rv" by simp_all
      from Cons.IH [OF this(1)] Inr False show ?thesis
        by (auto simp: consume_def consume_loop_taken [of rv1 "Suc 0"] split: sum.splits)
    qed
  qed (use Cons.prems in \<open>simp add: consume_def\<close>)
qed (simp add: consume_def)


subsection \<open>Which streams are accepted\<close>

text \<open>Only the line buffer and the state changed.\<close>

definition same_counts :: "remote_version \<Rightarrow> remote_version \<Rightarrow> bool" where
  "same_counts rv rv' \<longleftrightarrow> length (storage rv') = length (storage rv)
     \<and> num_lines rv' = num_lines rv \<and> rv_is_client rv' = rv_is_client rv"

lemma consume_Cons:
  "\<not> is_done (st rv) \<Longrightarrow> consume_byte rv b = Inr rv1 \<Longrightarrow> consume rv1 bs = Inr (m, rv2) \<Longrightarrow>
     consume rv (b # bs) = Inr (Suc m, rv2)"
  by (simp add: consume_def consume_loop_taken [of rv1 "Suc 0"])

lemma consume_prefix:
  assumes "st rv = VStart n" "n < 8" "length (storage rv) = MAX_REMOTE_VERSION_LEN"
    and "take n (storage rv) = take n SSH_PREFIX"
  shows "\<exists>rv'. consume rv (drop n SSH_PREFIX) = Inr (8 - n, rv') \<and> st rv' = VFillSSH 8
     \<and> take 8 (storage rv') = SSH_PREFIX \<and> same_counts rv rv'"
  using assms
proof (induction "7 - n" arbitrary: n rv)
  case 0
  then have n: "n = 7" by simp
  have d: "drop 7 SSH_PREFIX = [SSH_PREFIX ! 7]"
    using Cons_nth_drop_Suc [of 7 SSH_PREFIX] by simp
  have "take 8 ((storage rv)[7 := SSH_PREFIX ! 7]) = SSH_PREFIX"
    using take_Suc_update [of 7 "storage rv" "SSH_PREFIX ! 7"] 0 n take_Suc_conv_app_nth [of 7 SSH_PREFIX]
    by (simp add: MAX_REMOTE_VERSION_LEN_def)
  with 0 n show ?case
    by (simp add: d consume_def consume_byte_Start [of rv 7] same_counts_def)
next
  case (Suc k)
  let ?rv = "rv\<lparr>storage := (storage rv)[n := SSH_PREFIX ! n], st := VStart (n + 1)\<rparr>"
  have d: "drop n SSH_PREFIX = SSH_PREFIX ! n # drop (n + 1) SSH_PREFIX"
    using Suc.prems(2) Cons_nth_drop_Suc [of n SSH_PREFIX] by simp
  have b: "consume_byte rv (SSH_PREFIX ! n) = Inr ?rv"
    using Suc.prems Suc.hyps(2) by (simp add: consume_byte_Start)
  have "\<exists>rv'. consume ?rv (drop (n + 1) SSH_PREFIX) = Inr (8 - (n + 1), rv') \<and> st rv' = VFillSSH 8
     \<and> take 8 (storage rv') = SSH_PREFIX \<and> same_counts ?rv rv'"
    using Suc.prems Suc.hyps(2)
    by (intro Suc.hyps(1)) (auto simp: take_Suc_update take_Suc_conv_app_nth MAX_REMOTE_VERSION_LEN_def)
  then obtain rv' where "consume ?rv (drop (n + 1) SSH_PREFIX) = Inr (8 - (n + 1), rv')"
    "st rv' = VFillSSH 8" "take 8 (storage rv') = SSH_PREFIX" "same_counts ?rv rv'" by blast
  moreover from consume_Cons [OF _ b this(1)] Suc.prems have
    "consume rv (drop n SSH_PREFIX) = Inr (8 - n, rv')" by (simp add: d Suc_diff_Suc)
  ultimately show ?case by (simp add: same_counts_def)
qed

lemma consume_body:
  assumes "st rv = VFillSSH n" "CR \<notin> set body" "LF \<notin> set body" "n + length body \<le> length (storage rv)"
  shows "\<exists>rv'. consume rv body = Inr (length body, rv') \<and> st rv' = VFillSSH (n + length body)
     \<and> take (n + length body) (storage rv') = take n (storage rv) @ body \<and> same_counts rv rv'"
  using assms
proof (induction body arbitrary: n rv)
  case Nil
  then show ?case by (simp add: consume_def same_counts_def)
next
  case (Cons b body)
  let ?rv = "rv\<lparr>storage := (storage rv)[n := b], st := VFillSSH (n + 1)\<rparr>"
  have b: "consume_byte rv b = Inr ?rv"
    using Cons.prems by (auto simp: consume_byte_def store_byte_def)
  from Cons.IH [of ?rv "n + 1"] Cons.prems obtain rv' where
    "consume ?rv body = Inr (length body, rv')" "st rv' = VFillSSH (n + 1 + length body)"
    "take (n + 1 + length body) (storage rv') = take (n + 1) (storage ?rv) @ body" "same_counts ?rv rv'"
    by auto
  with consume_Cons [OF _ b this(1)] Cons.prems show ?case
    by (auto simp: same_counts_def take_Suc_update)
qed

definition version_line :: "bytes \<Rightarrow> bool" where
  "version_line v \<longleftrightarrow> version_shape v \<and> list_all (\<lambda>x. x < 0x80) v"

lemma consume_version_line:
  assumes "st rv = VStart 0" "length (storage rv) = MAX_REMOTE_VERSION_LEN" "version_line v"
  shows "\<exists>rv'. consume rv (v @ [CR, LF] @ rest) = Inr (length v + 2, rv') \<and> version rv' = Inr (Some v)"
proof -
  define body where "body = drop 8 v"
  have v: "v = SSH_PREFIX @ body"
    using assms(3) by (metis append_take_drop_id body_def version_line_def version_shape_def)
  have body: "CR \<notin> set body" "LF \<notin> set body" "8 + length body \<le> MAX_REMOTE_VERSION_LEN"
    "list_all (\<lambda>x. x < 0x80) v"
    using assms(3) unfolding v version_line_def version_shape_def by auto
  from consume_prefix [of rv 0] assms obtain r1 where r1: "consume rv SSH_PREFIX = Inr (8, r1)"
    "st r1 = VFillSSH 8" "take 8 (storage r1) = SSH_PREFIX" "same_counts rv r1" by auto
  from consume_body [of r1 8 body] r1 body assms(2) obtain r2 where
    r2: "consume r1 body = Inr (length body, r2)" "st r2 = VFillSSH (8 + length body)"
    "take (8 + length body) (storage r2) = v" "same_counts r1 r2"
    by (auto simp: same_counts_def v)
  have len: "8 + length body \<le> length (storage r2)"
    using r1(4) r2(4) assms(2) body(3) by (simp add: same_counts_def)
  have "consume r2 ([CR, LF] @ rest) = Inr (2, r2\<lparr>st := VDone (8 + length body)\<rparr>)"
    using r2(2,3) body(4) len
    by (simp add: consume_def consume_byte_def panic_option_def slice_take consume_loop_done CR_def LF_def)
  then show ?thesis
    using r1(1) r2(1,3) len
    by (simp add: v consume_append version_def panic_option_def slice_take)
qed

text \<open>A line a client skips: it is neither the beginning of the prefix nor continues it.\<close>

definition skipped_line :: "bytes \<Rightarrow> bool" where
  "skipped_line l \<longleftrightarrow> LF \<notin> set l \<and> take (length l) SSH_PREFIX \<noteq> take 8 l"

lemma consume_discarding:
  "st rv = VDiscarding \<Longrightarrow> LF \<notin> set l \<Longrightarrow> consume rv l = Inr (length l, rv)"
proof (induction l)
  case (Cons b l)
  then have "consume_byte rv b = Inr rv" by (auto simp: consume_byte_def)
  with Cons show ?case by (auto intro: consume_Cons)
qed (simp add: consume_def)

lemma consume_mismatch:
  assumes "st rv = VStart n" "n < 8" "length (storage rv) = MAX_REMOTE_VERSION_LEN"
    and "take n (storage rv) = take n SSH_PREFIX"
    and "LF \<notin> set l" "take (length l) (drop n SSH_PREFIX) \<noteq> take (8 - n) l"
  shows "\<exists>rv'. consume rv l = Inr (length l, rv') \<and> st rv' = VDiscarding \<and> same_counts rv rv'"
  using assms
proof (induction l arbitrary: n rv)
  case (Cons b l)
  have d: "drop n SSH_PREFIX = SSH_PREFIX ! n # drop (n + 1) SSH_PREFIX"
    using Cons.prems(2) Cons_nth_drop_Suc [of n SSH_PREFIX] by simp
  have t: "take (8 - n) (b # l) = b # take (8 - (n + 1)) l"
    using Suc_diff_Suc [OF Cons.prems(2)] by (metis Suc_eq_plus1 take_Suc_Cons)
  show ?case
  proof (cases "b = SSH_PREFIX ! n")
    case False
    let ?rv = "rv\<lparr>storage := (storage rv)[n := b], st := VDiscarding\<rparr>"
    have b: "consume_byte rv b = Inr ?rv"
      using Cons.prems False by (simp add: consume_byte_Start)
    from consume_Cons [OF _ b consume_discarding, of l] Cons.prems show ?thesis
      by (simp add: same_counts_def)
  next
    case True
    let ?rv = "rv\<lparr>storage := (storage rv)[n := b], st := VStart (n + 1)\<rparr>"
    have ne: "take (length l) (drop (n + 1) SSH_PREFIX) \<noteq> take (8 - (n + 1)) l"
      using Cons.prems(6) True unfolding d t by simp
    then have n: "n < 7" using Cons.prems(2) by (cases "n = 7") auto
    have b: "consume_byte rv b = Inr ?rv"
      using Cons.prems True n by (simp add: consume_byte_Start)
    from Cons.IH [of ?rv "n + 1"] Cons.prems n ne True obtain rv' where
      "consume ?rv l = Inr (length l, rv')" "st rv' = VDiscarding" "same_counts ?rv rv'"
      by (auto simp: take_Suc_update take_Suc_conv_app_nth MAX_REMOTE_VERSION_LEN_def)
    with consume_Cons [OF _ b this(1)] Cons.prems show ?thesis by (auto simp: same_counts_def)
  qed
qed simp


lemma consume_skipped_lines:
  assumes "st rv = VStart 0" "length (storage rv) = MAX_REMOTE_VERSION_LEN" "list_all skipped_line ls"
    and "ls = [] \<or> rv_is_client rv" "num_lines rv + length ls \<le> MAX_LINES"
  shows "\<exists>rv'. consume rv (concat (map (\<lambda>l. l @ [LF]) ls)) =
             Inr (length (concat (map (\<lambda>l. l @ [LF]) ls)), rv')
     \<and> st rv' = VStart 0 \<and> length (storage rv') = MAX_REMOTE_VERSION_LEN"
  using assms
proof (induction ls arbitrary: rv)
  case (Cons l ls)
  from consume_mismatch [of rv 0 l] Cons.prems obtain r1 where
    r1: "consume rv l = Inr (length l, r1)" "st r1 = VDiscarding" "same_counts rv r1"
    by (auto simp: skipped_line_def)
  let ?r2 = "r1\<lparr>st := VStart 0, num_lines := num_lines r1 + 1\<rparr>"
  have r2: "consume r1 [LF] = Inr (1, ?r2)"
    using r1 Cons.prems by (auto simp: consume_def consume_byte_def same_counts_def)
  from Cons.IH [of ?r2] Cons.prems r1(3) obtain r3 where
    "consume ?r2 (concat (map (\<lambda>l. l @ [LF]) ls)) = Inr (length (concat (map (\<lambda>l. l @ [LF]) ls)), r3)"
    "st r3 = VStart 0" "length (storage r3) = MAX_REMOTE_VERSION_LEN"
    by (auto simp: same_counts_def)
  with r1(1) r2 show ?case
    using consume_append [of r1 "[LF]"] by (simp add: consume_append)
qed (simp add: consume_def)

lemma consume_accepts:
  assumes "version_line v" "list_all skipped_line ls" "length ls \<le> MAX_LINES" "ls = [] \<or> client"
  defines "hello \<equiv> concat (map (\<lambda>l. l @ [LF]) ls) @ v @ [CR, LF]"
  shows "\<exists>rv. consume (remote_version_new client) (hello @ rest) = Inr (length hello, rv)
     \<and> version rv = Inr (Some v)"
proof -
  from consume_skipped_lines [of "remote_version_new client" ls] assms(2-4) obtain r1 where
    r1: "consume (remote_version_new client) (concat (map (\<lambda>l. l @ [LF]) ls)) =
             Inr (length (concat (map (\<lambda>l. l @ [LF]) ls)), r1)"
    "st r1 = VStart 0" "length (storage r1) = MAX_REMOTE_VERSION_LEN"
    by (auto simp: remote_version_new_def)
  from consume_version_line [OF r1(2,3) assms(1), of rest] obtain r2 where
    "consume r1 (v @ [CR, LF] @ rest) = Inr (length v + 2, r2)" "version r2 = Inr (Some v)" by auto
  with r1(1) show ?thesis by (simp add: hello_def consume_append)
qed

lemma consume_sound:
  assumes "consume (remote_version_new client) bs = Inr (n, rv)" "version rv = Inr (Some v)"
  shows "version_line v \<and> n \<le> length bs \<and> (\<exists>pre. take n bs = pre @ v @ [CR, LF] \<and> line_start client pre)"
proof -
  have i: "n \<le> length bs" "rv_inv (take n bs) rv" "rv_is_client rv = client"
    using consume_inv [OF rv_inv_new [of client], of bs] assms(1) by (simp_all add: remote_version_new_def)
  from assms(2) i(2) obtain k where k: "st rv = VDone k" "v = take k (storage rv)"
    by (auto simp: version_def panic_option_def slice_def rv_inv_def and_then_Inr_eq
        split: vers_pars.splits)
  with i show ?thesis
    by (auto simp: rv_inv_def version_line_def read_so_far_def)
qed

text \<open>
  A line feed in the \<open>Start\<close> state is a mismatch like any other byte, so it starts discarding and the
  line after it is dropped too: an empty line hides the next line.
\<close>

lemma consume_empty_line:
  assumes "LF \<notin> set l"
  shows "\<exists>rv. consume (remote_version_new True) ([LF] @ l @ [LF]) = Inr (length l + 2, rv)
     \<and> version rv = Inr None \<and> st rv = VStart 0"
proof -
  let ?r0 = "remote_version_new True"
  let ?r1 = "?r0\<lparr>storage := (storage ?r0)[0 := LF], st := VDiscarding\<rparr>"
  have "SSH_PREFIX ! 0 \<noteq> LF"
    using SSH_PREFIX_no_eol nth_mem [of 0 SSH_PREFIX] by force
  then have r1: "consume ?r0 [LF] = Inr (1, ?r1)"
    by (simp add: consume_def consume_byte_Start [of _ 0] remote_version_new_def)
  have "consume ?r1 l = Inr (length l, ?r1)"
    by (rule consume_discarding) (simp_all add: assms)
  moreover have "consume ?r1 [LF] = Inr (1, ?r1\<lparr>st := VStart 0, num_lines := 1\<rparr>)"
    by (simp add: consume_def consume_byte_def remote_version_new_def MAX_LINES_def)
  ultimately show ?thesis
    using r1 by (simp add: consume_append version_def del: append_Cons)
qed

lemma write_version_accepted:
  assumes "write_version buf = Inr (n, buf')"
  shows "\<exists>rv. consume (remote_version_new client) (take n buf' @ rest) = Inr (n, rv)
     \<and> version rv = Inr (Some OUR_VERSION)"
proof -
  have "version_line OUR_VERSION"
    by (simp add: version_line_def version_shape_def OUR_VERSION_def SSH_PREFIX_def str_bytes_def
        byte_of_char_def CR_def LF_def MAX_REMOTE_VERSION_LEN_def)
  from consume_accepts [OF this, of "[]" client rest] assms show ?thesis
    by (auto simp: write_version_def Let_def overwrite_def split: if_splits)
qed

end
