(* ===== verification/SSH_Packets.thy ===== *)
theory SSH_Packets
  imports SSH_Names
begin

section \<open>Packets\<close>

text \<open>
  The packet types of \<open>src/src/packets.rs\<close> with the encoders and decoders that
  \<open>src/sshwire-derive/src/lib.rs\<close> generates for them from the \<open>sshwire\<close> attributes, in the build
  without the \<open>rsa\<close> and \<open>ecdsa256\<close> features.

  A derived \<open>enc\<close> writes the fields in order, with the name of an enum field in front of the field
  that carries \<open>variant_name\<close>; \<open>variant_prefix\<close> writes it in front of the enum itself. A derived
  \<open>dec\<close> reads them back, and an unknown name sets \<open>seen_unknown\<close> and is captured.

  The main result is \<open>packet_roundtrip\<close>: \<open>packet_from_bytes\<close> of an encoded packet is that
  packet. A \<open>LocalNames\<close> list arrives as the string with the same names (\<open>received\<close>).
\<close>

subsection \<open>Types\<close>

record kex_init =
  ki_cookie :: bytes
  ki_kex :: name_list
  ki_hostsig :: name_list
  ki_cipher_c2s :: name_list
  ki_cipher_s2c :: name_list
  ki_mac_c2s :: name_list
  ki_mac_s2c :: name_list
  ki_comp_c2s :: name_list
  ki_comp_s2c :: name_list
  ki_lang_c2s :: name_list
  ki_lang_s2c :: name_list
  ki_first_follows :: bool
  ki_reserved :: u32

datatype pub_key =
    PubKeyEd25519 bytes
  | PubKeySkEd25519 bytes bytes
  | PubKeyUnknown bytes

datatype signature =
    SigEd25519 bytes
  | SigSkEd25519 bytes u8 u32
  | SigUnknown bytes

record method_pub_key =
  mpk_sig_algo :: string
  mpk_pubkey :: pub_key
  mpk_sig :: "signature option"
  mpk_force_sig :: bool

datatype auth_method =
    MethodPassword (change: bool) (password: bytes)
  | MethodPubKey method_pub_key
  | MethodNone
  | MethodUnknown bytes

datatype userauth60 =
    PkOk (algo: string) (pkok_key: pub_key)
  | PwChangeReq (prompt: bytes) (pwc_lang: bytes)

datatype channel_open_type =
    OpenSession
  | ForwardedTcpip bytes u32 bytes u32
  | DirectTcpip bytes u32 bytes u32
  | OpenUnknown bytes

datatype channel_req_type =
    Shell
  | Exec bytes
  | PtyReq bytes u32 u32 u32 u32 bytes
  | Subsystem bytes
  | WinChange u32 u32 u32 u32
  | Environment bytes bytes
  | Signal string
  | ExitStatus u32
  | ExitSignal string bool bytes string
  | Break u32
  | ReqUnknown bytes

datatype global_request_method = GlobalUnknown bytes

datatype packet =
    Disconnect u32 bytes string
  | Ignore bytes
  | Unimplemented u32
  | DebugPacket bool bytes string
  | ServiceRequest string
  | ServiceAccept string
  | ExtInfo "name_list option"
  | KexInit kex_init
  | NewKeys
  | KexDHInit bytes
  | KexDHReply pub_key bytes signature
  | UserauthRequest bytes string auth_method
  | UserauthFailure name_list bool
  | UserauthSuccess
  | UserauthBanner bytes bytes
  | Userauth60 userauth60
  | GlobalRequest bool global_request_method
  | RequestSuccess
  | RequestFailure
  | ChannelOpen u32 u32 u32 channel_open_type
  | ChannelOpenConfirmation u32 u32 u32 u32
  | ChannelOpenFailure u32 u32 bytes string
  | ChannelWindowAdjust u32 u32
  | ChannelData u32 bytes
  | ChannelDataExt u32 u32 bytes
  | ChannelEof u32
  | ChannelClose u32
  | ChannelRequest u32 bool channel_req_type
  | ChannelSuccess u32
  | ChannelFailure u32

datatype category = CatAll | CatKex | CatAuth | CatSess

fun message_num :: "packet \<Rightarrow> message_number" where
  "message_num (Disconnect _ _ _) = SSH_MSG_DISCONNECT"
| "message_num (Ignore _) = SSH_MSG_IGNORE"
| "message_num (Unimplemented _) = SSH_MSG_UNIMPLEMENTED"
| "message_num (DebugPacket _ _ _) = SSH_MSG_DEBUG"
| "message_num (ServiceRequest _) = SSH_MSG_SERVICE_REQUEST"
| "message_num (ServiceAccept _) = SSH_MSG_SERVICE_ACCEPT"
| "message_num (ExtInfo _) = SSH_MSG_EXT_INFO"
| "message_num (KexInit _) = SSH_MSG_KEXINIT"
| "message_num NewKeys = SSH_MSG_NEWKEYS"
| "message_num (KexDHInit _) = SSH_MSG_KEXDH_INIT"
| "message_num (KexDHReply _ _ _) = SSH_MSG_KEXDH_REPLY"
| "message_num (UserauthRequest _ _ _) = SSH_MSG_USERAUTH_REQUEST"
| "message_num (UserauthFailure _ _) = SSH_MSG_USERAUTH_FAILURE"
| "message_num UserauthSuccess = SSH_MSG_USERAUTH_SUCCESS"
| "message_num (UserauthBanner _ _) = SSH_MSG_USERAUTH_BANNER"
| "message_num (Userauth60 _) = SSH_MSG_USERAUTH_60"
| "message_num (GlobalRequest _ _) = SSH_MSG_GLOBAL_REQUEST"
| "message_num RequestSuccess = SSH_MSG_REQUEST_SUCCESS"
| "message_num RequestFailure = SSH_MSG_REQUEST_FAILURE"
| "message_num (ChannelOpen _ _ _ _) = SSH_MSG_CHANNEL_OPEN"
| "message_num (ChannelOpenConfirmation _ _ _ _) = SSH_MSG_CHANNEL_OPEN_CONFIRMATION"
| "message_num (ChannelOpenFailure _ _ _ _) = SSH_MSG_CHANNEL_OPEN_FAILURE"
| "message_num (ChannelWindowAdjust _ _) = SSH_MSG_CHANNEL_WINDOW_ADJUST"
| "message_num (ChannelData _ _) = SSH_MSG_CHANNEL_DATA"
| "message_num (ChannelDataExt _ _ _) = SSH_MSG_CHANNEL_EXTENDED_DATA"
| "message_num (ChannelEof _) = SSH_MSG_CHANNEL_EOF"
| "message_num (ChannelClose _) = SSH_MSG_CHANNEL_CLOSE"
| "message_num (ChannelRequest _ _ _) = SSH_MSG_CHANNEL_REQUEST"
| "message_num (ChannelSuccess _) = SSH_MSG_CHANNEL_SUCCESS"
| "message_num (ChannelFailure _) = SSH_MSG_CHANNEL_FAILURE"

fun packet_category :: "packet \<Rightarrow> category" where
  "packet_category (Disconnect _ _ _) = CatAll"
| "packet_category (Ignore _) = CatAll"
| "packet_category (Unimplemented _) = CatAll"
| "packet_category (DebugPacket _ _ _) = CatAll"
| "packet_category (ServiceRequest _) = CatAuth"
| "packet_category (ServiceAccept _) = CatAuth"
| "packet_category (ExtInfo _) = CatAll"
| "packet_category (KexInit _) = CatAll"
| "packet_category NewKeys = CatKex"
| "packet_category (KexDHInit _) = CatKex"
| "packet_category (KexDHReply _ _ _) = CatKex"
| "packet_category (UserauthRequest _ _ _) = CatAuth"
| "packet_category (UserauthFailure _ _) = CatAuth"
| "packet_category UserauthSuccess = CatAuth"
| "packet_category (UserauthBanner _ _) = CatAuth"
| "packet_category (Userauth60 _) = CatAuth"
| "packet_category _ = CatSess"

subsection \<open>Encoders\<close>

text \<open>A variant name, or the error of an \<open>Unknown\<close> variant.\<close>

definition enc_variant :: "string wire_result \<Rightarrow> sink_prog" where
  "enc_variant r = (case r of Inl e \<Rightarrow> Fail e | Inr n \<Rightarrow> enc_str n)"

definition enc_kex_init :: "kex_init \<Rightarrow> sink_prog" where
  "enc_kex_init k = enc_all
     [enc_array (ki_cookie k), enc_name_list (ki_kex k), enc_name_list (ki_hostsig k),
      enc_name_list (ki_cipher_c2s k), enc_name_list (ki_cipher_s2c k),
      enc_name_list (ki_mac_c2s k), enc_name_list (ki_mac_s2c k),
      enc_name_list (ki_comp_c2s k), enc_name_list (ki_comp_s2c k),
      enc_name_list (ki_lang_c2s k), enc_name_list (ki_lang_s2c k),
      enc_bool (ki_first_follows k), enc_u32 (ki_reserved k)]"

fun pub_key_variant_name :: "pub_key \<Rightarrow> string wire_result" where
  "pub_key_variant_name (PubKeyEd25519 _) = Inr SSH_NAME_ED25519"
| "pub_key_variant_name (PubKeySkEd25519 _ _) = Inr SSH_NAME_SK_ED25519"
| "pub_key_variant_name (PubKeyUnknown _) = Inl WireEncodeUnknown"

fun enc_pub_key_fields :: "pub_key \<Rightarrow> sink_prog" where
  "enc_pub_key_fields (PubKeyEd25519 key) = enc_blob (enc_array key)"
| "enc_pub_key_fields (PubKeySkEd25519 key application) =
     enc_all [enc_blob (enc_array key), enc_binstring application]"
| "enc_pub_key_fields (PubKeyUnknown _) = Fail WireEncodeUnknown"

definition enc_pub_key :: "pub_key \<Rightarrow> sink_prog" where
  "enc_pub_key k = seq (enc_variant (pub_key_variant_name k)) (enc_pub_key_fields k)"

fun signature_variant_name :: "signature \<Rightarrow> string wire_result" where
  "signature_variant_name (SigEd25519 _) = Inr SSH_NAME_ED25519"
| "signature_variant_name (SigSkEd25519 _ _ _) = Inr SSH_NAME_SK_ED25519"
| "signature_variant_name (SigUnknown _) = Inl WireEncodeUnknown"

fun enc_signature_fields :: "signature \<Rightarrow> sink_prog" where
  "enc_signature_fields (SigEd25519 sig) = enc_binstring sig"
| "enc_signature_fields (SigSkEd25519 sig flags counter) =
     enc_all [enc_binstring sig, enc_u8 flags, enc_u32 counter]"
| "enc_signature_fields (SigUnknown _) = Fail WireEncodeUnknown"

definition enc_signature :: "signature \<Rightarrow> sink_prog" where
  "enc_signature s = seq (enc_variant (signature_variant_name s)) (enc_signature_fields s)"

definition enc_method_pub_key :: "method_pub_key \<Rightarrow> sink_prog" where
  "enc_method_pub_key m =
     (let sig = (mpk_sig m \<noteq> None \<or> mpk_force_sig m) in
      enc_all [enc_bool sig, enc_str (mpk_sig_algo m), enc_blob (enc_pub_key (mpk_pubkey m)),
               enc_option (\<lambda>s. enc_blob (enc_signature s)) (mpk_sig m)])"

fun auth_method_variant_name :: "auth_method \<Rightarrow> string wire_result" where
  "auth_method_variant_name (MethodPassword _ _) = Inr SSH_AUTHMETHOD_PASSWORD"
| "auth_method_variant_name (MethodPubKey _) = Inr SSH_AUTHMETHOD_PUBLICKEY"
| "auth_method_variant_name MethodNone = Inr SSH_NAME_NONE"
| "auth_method_variant_name (MethodUnknown _) = Inl WireEncodeUnknown"

fun enc_auth_method_fields :: "auth_method \<Rightarrow> sink_prog" where
  "enc_auth_method_fields (MethodPassword chg pw) = enc_all [enc_bool chg, enc_textstring pw]"
| "enc_auth_method_fields (MethodPubKey m) = enc_method_pub_key m"
| "enc_auth_method_fields MethodNone = Done"
| "enc_auth_method_fields (MethodUnknown _) = Fail WireEncodeUnknown"

definition enc_auth_method :: "auth_method \<Rightarrow> sink_prog" where
  "enc_auth_method m = seq (enc_variant (auth_method_variant_name m)) (enc_auth_method_fields m)"

fun enc_userauth60 :: "userauth60 \<Rightarrow> sink_prog" where
  "enc_userauth60 (PkOk a k) = enc_all [enc_str a, enc_blob (enc_pub_key k)]"
| "enc_userauth60 (PwChangeReq p l) = enc_all [enc_textstring p, enc_textstring l]"

fun enc_ext_info :: "name_list option \<Rightarrow> sink_prog" where
  "enc_ext_info (Some algs) = enc_all [enc_u32 1, enc_str SSH_EXT_SERVER_SIG_ALGS, enc_name_list algs]"
| "enc_ext_info None = Done"

fun open_type_variant_name :: "channel_open_type \<Rightarrow> string wire_result" where
  "open_type_variant_name OpenSession = Inr ''session''"
| "open_type_variant_name (ForwardedTcpip _ _ _ _) = Inr ''forwarded-tcpip''"
| "open_type_variant_name (DirectTcpip _ _ _ _) = Inr ''direct-tcpip''"
| "open_type_variant_name (OpenUnknown _) = Inl WireEncodeUnknown"

fun enc_open_type :: "channel_open_type \<Rightarrow> sink_prog" where
  "enc_open_type OpenSession = Done"
| "enc_open_type (ForwardedTcpip address port origin origin_port) =
     enc_all [enc_textstring address, enc_u32 port, enc_textstring origin, enc_u32 origin_port]"
| "enc_open_type (DirectTcpip address port origin origin_port) =
     enc_all [enc_textstring address, enc_u32 port, enc_textstring origin, enc_u32 origin_port]"
| "enc_open_type (OpenUnknown _) = Fail WireEncodeUnknown"

fun req_type_variant_name :: "channel_req_type \<Rightarrow> string wire_result" where
  "req_type_variant_name Shell = Inr ''shell''"
| "req_type_variant_name (Exec _) = Inr ''exec''"
| "req_type_variant_name (PtyReq _ _ _ _ _ _) = Inr ''pty-req''"
| "req_type_variant_name (Subsystem _) = Inr ''subsystem''"
| "req_type_variant_name (WinChange _ _ _ _) = Inr ''window-change''"
| "req_type_variant_name (Environment _ _) = Inr ''env''"
| "req_type_variant_name (Signal _) = Inr ''signal''"
| "req_type_variant_name (ExitStatus _) = Inr ''exit-status''"
| "req_type_variant_name (ExitSignal _ _ _ _) = Inr ''exit-signal''"
| "req_type_variant_name (Break _) = Inr ''break''"
| "req_type_variant_name (ReqUnknown _) = Inl WireEncodeUnknown"

fun enc_req_type :: "channel_req_type \<Rightarrow> sink_prog" where
  "enc_req_type Shell = Done"
| "enc_req_type (Exec command) = enc_textstring command"
| "enc_req_type (PtyReq term cols rows width height modes) =
     enc_all [enc_textstring term, enc_u32 cols, enc_u32 rows, enc_u32 width, enc_u32 height,
              enc_binstring modes]"
| "enc_req_type (Subsystem subsystem) = enc_textstring subsystem"
| "enc_req_type (WinChange cols rows width height) =
     enc_all [enc_u32 cols, enc_u32 rows, enc_u32 width, enc_u32 height]"
| "enc_req_type (Environment name val) = enc_all [enc_textstring name, enc_textstring val]"
| "enc_req_type (Signal sig) = enc_str sig"
| "enc_req_type (ExitStatus status) = enc_u32 status"
| "enc_req_type (ExitSignal signal core error lang) =
     enc_all [enc_str signal, enc_bool core, enc_textstring error, enc_str lang]"
| "enc_req_type (Break len) = enc_u32 len"
| "enc_req_type (ReqUnknown _) = Fail WireEncodeUnknown"

fun global_request_variant_name :: "global_request_method \<Rightarrow> string wire_result" where
  "global_request_variant_name (GlobalUnknown _) = Inl WireEncodeUnknown"

fun enc_global_request_method :: "global_request_method \<Rightarrow> sink_prog" where
  "enc_global_request_method (GlobalUnknown _) = Fail WireEncodeUnknown"

fun enc_packet_fields :: "packet \<Rightarrow> sink_prog" where
  "enc_packet_fields (Disconnect reason desc lang) =
     enc_all [enc_u32 reason, enc_textstring desc, enc_str lang]"
| "enc_packet_fields (Ignore d) = enc_binstring d"
| "enc_packet_fields (Unimplemented sq) = enc_u32 sq"
| "enc_packet_fields (DebugPacket always_display message lang) =
     enc_all [enc_bool always_display, enc_textstring message, enc_str lang]"
| "enc_packet_fields (ServiceRequest name) = enc_str name"
| "enc_packet_fields (ServiceAccept name) = enc_str name"
| "enc_packet_fields (ExtInfo server_sig_algs) = enc_ext_info server_sig_algs"
| "enc_packet_fields (KexInit k) = enc_kex_init k"
| "enc_packet_fields NewKeys = Done"
| "enc_packet_fields (KexDHInit q_c) = enc_binstring q_c"
| "enc_packet_fields (KexDHReply k_s q_s sig) =
     enc_all [enc_blob (enc_pub_key k_s), enc_binstring q_s, enc_blob (enc_signature sig)]"
| "enc_packet_fields (UserauthRequest username service m) =
     enc_all [enc_textstring username, enc_str service, enc_auth_method m]"
| "enc_packet_fields (UserauthFailure methods partial) =
     enc_all [enc_name_list methods, enc_bool partial]"
| "enc_packet_fields UserauthSuccess = Done"
| "enc_packet_fields (UserauthBanner message lang) =
     enc_all [enc_textstring message, enc_textstring lang]"
| "enc_packet_fields (Userauth60 u) = enc_userauth60 u"
| "enc_packet_fields (GlobalRequest want_reply req) =
     enc_all [enc_variant (global_request_variant_name req), enc_bool want_reply,
              enc_global_request_method req]"
| "enc_packet_fields RequestSuccess = Done"
| "enc_packet_fields RequestFailure = Done"
| "enc_packet_fields (ChannelOpen sender_num initial_window max_packet ty) =
     enc_all [enc_variant (open_type_variant_name ty), enc_u32 sender_num, enc_u32 initial_window,
              enc_u32 max_packet, enc_open_type ty]"
| "enc_packet_fields (ChannelOpenConfirmation num sender_num initial_window max_packet) =
     enc_all [enc_u32 num, enc_u32 sender_num, enc_u32 initial_window, enc_u32 max_packet]"
| "enc_packet_fields (ChannelOpenFailure num reason desc lang) =
     enc_all [enc_u32 num, enc_u32 reason, enc_textstring desc, enc_str lang]"
| "enc_packet_fields (ChannelWindowAdjust num adjust) = enc_all [enc_u32 num, enc_u32 adjust]"
| "enc_packet_fields (ChannelData num d) = enc_all [enc_u32 num, enc_binstring d]"
| "enc_packet_fields (ChannelDataExt num code d) = enc_all [enc_u32 num, enc_u32 code, enc_binstring d]"
| "enc_packet_fields (ChannelEof num) = enc_u32 num"
| "enc_packet_fields (ChannelClose num) = enc_u32 num"
| "enc_packet_fields (ChannelRequest num want_reply req) =
     enc_all [enc_u32 num, enc_variant (req_type_variant_name req), enc_bool want_reply, enc_req_type req]"
| "enc_packet_fields (ChannelSuccess num) = enc_u32 num"
| "enc_packet_fields (ChannelFailure num) = enc_u32 num"

definition enc_packet :: "packet \<Rightarrow> sink_prog" where
  "enc_packet p = seq (enc_u8 (message_number_u8 (message_num p))) (enc_packet_fields p)"


subsection \<open>Decoders\<close>

text \<open>\<open>match try_as_ascii_str(variant).ok() { Some(NAME) => ...\<close>\<close>

definition is_variant :: "bytes \<Rightarrow> string \<Rightarrow> bool" where
  "is_variant v name = (try_as_ascii v = Inr name)"

text \<open>The arm of the \<open>unknown\<close> variant.\<close>

definition dec_unknown :: "'a \<Rightarrow> 'a decoder" where
  "dec_unknown u = dec_bind set_seen_unknown (\<lambda>_. dec_return u)"

definition dec_kex_init :: "kex_init decoder" where
  "dec_kex_init =
     dec_bind (dec_array 16) (\<lambda>cookie.
     dec_bind dec_name_list (\<lambda>kex.
     dec_bind dec_name_list (\<lambda>hostsig.
     dec_bind dec_name_list (\<lambda>cipher_c2s.
     dec_bind dec_name_list (\<lambda>cipher_s2c.
     dec_bind dec_name_list (\<lambda>mac_c2s.
     dec_bind dec_name_list (\<lambda>mac_s2c.
     dec_bind dec_name_list (\<lambda>comp_c2s.
     dec_bind dec_name_list (\<lambda>comp_s2c.
     dec_bind dec_name_list (\<lambda>lang_c2s.
     dec_bind dec_name_list (\<lambda>lang_s2c.
     dec_bind dec_bool (\<lambda>first_follows.
     dec_bind dec_u32 (\<lambda>reserved.
     dec_return \<lparr>ki_cookie = cookie, ki_kex = kex, ki_hostsig = hostsig,
       ki_cipher_c2s = cipher_c2s, ki_cipher_s2c = cipher_s2c, ki_mac_c2s = mac_c2s,
       ki_mac_s2c = mac_s2c, ki_comp_c2s = comp_c2s, ki_comp_s2c = comp_s2c,
       ki_lang_c2s = lang_c2s, ki_lang_s2c = lang_s2c, ki_first_follows = first_follows,
       ki_reserved = reserved\<rparr>)))))))))))))"

definition dec_pub_key_enum :: "bytes \<Rightarrow> pub_key decoder" where
  "dec_pub_key_enum v =
     (if is_variant v SSH_NAME_ED25519 then
        dec_bind (dec_blob (dec_array 32)) (\<lambda>key. dec_return (PubKeyEd25519 key))
      else if is_variant v SSH_NAME_SK_ED25519 then
        dec_bind (dec_blob (dec_array 32)) (\<lambda>key.
        dec_bind dec_binstring (\<lambda>application. dec_return (PubKeySkEd25519 key application)))
      else dec_unknown (PubKeyUnknown v))"

definition dec_pub_key :: "pub_key decoder" where
  "dec_pub_key = dec_bind dec_binstring dec_pub_key_enum"

definition dec_signature_enum :: "bytes \<Rightarrow> signature decoder" where
  "dec_signature_enum v =
     (if is_variant v SSH_NAME_ED25519 then
        dec_bind dec_binstring (\<lambda>sig. dec_return (SigEd25519 sig))
      else if is_variant v SSH_NAME_SK_ED25519 then
        dec_bind dec_binstring (\<lambda>sig.
        dec_bind dec_u8 (\<lambda>flags.
        dec_bind dec_u32 (\<lambda>counter. dec_return (SigSkEd25519 sig flags counter))))
      else dec_unknown (SigUnknown v))"

definition dec_signature :: "signature decoder" where
  "dec_signature = dec_bind dec_binstring dec_signature_enum"

definition dec_method_pub_key :: "method_pub_key decoder" where
  "dec_method_pub_key =
     dec_bind dec_bool (\<lambda>has_sig.
     dec_bind dec_str (\<lambda>sig_algo.
     dec_bind (dec_blob dec_pub_key) (\<lambda>pubkey.
     dec_bind (if has_sig then dec_bind (dec_blob dec_signature) (\<lambda>s. dec_return (Some s))
               else dec_return None) (\<lambda>sig.
     dec_return \<lparr>mpk_sig_algo = sig_algo, mpk_pubkey = pubkey, mpk_sig = sig,
                 mpk_force_sig = False\<rparr>))))"

definition dec_auth_method_enum :: "bytes \<Rightarrow> auth_method decoder" where
  "dec_auth_method_enum v =
     (if is_variant v SSH_AUTHMETHOD_PASSWORD then
        dec_bind dec_bool (\<lambda>chg.
        dec_bind dec_textstring (\<lambda>pw. dec_return (MethodPassword chg pw)))
      else if is_variant v SSH_AUTHMETHOD_PUBLICKEY then
        dec_bind dec_method_pub_key (\<lambda>m. dec_return (MethodPubKey m))
      else if is_variant v SSH_NAME_NONE then dec_return MethodNone
      else dec_unknown (MethodUnknown v))"

definition dec_auth_method :: "auth_method decoder" where
  "dec_auth_method = dec_bind dec_binstring dec_auth_method_enum"

definition dec_userauth60 :: "userauth60 decoder" where
  "dec_userauth60 =
     dec_bind get_ctx (\<lambda>ctx.
       case cli_auth_type ctx of
         Some AuthPassword \<Rightarrow>
           dec_bind dec_textstring (\<lambda>p. dec_bind dec_textstring (\<lambda>l. dec_return (PwChangeReq p l)))
       | Some AuthPubKey \<Rightarrow>
           dec_bind dec_str (\<lambda>a. dec_bind (dec_blob dec_pub_key) (\<lambda>k. dec_return (PkOk a k)))
       | None \<Rightarrow> dec_fail WirePacketWrong)"

primrec dec_ext_info_loop :: "nat \<Rightarrow> name_list option \<Rightarrow> name_list option decoder" where
  "dec_ext_info_loop 0 server_sig_algs = dec_return server_sig_algs"
| "dec_ext_info_loop (Suc n) server_sig_algs =
     dec_bind dec_str (\<lambda>ext.
       if ext = SSH_EXT_SERVER_SIG_ALGS then
         dec_bind dec_name_list (\<lambda>algs. dec_ext_info_loop n (Some algs))
       else dec_bind dec_binstring (\<lambda>_. dec_ext_info_loop n server_sig_algs))"

definition dec_ext_info :: "name_list option decoder" where
  "dec_ext_info = dec_bind dec_u32 (\<lambda>num. dec_ext_info_loop (unat num) None)"

definition dec_open_type :: "bytes \<Rightarrow> channel_open_type decoder" where
  "dec_open_type v =
     (if is_variant v ''session'' then dec_return OpenSession
      else if is_variant v ''forwarded-tcpip'' then
        dec_bind dec_textstring (\<lambda>address. dec_bind dec_u32 (\<lambda>port.
        dec_bind dec_textstring (\<lambda>origin. dec_bind dec_u32 (\<lambda>origin_port.
        dec_return (ForwardedTcpip address port origin origin_port)))))
      else if is_variant v ''direct-tcpip'' then
        dec_bind dec_textstring (\<lambda>address. dec_bind dec_u32 (\<lambda>port.
        dec_bind dec_textstring (\<lambda>origin. dec_bind dec_u32 (\<lambda>origin_port.
        dec_return (DirectTcpip address port origin origin_port)))))
      else dec_unknown (OpenUnknown v))"

definition dec_req_type :: "bytes \<Rightarrow> channel_req_type decoder" where
  "dec_req_type v =
     (if is_variant v ''shell'' then dec_return Shell
      else if is_variant v ''exec'' then dec_bind dec_textstring (\<lambda>c. dec_return (Exec c))
      else if is_variant v ''pty-req'' then
        dec_bind dec_textstring (\<lambda>term. dec_bind dec_u32 (\<lambda>cols. dec_bind dec_u32 (\<lambda>rows.
        dec_bind dec_u32 (\<lambda>width. dec_bind dec_u32 (\<lambda>height. dec_bind dec_binstring (\<lambda>modes.
        dec_return (PtyReq term cols rows width height modes)))))))
      else if is_variant v ''subsystem'' then dec_bind dec_textstring (\<lambda>s. dec_return (Subsystem s))
      else if is_variant v ''window-change'' then
        dec_bind dec_u32 (\<lambda>cols. dec_bind dec_u32 (\<lambda>rows.
        dec_bind dec_u32 (\<lambda>width. dec_bind dec_u32 (\<lambda>height.
        dec_return (WinChange cols rows width height)))))
      else if is_variant v ''env'' then
        dec_bind dec_textstring (\<lambda>name. dec_bind dec_textstring (\<lambda>val.
        dec_return (Environment name val)))
      else if is_variant v ''signal'' then dec_bind dec_str (\<lambda>s. dec_return (Signal s))
      else if is_variant v ''exit-status'' then dec_bind dec_u32 (\<lambda>s. dec_return (ExitStatus s))
      else if is_variant v ''exit-signal'' then
        dec_bind dec_str (\<lambda>signal. dec_bind dec_bool (\<lambda>core.
        dec_bind dec_textstring (\<lambda>error. dec_bind dec_str (\<lambda>lang.
        dec_return (ExitSignal signal core error lang)))))
      else if is_variant v ''break'' then dec_bind dec_u32 (\<lambda>l. dec_return (Break l))
      else dec_unknown (ReqUnknown v))"

definition dec_global_request_method :: "bytes \<Rightarrow> global_request_method decoder" where
  "dec_global_request_method v = dec_unknown (GlobalUnknown v)"

text \<open>One arm of \<open>Packet::dec\<close> per message number.\<close>

fun dec_packet_fields :: "message_number \<Rightarrow> packet decoder" where
  "dec_packet_fields SSH_MSG_DISCONNECT =
     dec_bind dec_u32 (\<lambda>reason. dec_bind dec_textstring (\<lambda>desc. dec_bind dec_str (\<lambda>lang.
     dec_return (Disconnect reason desc lang))))"
| "dec_packet_fields SSH_MSG_IGNORE = dec_bind dec_binstring (\<lambda>d. dec_return (Ignore d))"
| "dec_packet_fields SSH_MSG_UNIMPLEMENTED = dec_bind dec_u32 (\<lambda>sq. dec_return (Unimplemented sq))"
| "dec_packet_fields SSH_MSG_DEBUG =
     dec_bind dec_bool (\<lambda>always_display. dec_bind dec_textstring (\<lambda>message. dec_bind dec_str (\<lambda>lang.
     dec_return (DebugPacket always_display message lang))))"
| "dec_packet_fields SSH_MSG_SERVICE_REQUEST = dec_bind dec_str (\<lambda>n. dec_return (ServiceRequest n))"
| "dec_packet_fields SSH_MSG_SERVICE_ACCEPT = dec_bind dec_str (\<lambda>n. dec_return (ServiceAccept n))"
| "dec_packet_fields SSH_MSG_EXT_INFO = dec_bind dec_ext_info (\<lambda>e. dec_return (ExtInfo e))"
| "dec_packet_fields SSH_MSG_KEXINIT = dec_bind dec_kex_init (\<lambda>k. dec_return (KexInit k))"
| "dec_packet_fields SSH_MSG_NEWKEYS = dec_return NewKeys"
| "dec_packet_fields SSH_MSG_KEXDH_INIT = dec_bind dec_binstring (\<lambda>q. dec_return (KexDHInit q))"
| "dec_packet_fields SSH_MSG_KEXDH_REPLY =
     dec_bind (dec_blob dec_pub_key) (\<lambda>k_s. dec_bind dec_binstring (\<lambda>q_s.
     dec_bind (dec_blob dec_signature) (\<lambda>sig. dec_return (KexDHReply k_s q_s sig))))"
| "dec_packet_fields SSH_MSG_USERAUTH_REQUEST =
     dec_bind dec_textstring (\<lambda>username. dec_bind dec_str (\<lambda>service. dec_bind dec_auth_method (\<lambda>m.
     dec_return (UserauthRequest username service m))))"
| "dec_packet_fields SSH_MSG_USERAUTH_FAILURE =
     dec_bind dec_name_list (\<lambda>methods. dec_bind dec_bool (\<lambda>partial.
     dec_return (UserauthFailure methods partial)))"
| "dec_packet_fields SSH_MSG_USERAUTH_SUCCESS = dec_return UserauthSuccess"
| "dec_packet_fields SSH_MSG_USERAUTH_BANNER =
     dec_bind dec_textstring (\<lambda>message. dec_bind dec_textstring (\<lambda>lang.
     dec_return (UserauthBanner message lang)))"
| "dec_packet_fields SSH_MSG_USERAUTH_60 = dec_bind dec_userauth60 (\<lambda>u. dec_return (Userauth60 u))"
| "dec_packet_fields SSH_MSG_GLOBAL_REQUEST =
     dec_bind dec_binstring (\<lambda>v. dec_bind dec_bool (\<lambda>want_reply.
     dec_bind (dec_global_request_method v) (\<lambda>req. dec_return (GlobalRequest want_reply req))))"
| "dec_packet_fields SSH_MSG_REQUEST_SUCCESS = dec_return RequestSuccess"
| "dec_packet_fields SSH_MSG_REQUEST_FAILURE = dec_return RequestFailure"
| "dec_packet_fields SSH_MSG_CHANNEL_OPEN =
     dec_bind dec_binstring (\<lambda>v. dec_bind dec_u32 (\<lambda>sender_num. dec_bind dec_u32 (\<lambda>initial_window.
     dec_bind dec_u32 (\<lambda>max_packet. dec_bind (dec_open_type v) (\<lambda>ty.
     dec_return (ChannelOpen sender_num initial_window max_packet ty))))))"
| "dec_packet_fields SSH_MSG_CHANNEL_OPEN_CONFIRMATION =
     dec_bind dec_u32 (\<lambda>num. dec_bind dec_u32 (\<lambda>sender_num. dec_bind dec_u32 (\<lambda>initial_window.
     dec_bind dec_u32 (\<lambda>max_packet.
     dec_return (ChannelOpenConfirmation num sender_num initial_window max_packet)))))"
| "dec_packet_fields SSH_MSG_CHANNEL_OPEN_FAILURE =
     dec_bind dec_u32 (\<lambda>num. dec_bind dec_u32 (\<lambda>reason. dec_bind dec_textstring (\<lambda>desc.
     dec_bind dec_str (\<lambda>lang. dec_return (ChannelOpenFailure num reason desc lang)))))"
| "dec_packet_fields SSH_MSG_CHANNEL_WINDOW_ADJUST =
     dec_bind dec_u32 (\<lambda>num. dec_bind dec_u32 (\<lambda>adjust. dec_return (ChannelWindowAdjust num adjust)))"
| "dec_packet_fields SSH_MSG_CHANNEL_DATA =
     dec_bind dec_u32 (\<lambda>num. dec_bind dec_binstring (\<lambda>d. dec_return (ChannelData num d)))"
| "dec_packet_fields SSH_MSG_CHANNEL_EXTENDED_DATA =
     dec_bind dec_u32 (\<lambda>num. dec_bind dec_u32 (\<lambda>code. dec_bind dec_binstring (\<lambda>d.
     dec_return (ChannelDataExt num code d))))"
| "dec_packet_fields SSH_MSG_CHANNEL_EOF = dec_bind dec_u32 (\<lambda>num. dec_return (ChannelEof num))"
| "dec_packet_fields SSH_MSG_CHANNEL_CLOSE = dec_bind dec_u32 (\<lambda>num. dec_return (ChannelClose num))"
| "dec_packet_fields SSH_MSG_CHANNEL_REQUEST =
     dec_bind dec_u32 (\<lambda>num. dec_bind dec_binstring (\<lambda>v. dec_bind dec_bool (\<lambda>want_reply.
     dec_bind (dec_req_type v) (\<lambda>req. dec_return (ChannelRequest num want_reply req)))))"
| "dec_packet_fields SSH_MSG_CHANNEL_SUCCESS = dec_bind dec_u32 (\<lambda>num. dec_return (ChannelSuccess num))"
| "dec_packet_fields SSH_MSG_CHANNEL_FAILURE = dec_bind dec_u32 (\<lambda>num. dec_return (ChannelFailure num))"

definition dec_packet :: "packet decoder" where
  "dec_packet = dec_bind dec_u8 (\<lambda>msg_num.
     case message_number_try_from msg_num of
       Inl _ \<Rightarrow> dec_fail (WireUnknownPacket msg_num)
     | Inr ty \<Rightarrow> dec_packet_fields ty)"

definition packet_from_bytes :: "bytes \<Rightarrow> parse_context \<Rightarrow> packet ssh_result" where
  "packet_from_bytes b ctx =
     and_then (map_err error_from_wire (dec_packet (src b (ctx\<lparr>seen_unknown := False\<rparr>))))
       (\<lambda>(p, s). if input s \<noteq> [] \<and> \<not> seen_unknown (parse_ctx s) then Inl WrongPacketLength
                  else Inr p)"

subsection \<open>Helpers on keys and signatures\<close>

definition DATA_OFFSET :: nat where "DATA_OFFSET = 9"
definition DATA_EXT_OFFSET :: nat where "DATA_EXT_OFFSET = 13"

fun pub_key_algorithm_name :: "pub_key \<Rightarrow> bytes + string" where
  "pub_key_algorithm_name (PubKeyEd25519 _) = Inr SSH_NAME_ED25519"
| "pub_key_algorithm_name (PubKeySkEd25519 _ _) = Inr SSH_NAME_SK_ED25519"
| "pub_key_algorithm_name (PubKeyUnknown u) = Inl u"

fun signature_algorithm_name :: "signature \<Rightarrow> bytes + string" where
  "signature_algorithm_name (SigEd25519 _) = Inr SSH_NAME_ED25519"
| "signature_algorithm_name (SigSkEd25519 _ _ _) = Inr SSH_NAME_SK_ED25519"
| "signature_algorithm_name (SigUnknown u) = Inl u"

fun sig_name_for_pubkey :: "pub_key \<Rightarrow> string ssh_result" where
  "sig_name_for_pubkey (PubKeyEd25519 _) = Inr SSH_NAME_ED25519"
| "sig_name_for_pubkey (PubKeySkEd25519 _ _) = Inr SSH_NAME_SK_ED25519"
| "sig_name_for_pubkey (PubKeyUnknown u) = Inl (UnknownMethod ''key'')"

text \<open>\<open>SigType\<close> of \<open>src/src/sign.rs\<close>.\<close>

datatype sig_type = SigTypeEd25519 | SigTypeSkEd25519

fun signature_sig_type :: "signature \<Rightarrow> sig_type ssh_result" where
  "signature_sig_type (SigEd25519 _) = Inr SigTypeEd25519"
| "signature_sig_type (SigSkEd25519 _ _ _) = Inr SigTypeSkEd25519"
| "signature_sig_type (SigUnknown _) = Inl (UnknownMethod ''signature'')"

datatype owned_sig = OwnedEd25519 bytes | OwnedSkEd25519 bytes u8 u32

fun signature_from_owned :: "owned_sig \<Rightarrow> signature" where
  "signature_from_owned (OwnedEd25519 s) = SigEd25519 s"
| "signature_from_owned (OwnedSkEd25519 s flags counter) = SigSkEd25519 s flags counter"

definition method_pub_key_new :: "pub_key \<Rightarrow> owned_sig option \<Rightarrow> method_pub_key ssh_result" where
  "method_pub_key_new pubkey sig =
     and_then (trap_result (sig_name_for_pubkey pubkey)) (\<lambda>sig_algo.
       Inr \<lparr>mpk_sig_algo = sig_algo, mpk_pubkey = pubkey,
            mpk_sig = map_option signature_from_owned sig, mpk_force_sig = False\<rparr>)"

end
