(* ===== verification/SSH_Packets_Codec.thy ===== *)
theory SSH_Packets_Codec
  imports SSH_Packets
begin

section \<open>Packets survive the wire\<close>

text \<open>
  The \<open>codec\<close> and \<open>consuming\<close> contracts for the types of \<open>SSH_Packets\<close>, up to whole packets.
  \<open>wf_packet\<close> says which packets can be sent: the names are ASCII, no string reaches
  $2^{32}$ bytes (\<open>len as u32\<close> would wrap), fixed arrays have their size, nothing is \<open>Unknown\<close>,
  and \<open>Userauth60\<close> is the variant that the receiver's \<open>cli_auth_type\<close> expects.
\<close>

subsection \<open>Decoders consume\<close>

lemma consuming_unknown [consuming_intros]: "consuming (dec_unknown u)"
  unfolding dec_unknown_def by (intro consuming_intros)

lemma consuming_auth [consuming_intros]:
  assumes "\<And>a. consuming (f a)" "consuming g"
  shows "consuming (case m of Some t \<Rightarrow> f t | None \<Rightarrow> g)"
  using assms by (cases m) auto

lemma consuming_auth_type [consuming_intros]:
  "consuming f \<Longrightarrow> consuming g \<Longrightarrow> consuming (case t of AuthPassword \<Rightarrow> f | AuthPubKey \<Rightarrow> g)"
  by (cases t) auto

lemma consuming_keys [consuming_intros]: "consuming dec_pub_key" "consuming dec_signature"
  unfolding dec_pub_key_def dec_signature_def dec_pub_key_enum_def dec_signature_enum_def
  by (intro consuming_intros)+

lemma consuming_ext_info_loop [consuming_intros]: "consuming (dec_ext_info_loop n e)"
  by (induction n arbitrary: e) (auto intro!: consuming_intros)

lemma consuming_parts [consuming_intros]:
  "consuming dec_kex_init" "consuming dec_method_pub_key" "consuming dec_userauth60"
  "consuming dec_ext_info" "consuming (dec_open_type v)" "consuming (dec_req_type v)"
  "consuming (dec_global_request_method v)"
  unfolding dec_kex_init_def dec_method_pub_key_def dec_userauth60_def dec_ext_info_def
    dec_open_type_def dec_req_type_def dec_global_request_method_def
  by (intro consuming_intros)+

lemma consuming_auth_method [consuming_intros]: "consuming dec_auth_method"
  unfolding dec_auth_method_def dec_auth_method_enum_def by (intro consuming_intros)

lemma consuming_packet_fields [consuming_intros]: "consuming (dec_packet_fields ty)"
  by (cases ty) (simp_all; intro consuming_intros)+

lemma consuming_packet: "consuming dec_packet"
  unfolding dec_packet_def
  by (rule consuming_bind) (auto intro!: consuming_intros split: sum.split)

subsection \<open>Variant names\<close>

lemma is_name_literals [simp]:
  "is_name SSH_NAME_ED25519" "is_name SSH_NAME_SK_ED25519" "is_name SSH_AUTHMETHOD_PASSWORD"
  "is_name SSH_AUTHMETHOD_PUBLICKEY" "is_name SSH_NAME_NONE" "is_name SSH_EXT_SERVER_SIG_ALGS"
  "is_name ''session''" "is_name ''forwarded-tcpip''" "is_name ''direct-tcpip''" "is_name ''shell''"
  "is_name ''exec''" "is_name ''pty-req''" "is_name ''subsystem''" "is_name ''window-change''"
  "is_name ''env''" "is_name ''signal''" "is_name ''exit-status''" "is_name ''exit-signal''"
  "is_name ''break''"
  by (simp_all add: ssh_name_defs is_name_def byte_of_char_def)

lemma len_ok_literals [simp]:
  "length SSH_NAME_ED25519 < 4294967296" "length SSH_NAME_SK_ED25519 < 4294967296"
  "length SSH_AUTHMETHOD_PASSWORD < 4294967296" "length SSH_AUTHMETHOD_PUBLICKEY < 4294967296"
  "length SSH_NAME_NONE < 4294967296" "length SSH_EXT_SERVER_SIG_ALGS < 4294967296"
  by (simp_all add: ssh_name_defs)

lemma is_variant_str [simp]: "is_variant (str_bytes a) b \<longleftrightarrow> is_name b \<and> a = b"
  by (auto simp: is_variant_def try_as_ascii_Inr)

lemma names_distinct [simp]:
  "SSH_NAME_SK_ED25519 \<noteq> SSH_NAME_ED25519"
  "SSH_AUTHMETHOD_PUBLICKEY \<noteq> SSH_AUTHMETHOD_PASSWORD"
  "SSH_NAME_NONE \<noteq> SSH_AUTHMETHOD_PASSWORD" "SSH_NAME_NONE \<noteq> SSH_AUTHMETHOD_PUBLICKEY"
  by (simp_all add: ssh_name_defs)

text \<open>An encoded name is read back as raw bytes by the derived decoders.\<close>

lemma dec_variant [wire]:
  "len_ok n \<Longrightarrow> dec_binstring (src (be32 (word_of_nat (length n)) @ str_bytes n @ r) c)
     = Inr (str_bytes n, src r c)"
  using dec_binstring [of "str_bytes n"] by simp

lemma enc_variant_simps [simp]:
  "enc_variant (Inr n) = enc_str n" "enc_variant (Inl e) = Fail e"
  by (simp_all add: enc_variant_def)

subsection \<open>Keys and signatures\<close>

lemmas enc_simps = emitted_seq failure_seq
lemmas dec_simps = dec_bind_def dec_return_def dec_prim dec_bool dec_array dec_binstring dec_variant
  dec_textstring_eq dec_str dec_heapless

interpretation array_codec: codec enc_array "dec_array n" "\<lambda>_ v. length v = n" for n
  by unfold_locales (simp_all add: dec_array)

interpretation array_blob: codec "\<lambda>v. enc_blob (enc_array v)" "dec_blob (dec_array n)"
  "\<lambda>_ v. length v = n \<and> length (emitted (enc_array v)) < 2 ^ 32" for n
  by (rule array_codec.codec_blob)

fun pub_key_ok :: "pub_key \<Rightarrow> bool" where
  "pub_key_ok (PubKeyEd25519 key) \<longleftrightarrow> length key = 32"
| "pub_key_ok (PubKeySkEd25519 key application) \<longleftrightarrow>
     length key = 32 \<and> length application + 256 < 2 ^ 32"
| "pub_key_ok (PubKeyUnknown _) \<longleftrightarrow> False"

fun signature_ok :: "signature \<Rightarrow> bool" where
  "signature_ok (SigEd25519 sig) \<longleftrightarrow> length sig + 256 < 2 ^ 32"
| "signature_ok (SigSkEd25519 sig flags counter) \<longleftrightarrow> length sig + 256 < 2 ^ 32"
| "signature_ok (SigUnknown _) \<longleftrightarrow> False"

interpretation pub_key_codec: codec enc_pub_key dec_pub_key "\<lambda>_. pub_key_ok"
proof unfold_locales
  fix c k rest
  assume k: "pub_key_ok k"
  show "failure (enc_pub_key k) = None"
    using k by (cases k) (simp_all add: enc_pub_key_def enc_simps array_blob.enc_ok)
  show "dec_pub_key (src (emitted (enc_pub_key k) @ rest) c) = Inr (k, src rest c)"
    using k by (cases k) (simp_all add: enc_pub_key_def enc_simps dec_pub_key_def dec_pub_key_enum_def
        dec_simps array_blob.enc_ok array_blob.dec_enc)
qed

interpretation signature_codec: codec enc_signature dec_signature "\<lambda>_. signature_ok"
proof unfold_locales
  fix c s rest
  assume s: "signature_ok s"
  show "failure (enc_signature s) = None"
    using s by (cases s) (simp_all add: enc_signature_def enc_simps)
  show "dec_signature (src (emitted (enc_signature s) @ rest) c) = Inr (s, src rest c)"
    using s by (cases s) (simp_all add: enc_signature_def enc_simps dec_signature_def
        dec_signature_enum_def dec_simps)
qed

lemma length_enc_pub_key [simp]: "pub_key_ok k \<Longrightarrow> length (emitted (enc_pub_key k)) < 4294967296"
  by (cases k) (simp_all add: enc_pub_key_def enc_simps array_blob.enc_ok emitted_enc_blob ssh_name_defs)

lemma length_enc_signature [simp]:
  "signature_ok s \<Longrightarrow> length (emitted (enc_signature s)) < 4294967296"
  by (cases s) (simp_all add: enc_signature_def enc_simps ssh_name_defs)

interpretation pub_key_blob: codec "\<lambda>k. enc_blob (enc_pub_key k)" "dec_blob dec_pub_key"
  "\<lambda>_ k. pub_key_ok k \<and> length (emitted (enc_pub_key k)) < 2 ^ 32"
  by (rule pub_key_codec.codec_blob)

interpretation signature_blob: codec "\<lambda>s. enc_blob (enc_signature s)" "dec_blob dec_signature"
  "\<lambda>_ s. signature_ok s \<and> length (emitted (enc_signature s)) < 2 ^ 32"
  by (rule signature_codec.codec_blob)

lemmas blob_simps = pub_key_blob.enc_ok pub_key_blob.dec_enc signature_blob.enc_ok signature_blob.dec_enc

subsection \<open>Packet parts\<close>

definition received_list :: "name_list \<Rightarrow> name_list" where
  "received_list l = StringNames (sent_names l)"

definition kex_init_ok :: "kex_init \<Rightarrow> bool" where
  "kex_init_ok k \<longleftrightarrow> length (ki_cookie k) = 16
     \<and> list_all name_list_ok [ki_kex k, ki_hostsig k, ki_cipher_c2s k, ki_cipher_s2c k, ki_mac_c2s k,
          ki_mac_s2c k, ki_comp_c2s k, ki_comp_s2c k, ki_lang_c2s k, ki_lang_s2c k]"

definition received_kex_init :: "kex_init \<Rightarrow> kex_init" where
  "received_kex_init k =
     \<lparr>ki_cookie = ki_cookie k, ki_kex = received_list (ki_kex k), ki_hostsig = received_list (ki_hostsig k),
      ki_cipher_c2s = received_list (ki_cipher_c2s k), ki_cipher_s2c = received_list (ki_cipher_s2c k),
      ki_mac_c2s = received_list (ki_mac_c2s k), ki_mac_s2c = received_list (ki_mac_s2c k),
      ki_comp_c2s = received_list (ki_comp_c2s k), ki_comp_s2c = received_list (ki_comp_s2c k),
      ki_lang_c2s = received_list (ki_lang_c2s k), ki_lang_s2c = received_list (ki_lang_s2c k),
      ki_first_follows = ki_first_follows k, ki_reserved = ki_reserved k\<rparr>"

lemma failure_kex_init [simp]: "failure (enc_kex_init k) = None"
  by (simp add: enc_kex_init_def enc_simps)

lemma dec_kex_init_sent:
  "kex_init_ok k \<Longrightarrow>
     dec_kex_init (src (emitted (enc_kex_init k) @ r) c) = Inr (received_kex_init k, src r c)"
  by (simp add: kex_init_ok_def enc_kex_init_def enc_simps dec_kex_init_def dec_simps
      dec_name_list_sent received_kex_init_def received_list_def)

definition method_pub_key_ok :: "method_pub_key \<Rightarrow> bool" where
  "method_pub_key_ok m \<longleftrightarrow> is_name (mpk_sig_algo m) \<and> len_ok (mpk_sig_algo m)
     \<and> pub_key_ok (mpk_pubkey m) \<and> pred_option signature_ok (mpk_sig m) \<and> \<not> mpk_force_sig m"

interpretation method_pub_key_codec: codec enc_method_pub_key dec_method_pub_key "\<lambda>_. method_pub_key_ok"
proof unfold_locales
  fix c m rest
  assume m: "method_pub_key_ok m"
  show "failure (enc_method_pub_key m) = None"
    using m by (cases "mpk_sig m") (simp_all add: enc_method_pub_key_def method_pub_key_ok_def enc_simps
        blob_simps Let_def)
  show "dec_method_pub_key (src (emitted (enc_method_pub_key m) @ rest) c) = Inr (m, src rest c)"
    using m dec_bool [of True] dec_bool [of False]
    by (cases "mpk_sig m") (simp_all add: enc_method_pub_key_def method_pub_key_ok_def enc_simps
        dec_method_pub_key_def dec_simps blob_simps Let_def)
qed

fun auth_method_ok :: "auth_method \<Rightarrow> bool" where
  "auth_method_ok (MethodPassword _ pw) \<longleftrightarrow> len_ok pw"
| "auth_method_ok (MethodPubKey m) \<longleftrightarrow> method_pub_key_ok m"
| "auth_method_ok MethodNone \<longleftrightarrow> True"
| "auth_method_ok (MethodUnknown _) \<longleftrightarrow> False"

interpretation auth_method_codec: codec enc_auth_method dec_auth_method "\<lambda>_. auth_method_ok"
proof unfold_locales
  fix c m rest
  assume m: "auth_method_ok m"
  show "failure (enc_auth_method m) = None"
    using m by (cases m) (simp_all add: enc_auth_method_def enc_simps method_pub_key_codec.enc_ok)
  show "dec_auth_method (src (emitted (enc_auth_method m) @ rest) c) = Inr (m, src rest c)"
    using m by (cases m) (simp_all add: enc_auth_method_def enc_simps dec_auth_method_def
        dec_auth_method_enum_def dec_simps method_pub_key_codec.dec_enc)
qed

fun userauth60_ok :: "parse_context \<Rightarrow> userauth60 \<Rightarrow> bool" where
  "userauth60_ok c (PkOk a k) \<longleftrightarrow>
     is_name a \<and> len_ok a \<and> pub_key_ok k \<and> cli_auth_type c = Some AuthPubKey"
| "userauth60_ok c (PwChangeReq p l) \<longleftrightarrow> len_ok p \<and> len_ok l \<and> cli_auth_type c = Some AuthPassword"

interpretation userauth60_codec: codec enc_userauth60 dec_userauth60 userauth60_ok
proof unfold_locales
  fix c u rest
  assume u: "userauth60_ok c u"
  show "failure (enc_userauth60 u) = None"
    using u by (cases u) (simp_all add: enc_simps blob_simps)
  show "dec_userauth60 (src (emitted (enc_userauth60 u) @ rest) c) = Inr (u, src rest c)"
    using u by (cases u) (simp_all add: enc_simps dec_userauth60_def get_ctx_def dec_simps blob_simps)
qed

text \<open>\<open>ExtInfo\<close> without algorithms writes no extension count, so it cannot be read back.\<close>

lemma dec_ext_info_sent:
  "name_list_ok l \<Longrightarrow>
     dec_ext_info (src (emitted (enc_ext_info (Some l)) @ r) c) = Inr (Some (received_list l), src r c)"
  by (simp add: enc_simps dec_ext_info_def dec_simps dec_name_list_sent received_list_def)

lemma dec_ext_info_None: "dec_ext_info (src (emitted (enc_ext_info None)) c) = Inl WireRanOut"
  by (simp add: dec_ext_info_def dec_bind_def dec_u32_def source_take_def)

fun open_type_ok :: "channel_open_type \<Rightarrow> bool" where
  "open_type_ok OpenSession \<longleftrightarrow> True"
| "open_type_ok (ForwardedTcpip address _ origin _) \<longleftrightarrow> len_ok address \<and> len_ok origin"
| "open_type_ok (DirectTcpip address _ origin _) \<longleftrightarrow> len_ok address \<and> len_ok origin"
| "open_type_ok (OpenUnknown _) \<longleftrightarrow> False"

fun req_type_ok :: "channel_req_type \<Rightarrow> bool" where
  "req_type_ok Shell \<longleftrightarrow> True"
| "req_type_ok (Exec command) \<longleftrightarrow> len_ok command"
| "req_type_ok (PtyReq term _ _ _ _ modes) \<longleftrightarrow> len_ok term \<and> len_ok modes"
| "req_type_ok (Subsystem subsystem) \<longleftrightarrow> len_ok subsystem"
| "req_type_ok (WinChange _ _ _ _) \<longleftrightarrow> True"
| "req_type_ok (Environment name val) \<longleftrightarrow> len_ok name \<and> len_ok val"
| "req_type_ok (Signal sig) \<longleftrightarrow> is_name sig \<and> len_ok sig"
| "req_type_ok (ExitStatus _) \<longleftrightarrow> True"
| "req_type_ok (ExitSignal signal _ error lang) \<longleftrightarrow>
     is_name signal \<and> len_ok signal \<and> len_ok error \<and> is_name lang \<and> len_ok lang"
| "req_type_ok (Break _) \<longleftrightarrow> True"
| "req_type_ok (ReqUnknown _) \<longleftrightarrow> False"

text \<open>
  For an enum whose name is written apart from its fields, the name decodes to the right arm.
\<close>

lemma open_type_rt:
  assumes "open_type_ok ty"
  obtains n where "open_type_variant_name ty = Inr n" "is_name n" "len_ok n"
    "failure (enc_open_type ty) = None"
    "\<And>r c. dec_open_type (str_bytes n) (src (emitted (enc_open_type ty) @ r) c) = Inr (ty, src r c)"
  using assms by (cases ty) (simp_all add: enc_simps dec_open_type_def dec_simps)

lemma req_type_rt:
  assumes "req_type_ok q"
  obtains n where "req_type_variant_name q = Inr n" "is_name n" "len_ok n"
    "failure (enc_req_type q) = None"
    "\<And>r c. dec_req_type (str_bytes n) (src (emitted (enc_req_type q) @ r) c) = Inr (q, src r c)"
  using assms by (cases q) (simp_all add: enc_simps dec_req_type_def dec_simps)

subsection \<open>Whole packets\<close>

fun wf_packet :: "parse_context \<Rightarrow> packet \<Rightarrow> bool" where
  "wf_packet c (Disconnect _ desc lang) \<longleftrightarrow> len_ok desc \<and> is_name lang \<and> len_ok lang"
| "wf_packet c (Ignore d) \<longleftrightarrow> len_ok d"
| "wf_packet c (Unimplemented _) \<longleftrightarrow> True"
| "wf_packet c (DebugPacket _ message lang) \<longleftrightarrow> len_ok message \<and> is_name lang \<and> len_ok lang"
| "wf_packet c (ServiceRequest name) \<longleftrightarrow> is_name name \<and> len_ok name"
| "wf_packet c (ServiceAccept name) \<longleftrightarrow> is_name name \<and> len_ok name"
| "wf_packet c (ExtInfo e) \<longleftrightarrow> (case e of None \<Rightarrow> False | Some l \<Rightarrow> name_list_ok l)"
| "wf_packet c (KexInit k) \<longleftrightarrow> kex_init_ok k"
| "wf_packet c NewKeys \<longleftrightarrow> True"
| "wf_packet c (KexDHInit q) \<longleftrightarrow> len_ok q"
| "wf_packet c (KexDHReply k q s) \<longleftrightarrow> pub_key_ok k \<and> len_ok q \<and> signature_ok s"
| "wf_packet c (UserauthRequest u service m) \<longleftrightarrow>
     len_ok u \<and> is_name service \<and> len_ok service \<and> auth_method_ok m"
| "wf_packet c (UserauthFailure l _) \<longleftrightarrow> name_list_ok l"
| "wf_packet c UserauthSuccess \<longleftrightarrow> True"
| "wf_packet c (UserauthBanner message lang) \<longleftrightarrow> len_ok message \<and> len_ok lang"
| "wf_packet c (Userauth60 u) \<longleftrightarrow> userauth60_ok c u"
| "wf_packet c (GlobalRequest _ _) \<longleftrightarrow> False"
| "wf_packet c (ChannelOpen _ _ _ ty) \<longleftrightarrow> open_type_ok ty"
| "wf_packet c (ChannelOpenFailure _ _ desc lang) \<longleftrightarrow> len_ok desc \<and> is_name lang \<and> len_ok lang"
| "wf_packet c (ChannelData _ d) \<longleftrightarrow> len_ok d"
| "wf_packet c (ChannelDataExt _ _ d) \<longleftrightarrow> len_ok d"
| "wf_packet c (ChannelRequest _ _ q) \<longleftrightarrow> req_type_ok q"
| "wf_packet c _ \<longleftrightarrow> True"

text \<open>The packet the other end sees.\<close>

fun received :: "packet \<Rightarrow> packet" where
  "received (ExtInfo e) = ExtInfo (map_option received_list e)"
| "received (KexInit k) = KexInit (received_kex_init k)"
| "received (UserauthFailure l partial) = UserauthFailure (received_list l) partial"
| "received p = p"

lemma packet_fields_sent:
  assumes "wf_packet c p"
  shows "failure (enc_packet_fields p) = None"
    and "dec_packet_fields (message_num p) (src (emitted (enc_packet_fields p) @ r) c)
           = Inr (received p, src r c)"
proof -
  have "failure (enc_packet_fields p) = None \<and>
    dec_packet_fields (message_num p) (src (emitted (enc_packet_fields p) @ r) c)
           = Inr (received p, src r c)"
  proof (cases p)
    case (ChannelOpen a b w ty)
    with assms obtain n where "open_type_variant_name ty = Inr n" "is_name n" "len_ok n"
      "failure (enc_open_type ty) = None"
      "\<And>r c. dec_open_type (str_bytes n) (src (emitted (enc_open_type ty) @ r) c) = Inr (ty, src r c)"
      by (auto elim: open_type_rt)
    with ChannelOpen show ?thesis by (simp add: enc_simps dec_simps)
  next
    case (ChannelRequest a b q)
    with assms obtain n where "req_type_variant_name q = Inr n" "is_name n" "len_ok n"
      "failure (enc_req_type q) = None"
      "\<And>r c. dec_req_type (str_bytes n) (src (emitted (enc_req_type q) @ r) c) = Inr (q, src r c)"
      by (auto elim: req_type_rt)
    with ChannelRequest show ?thesis by (simp add: enc_simps dec_simps)
  next
    case (ExtInfo e)
    with assms show ?thesis
      by (cases e) (simp_all del: enc_ext_info.simps add: dec_ext_info_sent dec_bind_def dec_return_def,
          simp add: enc_simps)
  qed (use assms in \<open>simp_all add: enc_simps dec_simps blob_simps dec_kex_init_sent dec_name_list_sent
      received_list_def auth_method_codec.enc_ok auth_method_codec.dec_enc userauth60_codec.enc_ok
      userauth60_codec.dec_enc\<close>)
  then show "failure (enc_packet_fields p) = None"
    "dec_packet_fields (message_num p) (src (emitted (enc_packet_fields p) @ r) c)
           = Inr (received p, src r c)" by simp_all
qed

lemma failure_enc_packet: "wf_packet c p \<Longrightarrow> failure (enc_packet p) = None"
  by (simp add: enc_packet_def enc_simps packet_fields_sent)

lemma dec_packet_sent:
  "wf_packet c p \<Longrightarrow> dec_packet (src (emitted (enc_packet p) @ r) c) = Inr (received p, src r c)"
  by (simp add: enc_packet_def enc_simps dec_packet_def dec_bind_def dec_prim packet_fields_sent)

interpretation packet_codec: codec enc_packet dec_packet "\<lambda>c p. wf_packet c p \<and> received p = p"
  by unfold_locales (blast intro: failure_enc_packet, simp add: dec_packet_sent)

lemma packet_sent:
  assumes "wf_packet (ctx\<lparr>seen_unknown := False\<rparr>) p"
  shows "packet_from_bytes (emitted (enc_packet p)) ctx = Inr (received p)"
  using dec_packet_sent [OF assms, of "[]"] by (simp add: packet_from_bytes_def)

lemma packet_trailing_rejected:
  assumes "wf_packet (ctx\<lparr>seen_unknown := False\<rparr>) p" "r \<noteq> []"
  shows "packet_from_bytes (emitted (enc_packet p) @ r) ctx = Inl WrongPacketLength"
  using dec_packet_sent [OF assms(1), of r] assms(2) by (simp add: packet_from_bytes_def)

text \<open>\<open>DATA_OFFSET\<close> is where the data of a channel data packet starts in the payload.\<close>

lemma channel_data_offset:
  "len_ok d \<Longrightarrow> drop DATA_OFFSET (emitted (enc_packet (ChannelData num d))) = d"
  "len_ok d \<Longrightarrow> drop DATA_EXT_OFFSET (emitted (enc_packet (ChannelDataExt num code d))) = d"
  by (simp_all add: enc_packet_def enc_simps DATA_OFFSET_def DATA_EXT_OFFSET_def)

end
