(* ===== verification/SSH_Traffic.thy ===== *)
theory SSH_Traffic
  imports SSH_Encrypt SSH_Ident SSH_Packets_Codec
begin

section \<open>Traffic in and out\<close>

text \<open>
  \<open>src/src/traffic.rs\<close>: \<open>TrafIn\<close> collects the bytes of one packet, decrypts it in place and holds
  the payload or the channel data until it has been read; \<open>TrafOut\<close> frames, encrypts and queues
  outgoing packets. \<open>ChanData\<close> and \<open>DataIn\<close> are from \<open>src/src/channel.rs\<close>.

  An error of \<open>TrafIn\<close> ends the session, so there the state after it is not modelled. \<open>TrafOut\<close> is
  used again after \<open>NoRoom\<close>, so its operations return the state in every case. (What a failed
  serialization left in the free part of the output buffer is not modelled; that part is always written
  before it is read.)
  \<open>heapless::Deque\<close> is a list with the front first and a capacity check.
\<close>

subsection \<open>Channel data\<close>

datatype chan_data = Normal | Stderr

record data_in =
  di_num :: chan_num
  di_dt :: chan_data
  di_len :: nat

fun validate_send :: "chan_data \<Rightarrow> bool \<Rightarrow> unit ssh_result" where
  "validate_send dt is_client = (if dt = Stderr \<and> is_client then Inl BadChannelData else Inr ())"

fun validate_receive :: "chan_data \<Rightarrow> bool \<Rightarrow> unit ssh_result" where
  "validate_receive dt is_client = (if dt = Stderr \<and> \<not> is_client then Inl BadChannelData else Inr ())"

fun packet_offset :: "chan_data \<Rightarrow> nat" where
  "packet_offset Normal = DATA_OFFSET"
| "packet_offset Stderr = DATA_EXT_OFFSET"

subsection \<open>Input\<close>

datatype rx_state =
    RxIdle
  | RxReadInitial nat
  | RxRead nat nat
  | RxReadComplete nat
  | RxInPayload nat u32
  | RxInChannelData chan_num chan_data nat nat

record traf_in =
  in_buf :: bytes
  rx :: rx_state

definition traf_in_new :: "bytes \<Rightarrow> traf_in" where
  "traf_in_new buf = \<lparr>in_buf = buf, rx = RxIdle\<rparr>"

fun is_input_ready_rx :: "rx_state \<Rightarrow> bool" where
  "is_input_ready_rx RxIdle = True"
| "is_input_ready_rx (RxReadInitial _) = True"
| "is_input_ready_rx (RxRead _ _) = True"
| "is_input_ready_rx (RxReadComplete _) = False"
| "is_input_ready_rx (RxInPayload _ _) = False"
| "is_input_ready_rx (RxInChannelData _ _ _ _) = False"

definition traf_in_is_input_ready :: "traf_in \<Rightarrow> bool" where
  "traf_in_is_input_ready ti = is_input_ready_rx (rx ti)"

text \<open>\<open>self.buf[idx..idx + need].copy_from_slice(x)\<close>, a panic when out of range.\<close>

definition fill_at :: "nat \<Rightarrow> bytes \<Rightarrow> traf_in \<Rightarrow> traf_in ssh_result" where
  "fill_at idx x ti =
     (if idx + length x \<le> length (in_buf ti) then Inr (ti\<lparr>in_buf := overwrite (in_buf ti) idx x\<rparr>)
      else Inl Panic)"

text \<open>The first \<open>if\<close> of \<open>fill_input\<close>: fill the initial block.\<close>

definition fill_initial :: "nat \<Rightarrow> bytes \<Rightarrow> traf_in \<Rightarrow> (bytes \<times> traf_in) ssh_result" where
  "fill_initial size_block r ti =
     (case (case rx ti of
              RxIdle \<Rightarrow> if r \<noteq> [] then Some 0 else None
            | RxReadInitial idx \<Rightarrow> Some idx
            | _ \<Rightarrow> None) of
        None \<Rightarrow> Inr (r, ti)
      | Some idx \<Rightarrow>
          let need = min (size_block - idx) (length r) in
          and_then (fill_at idx (take need r) ti) (\<lambda>ti.
            Inr (drop need r, ti\<lparr>rx := RxReadInitial (idx + need)\<rparr>)))"

text \<open>The second: decrypt the packet length once the initial block is there.\<close>

definition fill_length :: "crypto \<Rightarrow> nat \<Rightarrow> key_state \<Rightarrow> traf_in \<Rightarrow> (key_state \<times> traf_in) ssh_result" where
  "fill_length cr size_block keys ti =
     (case rx ti of
        RxReadInitial idx \<Rightarrow>
          if idx \<ge> size_block then
            and_then (panic_option (slice (in_buf ti) 0 size_block)) (\<lambda>w.
              let (res, keys, w') = decrypt_first_block cr w keys;
                  ti = ti\<lparr>in_buf := overwrite (in_buf ti) 0 w'\<rparr>
              in and_then res (\<lambda>total_len.
                   if total_len > length (in_buf ti) then Inl (BigPacket total_len)
                   else if total_len < size_block then Inl BadDecrypt
                   else Inr (keys, ti\<lparr>rx := RxRead idx total_len\<rparr>)))
          else Inr (keys, ti)
      | _ \<Rightarrow> Inr (keys, ti))"

text \<open>The third: read until the end of the packet.\<close>

definition fill_rest :: "bytes \<Rightarrow> traf_in \<Rightarrow> (bytes \<times> traf_in) ssh_result" where
  "fill_rest r ti =
     (case rx ti of
        RxRead idx expect \<Rightarrow>
          let need = min (expect - idx) (length r) in
          and_then (fill_at idx (take need r) ti) (\<lambda>ti.
            Inr (drop need r,
                 ti\<lparr>rx := (if idx + need = expect then RxReadComplete expect
                            else RxRead (idx + need) expect)\<rparr>))
      | _ \<Rightarrow> Inr (r, ti))"

text \<open>The fourth: decrypt the complete packet.\<close>

definition fill_decrypt :: "crypto \<Rightarrow> key_state \<Rightarrow> traf_in \<Rightarrow> (key_state \<times> traf_in) ssh_result" where
  "fill_decrypt cr keys ti =
     (case rx ti of
        RxReadComplete len \<Rightarrow>
          and_then (panic_option (slice (in_buf ti) 0 len)) (\<lambda>w.
            let sq = recv_seq keys;
                (res, keys, w') = decrypt cr w keys;
                ti = ti\<lparr>in_buf := overwrite (in_buf ti) 0 w'\<rparr>
            in and_then res (\<lambda>payload_len. Inr (keys, ti\<lparr>rx := RxInPayload payload_len sq\<rparr>)))
      | _ \<Rightarrow> Inr (keys, ti))"

definition fill_input ::
  "crypto \<Rightarrow> bytes \<Rightarrow> key_state \<Rightarrow> traf_in \<Rightarrow> (nat \<times> key_state \<times> traf_in) ssh_result" where
  "fill_input cr buf keys ti =
     (let size_block = size_block_dec keys in
      and_then (fill_initial size_block buf ti) (\<lambda>(r, ti).
      and_then (fill_length cr size_block keys ti) (\<lambda>(keys, ti).
      and_then (fill_rest r ti) (\<lambda>(r, ti).
      and_then (fill_decrypt cr keys ti) (\<lambda>(keys, ti).
        Inr (length buf - length r, keys, ti))))))"

text \<open>\<open>TrafIn::input\<close>: first the version string, then packets.\<close>

definition traf_in_input ::
  "crypto \<Rightarrow> bytes \<Rightarrow> key_state \<Rightarrow> remote_version \<Rightarrow> traf_in
     \<Rightarrow> (nat \<times> key_state \<times> remote_version \<times> traf_in) ssh_result" where
  "traf_in_input cr buf keys rv ti =
     and_then (version rv) (\<lambda>v.
     and_then (if v = None \<and> rx ti = RxIdle then consume rv buf else Inr (0, rv)) (\<lambda>(inlen, rv).
     and_then (panic_option (slice buf inlen (length buf))) (\<lambda>rest.
     and_then (fill_input cr rest keys ti) (\<lambda>(n, keys, ti).
       Inr (inlen + n, keys, rv, ti)))))"

definition done_payload :: "traf_in \<Rightarrow> traf_in" where
  "done_payload ti = (case rx ti of RxInPayload _ _ \<Rightarrow> ti\<lparr>rx := RxIdle\<rparr> | _ \<Rightarrow> ti)"

definition zeroize_payload :: "traf_in \<Rightarrow> traf_in ssh_result" where
  "zeroize_payload ti =
     (case rx ti of
        RxInPayload len _ \<Rightarrow>
          and_then (fill_at SSH_PAYLOAD_START (replicate len 0) ti) (\<lambda>ti. Inr (done_payload ti))
      | _ \<Rightarrow> Inr ti)"

definition payload :: "traf_in \<Rightarrow> (bytes \<times> u32) option ssh_result" where
  "payload ti =
     (case rx ti of
        RxInPayload len sq \<Rightarrow>
          and_then (panic_option (slice (in_buf ti) SSH_PAYLOAD_START (SSH_PAYLOAD_START + len)))
            (\<lambda>p. Inr (Some (p, sq)))
      | _ \<Rightarrow> Inr None)"

definition read_channel_ready :: "traf_in \<Rightarrow> (chan_num \<times> chan_data \<times> nat) option" where
  "read_channel_ready ti =
     (case rx ti of
        RxInChannelData chan dt idx len \<Rightarrow> Some (chan, dt, len - idx)
      | _ \<Rightarrow> None)"

definition set_read_channel_data :: "data_in \<Rightarrow> traf_in \<Rightarrow> ((chan_num \<times> chan_data) \<times> traf_in) ssh_result" where
  "set_read_channel_data di ti =
     (case rx ti of
        RxInPayload _ _ \<Rightarrow>
          let idx = SSH_PAYLOAD_START + packet_offset (di_dt di) in
          Inr ((di_num di, di_dt di),
               ti\<lparr>rx := RxInChannelData (di_num di) (di_dt di) idx (idx + di_len di)\<rparr>)
      | _ \<Rightarrow> Inl Bug)"

text \<open>
  \<open>read_channel\<close> into a buffer of \<open>room\<close> bytes: the data written to it, the completed length, and the
  new state. The data stands for the returned count.
\<close>

definition read_channel ::
  "chan_num \<Rightarrow> chan_data \<Rightarrow> nat \<Rightarrow> traf_in \<Rightarrow> (bytes \<times> nat option \<times> traf_in) ssh_result" where
  "read_channel chan dt room ti =
     (case rx ti of
        RxInChannelData c e idx len \<Rightarrow>
          if (c, e) = (chan, dt) then
            let wlen = min (len - idx) room in
            and_then (panic_option (slice (in_buf ti) idx (idx + wlen))) (\<lambda>d.
              if idx + wlen = len then Inr (d, Some len, ti\<lparr>rx := RxIdle\<rparr>)
              else Inr (d, None, ti\<lparr>rx := RxInChannelData c e (idx + wlen) len\<rparr>))
          else Inr ([], None, ti)
      | _ \<Rightarrow> Inr ([], None, ti))"

definition read_channel_either ::
  "chan_num \<Rightarrow> nat \<Rightarrow> traf_in \<Rightarrow> (bytes \<times> nat option \<times> chan_data \<times> traf_in) ssh_result" where
  "read_channel_either chan room ti =
     (case rx ti of
        RxInChannelData c dt idx len \<Rightarrow>
          if c = chan then
            let wlen = min (len - idx) room in
            and_then (panic_option (slice (in_buf ti) idx (idx + wlen))) (\<lambda>d.
              if idx + wlen = len then Inr (d, Some len, dt, ti\<lparr>rx := RxIdle\<rparr>)
              else Inr (d, None, dt, ti\<lparr>rx := RxInChannelData c dt (idx + wlen) len\<rparr>))
          else Inr ([], None, Normal, ti)
      | _ \<Rightarrow> Inr ([], None, Normal, ti))"

definition discard_read_channel :: "chan_num \<Rightarrow> traf_in \<Rightarrow> nat \<times> traf_in" where
  "discard_read_channel chan ti =
     (case rx ti of
        RxInChannelData c _ _ len \<Rightarrow> if c = chan then (len, ti\<lparr>rx := RxIdle\<rparr>) else (0, ti)
      | _ \<Rightarrow> (0, ti))"

subsection \<open>Deferred packets\<close>

definition DEFER_COUNT :: nat where "DEFER_COUNT = 10"

datatype deferred_packet =
    DChannelSuccess u32
  | DChannelFailure u32
  | DChannelOpenFailure u32 u32 bytes string
  | DChannelOpenConfirmation u32 u32 u32 u32
  | DChannelEof u32
  | DChannelClose u32
  | DUnimplemented u32
  | DRequestFailure
  | DRequestSuccess

fun packet_from_deferred :: "deferred_packet \<Rightarrow> packet" where
  "packet_from_deferred (DChannelSuccess num) = ChannelSuccess num"
| "packet_from_deferred (DChannelFailure num) = ChannelFailure num"
| "packet_from_deferred (DChannelOpenFailure num reason desc lang) = ChannelOpenFailure num reason desc lang"
| "packet_from_deferred (DChannelOpenConfirmation num sender_num w m) = ChannelOpenConfirmation num sender_num w m"
| "packet_from_deferred (DChannelEof num) = ChannelEof num"
| "packet_from_deferred (DChannelClose num) = ChannelClose num"
| "packet_from_deferred (DUnimplemented sq) = Unimplemented sq"
| "packet_from_deferred DRequestFailure = RequestFailure"
| "packet_from_deferred DRequestSuccess = RequestSuccess"

fun deferred_try_from :: "packet \<Rightarrow> deferred_packet ssh_result" where
  "deferred_try_from (ChannelSuccess num) = Inr (DChannelSuccess num)"
| "deferred_try_from (ChannelFailure num) = Inr (DChannelFailure num)"
| "deferred_try_from (ChannelOpenConfirmation num sender_num w m) =
     Inr (DChannelOpenConfirmation num sender_num w m)"
| "deferred_try_from (ChannelEof num) = Inr (DChannelEof num)"
| "deferred_try_from (ChannelClose num) = Inr (DChannelClose num)"
| "deferred_try_from (Unimplemented sq) = Inr (DUnimplemented sq)"
| "deferred_try_from RequestFailure = Inr DRequestFailure"
| "deferred_try_from RequestSuccess = Inr DRequestSuccess"
| "deferred_try_from (ChannelOpenFailure num reason desc lang) =
     Inr (DChannelOpenFailure num reason [] '''')"
| "deferred_try_from _ = Inl SSHProtoUnsupported"

subsection \<open>Output\<close>

datatype tx_state = TxIdle | TxWrite nat nat | TxClosed

record traf_out =
  out_buf :: bytes
  tx :: tx_state
  drain :: bool
  sending_kex :: bool
  deferred_packets :: "deferred_packet list"

definition traf_out_new :: "bytes \<Rightarrow> traf_out" where
  "traf_out_new buf =
     \<lparr>out_buf = buf, tx = TxIdle, drain = False, sending_kex = False, deferred_packets = []\<rparr>"

definition track_send_packet :: "packet \<Rightarrow> key_state \<Rightarrow> traf_out \<Rightarrow> unit ssh_result \<times> traf_out" where
  "track_send_packet p keys out =
     (if packet_category p \<notin> {CatAll, CatKex} \<and> is_send_cleartext keys then (Inl Bug, out)
      else (Inr (),
            (case p of
               KexInit _ \<Rightarrow> out\<lparr>sending_kex := True\<rparr>
             | NewKeys \<Rightarrow> out\<lparr>sending_kex := False\<rparr>
             | _ \<Rightarrow> out)))"

text \<open>The buffer position for a new packet; \<open>Closed\<close> drops it.\<close>

fun tx_position :: "tx_state \<Rightarrow> (nat \<times> nat) option" where
  "tx_position TxIdle = Some (0, 0)"
| "tx_position (TxWrite idx len) = Some (idx, len)"
| "tx_position TxClosed = None"

definition send_packet_inner ::
  "crypto \<Rightarrow> packet \<Rightarrow> key_state \<Rightarrow> traf_out \<Rightarrow> unit ssh_result \<times> key_state \<times> traf_out" where
  "send_packet_inner cr p keys out =
     (case track_send_packet p keys out of
        (Inl e, out) \<Rightarrow> (Inl e, keys, out)
      | (Inr _, out) \<Rightarrow>
          (case tx_position (tx out) of
             None \<Rightarrow> (Inr (), keys, out)
           | Some (idx, len) \<Rightarrow>
               (case slice (out_buf out) len (length (out_buf out)) of
                  None \<Rightarrow> (Inl Panic, keys, out)
                | Some wbuf \<Rightarrow>
                    if length wbuf < SSH_PAYLOAD_START then (Inl NoRoom, keys, out)
                    else
                      (case write_ssh (drop SSH_PAYLOAD_START wbuf) (enc_packet p) of
                         Inl e \<Rightarrow> (Inl e, keys, out)
                       | Inr (plen, body) \<Rightarrow>
                           let wbuf1 = take SSH_PAYLOAD_START wbuf @ body;
                               (res, keys, wbuf2) = encrypt cr plen wbuf1 keys;
                               out = out\<lparr>out_buf := take len (out_buf out) @ wbuf2\<rparr>
                           in (case res of
                                 Inl e \<Rightarrow> (Inl e, keys, out)
                               | Inr elen \<Rightarrow>
                                   (Inr (), keys, out\<lparr>tx := TxWrite idx (len + elen)\<rparr>))))))"

definition send_packet ::
  "crypto \<Rightarrow> packet \<Rightarrow> key_state \<Rightarrow> traf_out \<Rightarrow> unit ssh_result \<times> key_state \<times> traf_out" where
  "send_packet cr p keys out =
     (let is_kex = (packet_category p = CatKex);
          pnum = message_num p;
          defer = (\<lambda>keys out.
            case deferred_try_from p of
              Inl _ \<Rightarrow> (Inl (BusySend pnum True), keys, out)
            | Inr dp \<Rightarrow>
                if length (deferred_packets out) < DEFER_COUNT
                then (Inr (), keys, out\<lparr>deferred_packets := dp # deferred_packets out\<rparr>)
                else (Inl (BusySend pnum False), keys, out))
      in
      if is_kex \<or> (deferred_packets out = [] \<and> \<not> sending_kex out) then
        (case send_packet_inner cr p keys out of
           (Inl NoRoom, keys, out) \<Rightarrow> defer keys out
         | res \<Rightarrow> res)
      else defer keys out)"

text \<open>
  \<open>send_deferred_packets\<close>: from the back of the queue, until it is empty or a packet does not fit.
\<close>

fun send_deferred_loop ::
  "crypto \<Rightarrow> nat \<Rightarrow> key_state \<Rightarrow> traf_out \<Rightarrow> unit ssh_result \<times> key_state \<times> traf_out" where
  "send_deferred_loop cr 0 keys out = (Inr (), keys, out)"
| "send_deferred_loop cr (Suc n) keys out =
     (if deferred_packets out = [] then (Inr (), keys, out)
      else
        (case send_packet_inner cr (packet_from_deferred (last (deferred_packets out))) keys out of
           (Inr _, keys, out) \<Rightarrow>
             send_deferred_loop cr n keys (out\<lparr>deferred_packets := butlast (deferred_packets out)\<rparr>)
         | (Inl NoRoom, keys, out) \<Rightarrow> (Inr (), keys, out)
         | (Inl e, keys, out) \<Rightarrow> (Inl e, keys, out)))"

definition send_deferred_packets ::
  "crypto \<Rightarrow> key_state \<Rightarrow> traf_out \<Rightarrow> unit ssh_result \<times> key_state \<times> traf_out" where
  "send_deferred_packets cr keys out = send_deferred_loop cr (length (deferred_packets out)) keys out"

definition have_deferred_packets :: "traf_out \<Rightarrow> bool" where
  "have_deferred_packets out = (deferred_packets out \<noteq> [])"

definition is_output_pending :: "traf_out \<Rightarrow> bool" where
  "is_output_pending out = (case tx out of TxWrite _ _ \<Rightarrow> True | _ \<Rightarrow> False)"

definition traf_out_send_allowed :: "key_state \<Rightarrow> traf_out \<Rightarrow> nat" where
  "traf_out_send_allowed keys out =
     (if deferred_packets out \<noteq> [] then 0
      else (case tx out of
              TxWrite _ len \<Rightarrow> max_enc_payload (length (out_buf out) - len) keys
            | TxIdle \<Rightarrow> max_enc_payload (length (out_buf out)) keys
            | TxClosed \<Rightarrow> length (out_buf out)))"

definition traf_out_close :: "traf_out \<Rightarrow> traf_out" where
  "traf_out_close out = out\<lparr>tx := TxClosed\<rparr>"

definition traf_out_closed :: "traf_out \<Rightarrow> bool" where
  "traf_out_closed out = (tx out = TxClosed)"

definition send_version :: "traf_out \<Rightarrow> traf_out ssh_result" where
  "send_version out =
     (if tx out \<noteq> TxIdle then Inl Bug
      else and_then (write_version (out_buf out)) (\<lambda>(len, buf).
             Inr (out\<lparr>out_buf := buf, tx := TxWrite 0 len\<rparr>)))"

definition output_buf :: "traf_out \<Rightarrow> bytes ssh_result" where
  "output_buf out =
     (case tx out of
        TxWrite idx len \<Rightarrow> panic_option (slice (out_buf out) idx (idx + (len - idx)))
      | _ \<Rightarrow> Inr [])"

definition consume_output :: "nat \<Rightarrow> traf_out \<Rightarrow> traf_out" where
  "consume_output l out =
     (case tx out of
        TxWrite idx len \<Rightarrow>
          let wlen = min (len - idx) l in
          out\<lparr>tx := (if idx + wlen = len then TxIdle else TxWrite (idx + wlen) len)\<rparr>
      | _ \<Rightarrow> out)"

definition is_draining :: "traf_out \<Rightarrow> bool" where
  "is_draining out = drain out"

subsection \<open>Sending with the current keys\<close>

text \<open>\<open>TrafSend\<close>, which borrows the keys and the output.\<close>

record traf_send =
  ts_keys :: key_state
  ts_out :: traf_out

definition ts_send :: "crypto \<Rightarrow> packet \<Rightarrow> traf_send \<Rightarrow> unit ssh_result \<times> traf_send" where
  "ts_send cr p ts =
     (let (r, keys, out) = send_packet cr p (ts_keys ts) (ts_out ts)
      in (r, ts\<lparr>ts_keys := keys, ts_out := out\<rparr>))"

definition ts_rekey_send :: "keys_send \<Rightarrow> traf_send \<Rightarrow> traf_send" where
  "ts_rekey_send ks ts = ts\<lparr>ts_keys := rekey_send ks (ts_keys ts)\<rparr>"

definition ts_rekey_recv :: "keys_recv \<Rightarrow> traf_send \<Rightarrow> traf_send" where
  "ts_rekey_recv kr ts = ts\<lparr>ts_keys := rekey_recv kr (ts_keys ts)\<rparr>"

definition ts_send_version :: "traf_send \<Rightarrow> unit ssh_result \<times> traf_send" where
  "ts_send_version ts =
     (case send_version (ts_out ts) of
        Inl e \<Rightarrow> (Inl e, ts)
      | Inr out \<Rightarrow> (Inr (), ts\<lparr>ts_out := out\<rparr>))"

definition ts_recv_seq :: "traf_send \<Rightarrow> u32" where
  "ts_recv_seq ts = seq_decrypt (ts_keys ts)"

definition ts_enable_strict_kex :: "traf_send \<Rightarrow> traf_send" where
  "ts_enable_strict_kex ts = ts\<lparr>ts_keys := enable_strict_kex (ts_keys ts)\<rparr>"

definition ts_is_rekey_needed :: "traf_send \<Rightarrow> bool" where
  "ts_is_rekey_needed ts = is_rekey_needed (ts_keys ts)"

definition set_drain_output :: "bool \<Rightarrow> traf_out \<Rightarrow> traf_out" where
  "set_drain_output d out = out\<lparr>drain := d\<rparr>"

definition ts_set_drain_output :: "bool \<Rightarrow> traf_send \<Rightarrow> traf_send" where
  "ts_set_drain_output d ts = ts\<lparr>ts_out := set_drain_output d (ts_out ts)\<rparr>"

definition is_drained :: "traf_out \<Rightarrow> bool" where
  "is_drained out \<longleftrightarrow> tx out = TxIdle \<and> deferred_packets out = []"

definition ts_is_drained :: "traf_send \<Rightarrow> bool" where
  "ts_is_drained ts = is_drained (ts_out ts)"

text \<open>A request to the random number generator, which the key state counts.\<close>

definition ts_fill_random :: "crypto \<Rightarrow> nat \<Rightarrow> traf_send \<Rightarrow> bytes ssh_result \<times> traf_send" where
  "ts_fill_random cr len ts =
     (fill_random cr (rng_calls (ts_keys ts)) len,
      ts\<lparr>ts_keys := (ts_keys ts)\<lparr>rng_calls := rng_calls (ts_keys ts) + 1\<rparr>\<rparr>)"

end
