(* ===== verification/SSH_Event.thy ===== *)
theory SSH_Event
  imports SSH_Traffic
begin

section \<open>Events\<close>

text \<open>
  The identifiers of the events that the connection reports to the application
  (\<open>src/src/event.rs\<close>) and \<open>DispatchEvent\<close> of \<open>src/src/conn.rs\<close>, the result of handling a packet.
  \<open>needs_resume\<close> says which events the application has to answer before the connection goes on.
\<close>

datatype cli_event_id =
    CliHostkey
  | CliUsername
  | CliPassword
  | CliPubkey
  | CliAgentSign
  | CliAuthenticated
  | CliSessionOpened chan_num
  | CliSessionExit
  | CliBanner
  | CliDefunct

fun cli_needs_resume :: "cli_event_id \<Rightarrow> bool" where
  "cli_needs_resume CliAuthenticated = False"
| "cli_needs_resume (CliSessionOpened _) = False"
| "cli_needs_resume CliSessionExit = False"
| "cli_needs_resume CliBanner = False"
| "cli_needs_resume CliDefunct = False"
| "cli_needs_resume CliHostkey = True"
| "cli_needs_resume CliUsername = True"
| "cli_needs_resume CliPassword = True"
| "cli_needs_resume CliPubkey = True"
| "cli_needs_resume CliAgentSign = True"

datatype serv_event_id =
    ServHostkeys
  | ServPasswordAuth
  | ServPubkeyAuth bool
  | ServFirstAuth
  | ServAuthenticated
  | ServOpenSession chan_num
  | ServSessionShell chan_num
  | ServSessionExec chan_num
  | ServSessionSubsystem chan_num
  | ServSessionPty chan_num
  | ServEnvironment chan_num
  | ServDefunct

fun serv_needs_resume :: "serv_event_id \<Rightarrow> bool" where
  "serv_needs_resume ServDefunct = False"
| "serv_needs_resume ServAuthenticated = False"
| "serv_needs_resume ServHostkeys = True"
| "serv_needs_resume ServFirstAuth = True"
| "serv_needs_resume ServPasswordAuth = True"
| "serv_needs_resume (ServPubkeyAuth _) = True"
| "serv_needs_resume (ServOpenSession _) = True"
| "serv_needs_resume (ServSessionShell _) = True"
| "serv_needs_resume (ServSessionExec _) = True"
| "serv_needs_resume (ServSessionSubsystem _) = True"
| "serv_needs_resume (ServEnvironment _) = True"
| "serv_needs_resume (ServSessionPty _) = True"

datatype dispatch_event =
    DispData data_in
  | DispCliEvent cli_event_id
  | DispServEvent serv_event_id
  | DispKexDone
  | DispProgressed
  | DispNone

fun disp_needs_resume :: "dispatch_event \<Rightarrow> bool" where
  "disp_needs_resume (DispCliEvent x) = cli_needs_resume x"
| "disp_needs_resume (DispServEvent x) = serv_needs_resume x"
| "disp_needs_resume _ = False"

fun disp_is_event :: "dispatch_event \<Rightarrow> bool" where
  "disp_is_event (DispCliEvent _) = True"
| "disp_is_event (DispServEvent _) = True"
| "disp_is_event _ = False"

text \<open>\<open>Dispatched\<close>.\<close>

record dispatched =
  disp_event :: dispatch_event
  disp_disconnect :: bool

definition dispatched_default :: dispatched where
  "dispatched_default = \<lparr>disp_event = DispNone, disp_disconnect = False\<rparr>"

lemma needs_resume_is_event: "disp_needs_resume ev \<Longrightarrow> disp_is_event ev"
  by (cases ev) auto

end
