(* ===== verification/SSH_Sign.thy ===== *)
theory SSH_Sign
  imports SSH_Packets_Codec SSH_Crypto
begin

section \<open>Signatures\<close>

text \<open>
  \<open>src/src/sign.rs\<close>: the signing keys and the check of signatures, for the default features (no RSA, no
  ECDSA), and the message that is signed for public key authentication (\<open>src/src/auth.rs\<close>). Signing and
  verifying write the message into a buffer of fixed size first; \<open>auth_sig_msg_fits\<close> shows that it is
  large enough for every user name that the program accepts.
\<close>

definition MAX_ED25519_SIG_MSG :: nat where
  "MAX_ED25519_SIG_MSG =
     1 + 4 + 40 + 4 + 14 + 4 + 9 + 1 + 4 + length SSH_NAME_CURVE25519_LIBSSH + 4 + 32 + 32"

definition sig_type_from_name :: "string \<Rightarrow> sig_type ssh_result" where
  "sig_type_from_name name =
     (if name = SSH_NAME_ED25519 then Inr SigTypeEd25519
      else if name = SSH_NAME_SK_ED25519 then Inr SigTypeSkEd25519
      else Inl Bug)"

fun sig_type_algorithm_name :: "sig_type \<Rightarrow> string" where
  "sig_type_algorithm_name SigTypeEd25519 = SSH_NAME_ED25519"
| "sig_type_algorithm_name SigTypeSkEd25519 = SSH_NAME_SK_ED25519"

text \<open>The message is written at the start of a zeroed buffer.\<close>

definition sig_msg_bytes :: "sink_prog \<Rightarrow> bytes ssh_result" where
  "sig_msg_bytes msg =
     and_then (write_ssh (replicate MAX_ED25519_SIG_MSG 0) msg) (\<lambda>(l, buf). Inr (take l buf))"

definition verify_ed25519 :: "crypto \<Rightarrow> bytes \<Rightarrow> sink_prog \<Rightarrow> bytes \<Rightarrow> unit ssh_result" where
  "verify_ed25519 cr k msg s =
     (if \<not> ed25519_key_valid cr k then Inl BadKey
      else if length s \<noteq> 64 then Inl BadSig
      else and_then (sig_msg_bytes msg) (\<lambda>buf.
             if ed25519_verify cr k buf s then Inr () else Inl BadSig))"

definition sig_type_verify :: "crypto \<Rightarrow> sig_type \<Rightarrow> pub_key \<Rightarrow> sink_prog \<Rightarrow> signature \<Rightarrow> unit ssh_result" where
  "sig_type_verify cr st pubkey msg sig =
     (case signature_sig_type sig of
        Inl _ \<Rightarrow> Inl BadSig
      | Inr sig_type \<Rightarrow>
          if sig_type \<noteq> st then Inl BadSig
          else (case (st, pubkey, sig) of
                  (SigTypeEd25519, PubKeyEd25519 k, SigEd25519 s) \<Rightarrow> verify_ed25519 cr k msg s
                | _ \<Rightarrow> Inl BadSig))"

text \<open>\<open>TryFrom<Signature> for OwnedSig\<close>\<close>

fun owned_sig_try_from :: "signature \<Rightarrow> owned_sig ssh_result" where
  "owned_sig_try_from (SigEd25519 s) = (if length s = 64 then Inr (OwnedEd25519 s) else Inl BadSig)"
| "owned_sig_try_from (SigSkEd25519 s flags counter) =
     (if length s = 64 then Inr (OwnedSkEd25519 s flags counter) else Inl BadSig)"
| "owned_sig_try_from (SigUnknown u) = Inl (UnknownMethod ''signature'')"

subsection \<open>Signing keys\<close>

text \<open>A signing key is the 32 byte secret; an agent key is only the public half.\<close>

datatype sign_key =
    SignEd25519 bytes
  | AgentEd25519 bytes
  | AgentSkEd25519 bytes bytes

datatype key_type = KeyTypeEd25519

definition MAX_SK_APPLICATION :: nat where "MAX_SK_APPLICATION = 64"

text \<open>\<open>random::rng()\<close> panics when the operating system gives no random data.\<close>

fun sign_key_generate :: "crypto \<Rightarrow> nat \<Rightarrow> key_type \<Rightarrow> nat option \<Rightarrow> sign_key ssh_result" where
  "sign_key_generate cr calls KeyTypeEd25519 bits =
     (if (case bits of None \<Rightarrow> 256 | Some b \<Rightarrow> b) \<noteq> 256 then Inl (Custom ''Bad key size'')
      else and_then (panic_option (getrandom cr calls 32)) (\<lambda>k. Inr (SignEd25519 k)))"

fun sign_key_pubkey :: "crypto \<Rightarrow> sign_key \<Rightarrow> pub_key" where
  "sign_key_pubkey cr (SignEd25519 k) = PubKeyEd25519 (ed25519_verifying_key cr k)"
| "sign_key_pubkey cr (AgentEd25519 pk) = PubKeyEd25519 pk"
| "sign_key_pubkey cr (AgentSkEd25519 key application) = PubKeySkEd25519 key application"

fun sign_key_from_agent_pubkey :: "crypto \<Rightarrow> pub_key \<Rightarrow> sign_key ssh_result" where
  "sign_key_from_agent_pubkey cr (PubKeyEd25519 k) =
     (if ed25519_key_valid cr k then Inr (AgentEd25519 k) else Inl BadKey)"
| "sign_key_from_agent_pubkey cr (PubKeySkEd25519 k application) =
     (if length k \<noteq> 32 then Inl BadKey
      else if length application > MAX_SK_APPLICATION then Inl (Custom ''SK application too long'')
      else Inr (AgentSkEd25519 k application))"
| "sign_key_from_agent_pubkey cr (PubKeyUnknown _) = Inl (Custom ''Unsupported agent key'')"

fun sign_key_can_sign :: "sign_key \<Rightarrow> sig_type \<Rightarrow> bool" where
  "sign_key_can_sign (SignEd25519 _) st \<longleftrightarrow> st = SigTypeEd25519"
| "sign_key_can_sign (AgentEd25519 _) st \<longleftrightarrow> st = SigTypeEd25519"
| "sign_key_can_sign (AgentSkEd25519 _ _) st \<longleftrightarrow> st = SigTypeSkEd25519"

fun sign_key_sign :: "crypto \<Rightarrow> sign_key \<Rightarrow> sink_prog \<Rightarrow> owned_sig ssh_result" where
  "sign_key_sign cr (SignEd25519 k) msg =
     and_then (sig_msg_bytes msg) (\<lambda>buf. Inr (OwnedEd25519 (ed25519_sign cr k buf)))"
| "sign_key_sign cr (AgentEd25519 _) msg = Inl Panic"
| "sign_key_sign cr (AgentSkEd25519 _ _) msg = Inl Panic"

fun sign_key_is_agent :: "sign_key \<Rightarrow> bool" where
  "sign_key_is_agent (SignEd25519 _) = False"
| "sign_key_is_agent (AgentEd25519 _) = True"
| "sign_key_is_agent (AgentSkEd25519 _ _) = True"

subsection \<open>The message signed for public key authentication\<close>

record userauth_request =
  ur_username :: bytes
  ur_service :: string
  ur_method :: auth_method

record auth_sig_msg =
  as_sess_id :: bytes
  as_u :: userauth_request

definition enc_userauth_request :: "userauth_request \<Rightarrow> sink_prog" where
  "enc_userauth_request u =
     enc_all [enc_textstring (ur_username u), enc_str (ur_service u), enc_auth_method (ur_method u)]"

definition enc_auth_sig_msg :: "auth_sig_msg \<Rightarrow> sink_prog" where
  "enc_auth_sig_msg m =
     enc_all [enc_binstring (as_sess_id m), enc_u8 (message_number_u8 SSH_MSG_USERAUTH_REQUEST),
              enc_userauth_request (as_u m)]"

definition auth_sig_msg_new :: "userauth_request \<Rightarrow> bytes \<Rightarrow> auth_sig_msg" where
  "auth_sig_msg_new u sess_id = \<lparr>as_sess_id = sess_id, as_u = u\<rparr>"

subsection \<open>Signing and verifying\<close>

lemma sig_msg_bytes_Inr:
  "sig_msg_bytes msg = Inr buf \<longleftrightarrow>
     failure msg = None \<and> buf = emitted msg \<and> length (emitted msg) \<le> MAX_ED25519_SIG_MSG"
  by (auto simp: sig_msg_bytes_def write_ssh_eq overwrite_def split: option.splits)

lemma sig_msg_bytes_not_Panic: "sig_msg_bytes msg \<noteq> Inl Panic"
  by (auto simp: sig_msg_bytes_def write_ssh_eq split: option.splits)

lemma sig_type_names: "sig_type_from_name (sig_type_algorithm_name t) = Inr t"
  by (cases t) (simp_all add: sig_type_from_name_def SSH_NAME_ED25519_def SSH_NAME_SK_ED25519_def)

lemma verify_Inr:
  "sig_type_verify cr st pubkey msg sig = Inr () \<longleftrightarrow>
     (\<exists>k s. st = SigTypeEd25519 \<and> pubkey = PubKeyEd25519 k \<and> sig = SigEd25519 s \<and> length s = 64
        \<and> ed25519_key_valid cr k \<and> failure msg = None \<and> length (emitted msg) \<le> MAX_ED25519_SIG_MSG
        \<and> ed25519_verify cr k (emitted msg) s)"
  by (auto simp: sig_type_verify_def verify_ed25519_def and_then_Inr_eq sig_msg_bytes_Inr
      split: sum.splits sig_type.splits pub_key.splits signature.splits if_splits)

lemma sign_verify:
  assumes "sign_crypto_ok cr" "sign_key_sign cr k msg = Inr sig"
  shows "sig_type_verify cr SigTypeEd25519 (sign_key_pubkey cr k) msg (signature_from_owned sig) = Inr ()"
  using assms
  by (cases k) (auto simp: verify_Inr and_then_Inr_eq sig_msg_bytes_Inr sign_crypto_ok_def)

lemma sign_not_Panic: "\<not> sign_key_is_agent k \<Longrightarrow> sign_key_sign cr k msg \<noteq> Inl Panic"
  by (cases k) (auto simp: and_then_Inl_eq sig_msg_bytes_not_Panic)

text \<open>A request to log in with an Ed25519 key fits for the user names that the program accepts.\<close>

lemma auth_sig_msg_fits:
  assumes "length sess_id = 32" "length user \<le> 34" "length key = 32"
    and m: "method_pub_key_new (PubKeyEd25519 key) None = Inr m"
    and u: "u = \<lparr>ur_username = user, ur_service = SSH_SERVICE_CONNECTION,
               ur_method = MethodPubKey (m\<lparr>mpk_force_sig := True\<rparr>)\<rparr>"
  defines "msg \<equiv> enc_auth_sig_msg (auth_sig_msg_new u sess_id)"
  shows "failure msg = None" "length (emitted msg) = 143 + length user"
    "length (emitted msg) \<le> MAX_ED25519_SIG_MSG"
proof -
  have m': "m = \<lparr>mpk_sig_algo = SSH_NAME_ED25519, mpk_pubkey = PubKeyEd25519 key, mpk_sig = None, mpk_force_sig = False\<rparr>"
    using m by (simp add: method_pub_key_new_def trap_result_def)
  have "failure (enc_pub_key (PubKeyEd25519 key)) = None" using assms(3) by (simp add: pub_key_codec.enc_ok)
  moreover have "length (emitted (enc_pub_key (PubKeyEd25519 key))) = 51"
    using assms(3) by (simp add: enc_pub_key_def enc_simps SSH_NAME_ED25519_def emitted_enc_blob)
  ultimately have k: "failure (enc_blob (enc_pub_key (PubKeyEd25519 key))) = None"
    "length (emitted (enc_blob (enc_pub_key (PubKeyEd25519 key)))) = 55"
    by (simp_all add: failure_enc_blob emitted_enc_blob)
  show f: "failure msg = None"
    using k by (simp add: msg_def enc_auth_sig_msg_def auth_sig_msg_new_def u m' enc_userauth_request_def
        enc_auth_method_def enc_method_pub_key_def enc_simps Let_def)
  show l: "length (emitted msg) = 143 + length user"
    using k assms(1) by (simp add: msg_def enc_auth_sig_msg_def auth_sig_msg_new_def u m' enc_userauth_request_def
        enc_auth_method_def enc_method_pub_key_def enc_simps Let_def SSH_NAME_ED25519_def
        SSH_SERVICE_CONNECTION_def SSH_AUTHMETHOD_PUBLICKEY_def emitted_enc_blob)
  show "length (emitted msg) \<le> MAX_ED25519_SIG_MSG"
    using l assms(2) by (simp add: MAX_ED25519_SIG_MSG_def SSH_NAME_CURVE25519_LIBSSH_def)
qed

end
