(* ===== verification/SSH_Kex.thy ===== *)
theory SSH_Kex
  imports SSH_Event SSH_Sign
begin

section \<open>Key exchange\<close>

text \<open>
  \<open>src/src/kex.rs\<close>: algorithm negotiation, the Curve25519 and ML-KEM hybrid exchanges, the exchange hash,
  the derivation of keys (with \<open>KeysSend::new\<close> and \<open>KeysRecv::new\<close> of \<open>src/src/encrypt.rs\<close>) and the
  state machine \<open>Kex\<close>. The type parameter \<open>CS\<close> of the source is the argument \<open>is_client\<close>.

  A \<open>Sha256\<close> context is the bytes hashed so far; its output has 32 bytes by its type.
\<close>

subsection \<open>Configuration\<close>

definition fixed_options_kex :: "string list" where
  "fixed_options_kex = [SSH_NAME_MLKEM_X25519, SSH_NAME_CURVE25519, SSH_NAME_CURVE25519_LIBSSH]"

definition marker_only_kexs :: "string list" where
  "marker_only_kexs =
     [SSH_NAME_EXT_INFO_C, SSH_NAME_EXT_INFO_S, SSH_NAME_KEXGUESS2, SSH_NAME_STRICT_KEX_C,
      SSH_NAME_STRICT_KEX_S]"

definition fixed_options_hostsig :: "string list" where
  "fixed_options_hostsig = [SSH_NAME_ED25519]"

definition fixed_options_cipher :: "string list" where
  "fixed_options_cipher = [SSH_NAME_CHAPOLY, SSH_NAME_AES256_CTR]"

definition fixed_options_mac :: "string list" where
  "fixed_options_mac = [SSH_NAME_HMAC_SHA256]"

definition fixed_options_comp :: "string list" where
  "fixed_options_comp = [SSH_NAME_NONE]"

record algo_config =
  ac_kexs :: local_names
  ac_hostsig :: local_names
  ac_ciphers :: local_names
  ac_macs :: local_names
  ac_comps :: local_names

text \<open>\<open>Vec::push(..).unwrap()\<close> on a list of local names.\<close>

definition local_names_push :: "string \<Rightarrow> local_names \<Rightarrow> local_names ssh_result" where
  "local_names_push n l = (if length l < MAX_LOCAL_NAMES then Inr (l @ [n]) else Inl Panic)"

definition algo_config_new :: "bool \<Rightarrow> algo_config ssh_result" where
  "algo_config_new is_client =
     and_then (panic_option (local_names_try_from fixed_options_kex)) (\<lambda>kexs.
     and_then (if is_client
               then and_then (local_names_push SSH_NAME_EXT_INFO_C kexs) (local_names_push SSH_NAME_STRICT_KEX_C)
               else local_names_push SSH_NAME_STRICT_KEX_S kexs) (\<lambda>kexs.
     and_then (local_names_push SSH_NAME_KEXGUESS2 kexs) (\<lambda>kexs.
     and_then (panic_option (local_names_try_from fixed_options_hostsig)) (\<lambda>hostsig.
     and_then (panic_option (local_names_try_from fixed_options_cipher)) (\<lambda>ciphers.
     and_then (panic_option (local_names_try_from fixed_options_mac)) (\<lambda>macs.
     and_then (panic_option (local_names_try_from fixed_options_comp)) (\<lambda>comps.
     Inr \<lparr>ac_kexs = kexs, ac_hostsig = hostsig, ac_ciphers = ciphers, ac_macs = macs, ac_comps = comps\<rparr>)))))))"

definition make_kexinit :: "bytes \<Rightarrow> algo_config \<Rightarrow> packet" where
  "make_kexinit cookie conf =
     KexInit \<lparr>ki_cookie = cookie, ki_kex = LocalNames (ac_kexs conf), ki_hostsig = LocalNames (ac_hostsig conf),
       ki_cipher_c2s = LocalNames (ac_ciphers conf), ki_cipher_s2c = LocalNames (ac_ciphers conf),
       ki_mac_c2s = LocalNames (ac_macs conf), ki_mac_s2c = LocalNames (ac_macs conf),
       ki_comp_c2s = LocalNames (ac_comps conf), ki_comp_s2c = LocalNames (ac_comps conf),
       ki_lang_c2s = name_list_empty, ki_lang_s2c = name_list_empty,
       ki_first_follows = False, ki_reserved = 0\<rparr>"

definition KEX_COOKIE_LEN :: nat where "KEX_COOKIE_LEN = 16"

definition kex_cookie_generate :: "crypto \<Rightarrow> traf_send \<Rightarrow> bytes ssh_result \<times> traf_send" where
  "kex_cookie_generate cr = ts_fill_random cr KEX_COOKIE_LEN"

text \<open>\<open>random::rng()\<close>, whose reads panic when the operating system gives no random data.\<close>

definition ts_rng :: "crypto \<Rightarrow> nat \<Rightarrow> traf_send \<Rightarrow> bytes ssh_result \<times> traf_send" where
  "ts_rng cr len ts =
     (let (r, ts) = ts_fill_random cr len ts in (map_err (\<lambda>_. Panic) r, ts))"

subsection \<open>The exchange hash\<close>

type_synonym kex_hash = bytes

datatype kex_key = KexKeyMpint bytes | KexKeyString bytes

definition hash_slice :: "bytes \<Rightarrow> kex_hash \<Rightarrow> kex_hash" where
  "hash_slice v h = (case hash_ser h (enc_binstring v) of Inr h \<Rightarrow> h | Inl _ \<Rightarrow> h)"

definition kex_hash_new ::
  "bool \<Rightarrow> algo_config \<Rightarrow> bytes \<Rightarrow> remote_version \<Rightarrow> packet \<Rightarrow> kex_hash ssh_result" where
  "kex_hash_new is_client algo_conf our_cookie rv remote_kexinit =
     and_then (and_then (version rv) trap_option) (\<lambda>remote_version.
     let own_kexinit = make_kexinit our_cookie algo_conf in
     if is_client then
       and_then (hash_ser_length (hash_slice remote_version (hash_slice OUR_VERSION [])) (enc_packet own_kexinit))
         (\<lambda>h. hash_ser_length h (enc_packet remote_kexinit))
     else
       and_then (hash_ser_length (hash_slice OUR_VERSION (hash_slice remote_version [])) (enc_packet remote_kexinit))
         (\<lambda>h. hash_ser_length h (enc_packet own_kexinit)))"

definition hash_hostkey :: "pub_key \<Rightarrow> kex_hash \<Rightarrow> kex_hash ssh_result" where
  "hash_hostkey host_key h = hash_ser_length h (enc_pub_key host_key)"

definition hash_pubkeys :: "bytes \<Rightarrow> bytes \<Rightarrow> kex_hash \<Rightarrow> kex_hash" where
  "hash_pubkeys q_c q_s h = hash_slice q_s (hash_slice q_c h)"

fun kex_key_hash :: "kex_key \<Rightarrow> bytes \<Rightarrow> bytes ssh_result" where
  "kex_key_hash (KexKeyMpint k) h = hash_mpint h k"
| "kex_key_hash (KexKeyString k) h = Inr (hash_slice k h)"

definition kex_hash_finish :: "crypto \<Rightarrow> kex_key \<Rightarrow> kex_hash \<Rightarrow> bytes ssh_result" where
  "kex_hash_finish cr k h = and_then (kex_key_hash k h) (\<lambda>h. Inr (sha256 cr h))"

record kex_output =
  ko_h :: bytes
  ko_partial_hash :: bytes

definition kex_output_new :: "crypto \<Rightarrow> kex_key \<Rightarrow> kex_hash \<Rightarrow> kex_output ssh_result" where
  "kex_output_new cr k h =
     and_then (kex_hash_finish cr k h) (\<lambda>h.
     and_then (kex_key_hash k []) (\<lambda>partial.
     Inr \<lparr>ko_h = h, ko_partial_hash = partial @ h\<rparr>))"

text \<open>
  \<open>compute_key\<close> fills the first \<open>len\<close> bytes of a buffer of \<open>outlen\<close>: \<open>split_at_mut\<close> and the slices
  of the 32 byte digest panic out of range.
\<close>

definition SHA256_SIZE :: nat where "SHA256_SIZE = 32"

definition compute_key :: "crypto \<Rightarrow> kex_output \<Rightarrow> char \<Rightarrow> nat \<Rightarrow> nat \<Rightarrow> bytes \<Rightarrow> bytes ssh_result" where
  "compute_key cr ko letter len outlen sess_id =
     (let l = min len SHA256_SIZE;
          w = sha256 cr (ko_partial_hash ko @ [byte_of_char letter] @ sess_id);
          key1 = take l w
      in if len > outlen then Inl Panic
         else if len - l = 0 then Inr key1
         else if len - l > SHA256_SIZE then Inl Panic
         else Inr (key1 @ take (len - l) (sha256 cr (ko_partial_hash ko @ key1))))"

subsection \<open>Shared secrets\<close>

record kex_curve25519 =
  kc_ours :: "bytes option"
  kc_pubkey :: bytes

definition kex_curve25519_new :: "crypto \<Rightarrow> traf_send \<Rightarrow> kex_curve25519 ssh_result \<times> traf_send" where
  "kex_curve25519_new cr =
     st_bind (ts_rng cr 32) (\<lambda>ours. st_lift (Inr \<lparr>kc_ours = Some ours, kc_pubkey = x25519_public cr ours\<rparr>))"

definition raw_secret :: "crypto \<Rightarrow> bytes \<Rightarrow> kex_curve25519 \<Rightarrow> (bytes \<times> kex_curve25519) ssh_result" where
  "raw_secret cr theirs k =
     (if length theirs \<noteq> 32 then Inl BadKex
      else and_then (trap_option (kc_ours k)) (\<lambda>ours.
             Inr (x25519_diffie_hellman cr ours theirs, k\<lparr>kc_ours := None\<rparr>)))"

definition curve25519_secret ::
  "crypto \<Rightarrow> bytes \<Rightarrow> kex_hash \<Rightarrow> bool \<Rightarrow> kex_curve25519 \<Rightarrow> (kex_output \<times> kex_curve25519) ssh_result" where
  "curve25519_secret cr theirs h is_client k =
     (let h = (if is_client then hash_pubkeys (kc_pubkey k) theirs h else hash_pubkeys theirs (kc_pubkey k) h) in
      and_then (raw_secret cr theirs k) (\<lambda>(shsec, k).
      and_then (kex_output_new cr (KexKeyMpint shsec) h) (\<lambda>ko. Inr (ko, k))))"

record kex_mlkem_x25519 =
  km_ecdh :: kex_curve25519
  km_mlkem_seed :: "bytes option"

definition MLKEM768_CIPHERTEXT_SIZE :: nat where "MLKEM768_CIPHERTEXT_SIZE = 1088"
definition MLKEM768_PUBKEY_SIZE :: nat where "MLKEM768_PUBKEY_SIZE = 1184"
definition MLKEM_SEED_SIZE :: nat where "MLKEM_SEED_SIZE = 64"

definition kex_mlkem_new :: "crypto \<Rightarrow> traf_send \<Rightarrow> kex_mlkem_x25519 ssh_result \<times> traf_send" where
  "kex_mlkem_new cr =
     st_bind (kex_curve25519_new cr) (\<lambda>ecdh. st_lift (Inr \<lparr>km_ecdh = ecdh, km_mlkem_seed = None\<rparr>))"

definition pubkey_client :: "bytes \<Rightarrow> kex_mlkem_x25519 \<Rightarrow> bytes" where
  "pubkey_client ek k = ek @ kc_pubkey (km_ecdh k)"

definition init_pubkey_arr_client ::
  "crypto \<Rightarrow> kex_mlkem_x25519 \<Rightarrow> traf_send \<Rightarrow> (bytes \<times> kex_mlkem_x25519) ssh_result \<times> traf_send" where
  "init_pubkey_arr_client cr k =
     st_bind (ts_fill_random cr MLKEM_SEED_SIZE) (\<lambda>seed.
     st_lift (Inr (pubkey_client (mlkem_encapsulation_key cr seed) k, k\<lparr>km_mlkem_seed := Some seed\<rparr>)))"

definition split_at_checked :: "nat \<Rightarrow> bytes \<Rightarrow> (bytes \<times> bytes) option" where
  "split_at_checked n b = (if n \<le> length b then Some (take n b, drop n b) else None)"

definition derive_secret ::
  "crypto \<Rightarrow> bytes \<Rightarrow> bytes \<Rightarrow> kex_hash \<Rightarrow> kex_mlkem_x25519 \<Rightarrow> (kex_output \<times> kex_mlkem_x25519) ssh_result" where
  "derive_secret cr pq_secret ecdh_theirs h k =
     and_then (raw_secret cr ecdh_theirs (km_ecdh k)) (\<lambda>(ec_secret, ecdh).
     and_then (kex_output_new cr (KexKeyString (sha256 cr (pq_secret @ ec_secret))) h) (\<lambda>ko.
     Inr (ko, k\<lparr>km_ecdh := ecdh\<rparr>)))"

definition secret_encap_server ::
  "crypto \<Rightarrow> bytes \<Rightarrow> kex_hash \<Rightarrow> kex_mlkem_x25519 \<Rightarrow> traf_send
     \<Rightarrow> (kex_output \<times> bytes \<times> kex_mlkem_x25519) ssh_result \<times> traf_send" where
  "secret_encap_server cr c_pk h k =
     st_bind (st_lift (ok_or BadKex (split_at_checked MLKEM768_PUBKEY_SIZE c_pk))) (\<lambda>(pq_in, ec_in).
     if \<not> mlkem_key_valid cr pq_in then st_lift (Inl BadKex)
     else st_bind (ts_fill_random cr 32) (\<lambda>m.
       let (ct, pq_secret) = mlkem_encapsulate cr pq_in m;
           ct_out = ct @ kc_pubkey (km_ecdh k)
       in st_lift (and_then (derive_secret cr pq_secret ec_in (hash_pubkeys c_pk ct_out h) k)
            (\<lambda>(ko, k). Inr (ko, ct_out, k)))))"

definition secret_decap_client ::
  "crypto \<Rightarrow> bytes \<Rightarrow> kex_hash \<Rightarrow> kex_mlkem_x25519 \<Rightarrow> (kex_output \<times> kex_mlkem_x25519) ssh_result" where
  "secret_decap_client cr s_pk h k =
     and_then (ok_or BadKex (split_at_checked MLKEM768_CIPHERTEXT_SIZE s_pk)) (\<lambda>(pq_in, ec_in).
     and_then (trap_option (km_mlkem_seed k)) (\<lambda>seed.
     let k = k\<lparr>km_mlkem_seed := None\<rparr>;
         pq_secret = mlkem_decapsulate cr seed pq_in;
         c_pk = pubkey_client (mlkem_encapsulation_key cr seed) k
     in derive_secret cr pq_secret ec_in (hash_pubkeys c_pk s_pk h) k))"

datatype shared_secret = KexCurve25519 kex_curve25519 | KexMlkemX25519 kex_mlkem_x25519

definition shared_secret_from_name :: "crypto \<Rightarrow> string \<Rightarrow> traf_send \<Rightarrow> shared_secret ssh_result \<times> traf_send" where
  "shared_secret_from_name cr name =
     (if name = SSH_NAME_CURVE25519 \<or> name = SSH_NAME_CURVE25519_LIBSSH then
        st_bind (kex_curve25519_new cr) (\<lambda>k. st_lift (Inr (KexCurve25519 k)))
      else if name = SSH_NAME_MLKEM_X25519 then
        st_bind (kex_mlkem_new cr) (\<lambda>k. st_lift (Inr (KexMlkemX25519 k)))
      else st_lift (Inl Bug))"

fun shared_secret_q_c :: "crypto \<Rightarrow> shared_secret \<Rightarrow> traf_send \<Rightarrow> (bytes \<times> shared_secret) ssh_result \<times> traf_send" where
  "shared_secret_q_c cr (KexCurve25519 k) = st_lift (Inr (kc_pubkey k, KexCurve25519 k))"
| "shared_secret_q_c cr (KexMlkemX25519 k) =
     st_bind (init_pubkey_arr_client cr k) (\<lambda>(b, k). st_lift (Inr (b, KexMlkemX25519 k)))"

definition send_kexdhinit :: "crypto \<Rightarrow> shared_secret \<Rightarrow> traf_send \<Rightarrow> shared_secret ssh_result \<times> traf_send" where
  "send_kexdhinit cr ss =
     st_bind (shared_secret_q_c cr ss) (\<lambda>(q_c, ss).
     st_bind (ts_send cr (KexDHInit q_c)) (\<lambda>_. st_lift (Inr ss)))"

subsection \<open>Negotiated algorithms\<close>

record algos =
  al_kex :: shared_secret
  al_hostsig :: sig_type
  al_cipher_enc :: cipher
  al_cipher_dec :: cipher
  al_integ_enc :: integ
  al_integ_dec :: integ
  al_discard_next :: bool
  al_send_ext_info :: bool
  al_strict_kex :: bool

definition match_algo ::
  "crypto \<Rightarrow> bool \<Rightarrow> string \<Rightarrow> name_list \<Rightarrow> local_names \<Rightarrow> string ssh_result" where
  "match_algo cr is_client algo_kind l conf =
     and_then (first_match (ascii_split cr) l is_client conf) (ok_or (AlgoNoMatch algo_kind))"

definition negotiate_integ ::
  "crypto \<Rightarrow> bool \<Rightarrow> cipher \<Rightarrow> name_list \<Rightarrow> local_names \<Rightarrow> integ ssh_result" where
  "negotiate_integ cr is_client ci l conf =
     (case cipher_integ ci of
        Some i \<Rightarrow> Inr i
      | None \<Rightarrow> and_then (match_algo cr is_client ''mac'' l conf) integ_from_name)"

text \<open>\<open>unwrap\<close> on a result.\<close>

definition unwrap_result :: "'a ssh_result \<Rightarrow> 'a ssh_result" where
  "unwrap_result r = map_err (\<lambda>_. Panic) r"

definition algo_negotiation ::
  "crypto \<Rightarrow> bool \<Rightarrow> kex_init \<Rightarrow> algo_config \<Rightarrow> traf_send \<Rightarrow> algos ssh_result \<times> traf_send" where
  "algo_negotiation cr is_client p conf =
     st_bind (st_lift (has_algo (ascii_split cr) (ki_kex p) SSH_NAME_KEXGUESS2)) (\<lambda>kexguess2.
     st_bind (st_lift (match_algo cr is_client ''kex'' (ki_kex p) (ac_kexs conf))) (\<lambda>kex_method.
     if kex_method \<in> set marker_only_kexs then st_lift (Inl (AlgoNoMatch ''kex''))
     else
       st_bind (shared_secret_from_name cr kex_method) (\<lambda>kex.
       let goodguess_kex =
             (if kexguess2 then name_list_first (ascii_split cr) (ki_kex p) = kex_method
              else name_list_first (ascii_split cr) (ki_kex p) = local_names_first (ac_kexs conf))
       in
       st_bind (st_lift (if is_client then Inr False
                         else unwrap_result (has_algo (ascii_split cr) (ki_kex p) SSH_NAME_EXT_INFO_C)))
         (\<lambda>send_ext_info.
       st_bind (st_lift (unwrap_result (has_algo (ascii_split cr) (ki_kex p)
                  (if is_client then SSH_NAME_STRICT_KEX_S else SSH_NAME_STRICT_KEX_C)))) (\<lambda>strict_kex.
       st_bind (st_lift (match_algo cr is_client ''hostkey'' (ki_hostsig p) (ac_hostsig conf))) (\<lambda>hostsig_method.
       st_bind (st_lift (sig_type_from_name hostsig_method)) (\<lambda>hostsig.
       let goodguess_hostkey =
             (if kexguess2 then name_list_first (ascii_split cr) (ki_hostsig p) = hostsig_method
              else name_list_first (ascii_split cr) (ki_hostsig p) = local_names_first (ac_hostsig conf));
           c2s = (ki_cipher_c2s p, ki_mac_c2s p, ki_comp_c2s p);
           s2c = (ki_cipher_s2c p, ki_mac_s2c p, ki_comp_s2c p);
           ((cipher_tx, mac_tx, comp_tx), (cipher_rx, mac_rx, comp_rx)) =
             (if is_client then (c2s, s2c) else (s2c, c2s))
       in
       st_bind (st_lift (and_then (match_algo cr is_client ''encryption'' cipher_tx (ac_ciphers conf))
                  cipher_from_name)) (\<lambda>cipher_enc.
       st_bind (st_lift (and_then (match_algo cr is_client ''encryption'' cipher_rx (ac_ciphers conf))
                  cipher_from_name)) (\<lambda>cipher_dec.
       st_bind (st_lift (negotiate_integ cr is_client cipher_enc mac_tx (ac_macs conf))) (\<lambda>integ_enc.
       st_bind (st_lift (negotiate_integ cr is_client cipher_dec mac_rx (ac_macs conf))) (\<lambda>integ_dec.
       st_bind (st_lift (match_algo cr is_client ''compression'' comp_tx (ac_comps conf))) (\<lambda>_.
       st_bind (st_lift (match_algo cr is_client ''compression'' comp_rx (ac_comps conf))) (\<lambda>_.
       st_lift (Inr \<lparr>al_kex = kex, al_hostsig = hostsig, al_cipher_enc = cipher_enc, al_cipher_dec = cipher_dec,
         al_integ_enc = integ_enc, al_integ_dec = integ_dec,
         al_discard_next = (ki_first_follows p \<and> \<not> (goodguess_kex \<and> goodguess_hostkey)),
         al_send_ext_info = send_ext_info, al_strict_kex = strict_kex\<rparr>))))))))))))))"

subsection \<open>Keys for the traffic\<close>

definition MAX_IV_LEN :: nat where "MAX_IV_LEN = 32"
definition MAX_KEY_LEN :: nat where "MAX_KEY_LEN = 64"

definition keys_send_new ::
  "crypto \<Rightarrow> bool \<Rightarrow> kex_output \<Rightarrow> bytes \<Rightarrow> algos \<Rightarrow> keys_send ssh_result" where
  "keys_send_new cr is_client ko sess_id al =
     (let (iv_e, k_e, i_e) =
            (if is_client then (CHR ''A'', CHR ''C'', CHR ''E'') else (CHR ''B'', CHR ''D'', CHR ''F''))
      in
      and_then (compute_key cr ko iv_e (cipher_iv_len (al_cipher_enc al)) MAX_IV_LEN sess_id) (\<lambda>ci.
      and_then (compute_key cr ko k_e (cipher_key_len (al_cipher_enc al)) MAX_KEY_LEN sess_id) (\<lambda>ck.
      and_then (unwrap_result (enc_key_from_cipher (al_cipher_enc al) ck ci)) (\<lambda>ciph.
      and_then (compute_key cr ko i_e (integ_key_len (al_integ_enc al)) MAX_KEY_LEN sess_id) (\<lambda>ck.
      and_then (unwrap_result (integ_key_from_integ (al_integ_enc al) ck)) (\<lambda>int.
      Inr \<lparr>s_cipher = ciph, s_integ = int\<rparr>))))))"

definition keys_recv_new ::
  "crypto \<Rightarrow> bool \<Rightarrow> kex_output \<Rightarrow> bytes \<Rightarrow> algos \<Rightarrow> keys_recv ssh_result" where
  "keys_recv_new cr is_client ko sess_id al =
     (let (iv_d, k_d, i_d) =
            (if is_client then (CHR ''B'', CHR ''D'', CHR ''F'') else (CHR ''A'', CHR ''C'', CHR ''E''))
      in
      and_then (compute_key cr ko iv_d (cipher_iv_len (al_cipher_dec al)) MAX_IV_LEN sess_id) (\<lambda>ci.
      and_then (compute_key cr ko k_d (cipher_key_len (al_cipher_dec al)) MAX_KEY_LEN sess_id) (\<lambda>ck.
      and_then (unwrap_result (dec_key_from_cipher (al_cipher_dec al) ck ci)) (\<lambda>ciph.
      and_then (compute_key cr ko i_d (integ_key_len (al_integ_dec al)) MAX_KEY_LEN sess_id) (\<lambda>ck.
      and_then (unwrap_result (integ_key_from_integ (al_integ_dec al) ck)) (\<lambda>int.
      Inr \<lparr>r_cipher = ciph, r_integ = int\<rparr>))))))"

subsection \<open>The two halves of the exchange\<close>

text \<open>The client has the server's answer.\<close>

fun client_secret ::
  "crypto \<Rightarrow> bytes \<Rightarrow> kex_hash \<Rightarrow> shared_secret \<Rightarrow> (kex_output \<times> shared_secret) ssh_result" where
  "client_secret cr q_s h (KexCurve25519 k) =
     and_then (curve25519_secret cr q_s h True k) (\<lambda>(ko, k). Inr (ko, KexCurve25519 k))"
| "client_secret cr q_s h (KexMlkemX25519 k) =
     and_then (secret_decap_client cr q_s h k) (\<lambda>(ko, k). Inr (ko, KexMlkemX25519 k))"

definition shared_secret_handle_kexdhreply ::
  "crypto \<Rightarrow> algos \<Rightarrow> kex_hash \<Rightarrow> pub_key \<Rightarrow> bytes \<Rightarrow> signature \<Rightarrow> (kex_output \<times> algos) ssh_result" where
  "shared_secret_handle_kexdhreply cr al h k_s q_s sig =
     and_then (hash_hostkey k_s h) (\<lambda>h.
     and_then (client_secret cr q_s h (al_kex al)) (\<lambda>(kex_out, kex).
     and_then (sig_type_verify cr (al_hostsig al) k_s (enc_array (ko_h kex_out)) sig) (\<lambda>_.
     Inr (kex_out, al\<lparr>al_kex := kex\<rparr>))))"

text \<open>The server answers the client: the secret, and what it sends as \<open>q_s\<close>.\<close>

fun server_secret ::
  "crypto \<Rightarrow> bytes \<Rightarrow> kex_hash \<Rightarrow> shared_secret \<Rightarrow> traf_send
     \<Rightarrow> (kex_output \<times> bytes \<times> shared_secret) ssh_result \<times> traf_send" where
  "server_secret cr q_c h (KexCurve25519 k) =
     st_lift (and_then (curve25519_secret cr q_c h False k) (\<lambda>(ko, k). Inr (ko, kc_pubkey k, KexCurve25519 k)))"
| "server_secret cr q_c h (KexMlkemX25519 k) =
     st_bind (secret_encap_server cr q_c h k) (\<lambda>(ko, b, k). st_lift (Inr (ko, b, KexMlkemX25519 k)))"

definition send_kexdhreply ::
  "crypto \<Rightarrow> kex_output \<Rightarrow> bytes \<Rightarrow> sign_key \<Rightarrow> traf_send \<Rightarrow> unit ssh_result \<times> traf_send" where
  "send_kexdhreply cr ko kex_pub hostkey =
     st_bind (st_lift (sign_key_sign cr hostkey (enc_array (ko_h ko)))) (\<lambda>sig.
     ts_send cr (KexDHReply (sign_key_pubkey cr hostkey) kex_pub (signature_from_owned sig)))"

definition shared_secret_handle_kexdhinit ::
  "crypto \<Rightarrow> algos \<Rightarrow> kex_hash \<Rightarrow> sign_key list \<Rightarrow> bytes \<Rightarrow> traf_send
     \<Rightarrow> (kex_output \<times> algos) ssh_result \<times> traf_send" where
  "shared_secret_handle_kexdhinit cr al h keys q_c =
     (if keys = [] then st_lift (Inl BadUsage)
      else
        st_bind (st_lift (ok_or BadUsage (List.find (\<lambda>k. sign_key_can_sign k (al_hostsig al)) keys))) (\<lambda>hostkey.
        st_bind (st_lift (hash_hostkey (sign_key_pubkey cr hostkey) h)) (\<lambda>h.
        st_bind (server_secret cr q_c h (al_kex al)) (\<lambda>(kex_out, pubkey, kex).
        st_bind (send_kexdhreply cr kex_out pubkey hostkey) (\<lambda>_.
        st_lift (Inr (kex_out, al\<lparr>al_kex := kex\<rparr>)))))))"

subsection \<open>The state machine\<close>

datatype kex =
    KexIdle
  | StartKexInit
  | KexKexInit bytes
  | StartKexDH bytes algos kex_hash
  | KexDH algos kex_hash
  | KexNewKeys kex_output algos
  | KexTaken

definition kex_new :: kex where "kex_new = KexIdle"

definition start_kexinit :: "kex \<Rightarrow> traf_send \<Rightarrow> kex \<times> traf_send" where
  "start_kexinit kex ts = (StartKexInit, ts_set_drain_output True ts)"

fun kex_is_sending :: "kex \<Rightarrow> bool" where
  "kex_is_sending (KexKexInit _) = True"
| "kex_is_sending (KexDH _ _) = True"
| "kex_is_sending _ = False"

fun kex_is_receiving :: "kex \<Rightarrow> bool" where
  "kex_is_receiving (KexDH _ _) = True"
| "kex_is_receiving (StartKexDH _ _ _) = True"
| "kex_is_receiving (KexNewKeys _ _) = True"
| "kex_is_receiving _ = False"

fun kex_is_strict :: "kex \<Rightarrow> bool" where
  "kex_is_strict (StartKexDH _ al _) = al_strict_kex al"
| "kex_is_strict (KexDH al _) = al_strict_kex al"
| "kex_is_strict (KexNewKeys _ al) = al_strict_kex al"
| "kex_is_strict _ = False"

text \<open>An operation on the output that gives the next state; when it fails the state is \<open>k\<close>.\<close>

definition kex_step :: "kex \<Rightarrow> (traf_send \<Rightarrow> kex ssh_result \<times> traf_send) \<Rightarrow> traf_send \<Rightarrow> unit ssh_result \<times> kex \<times> traf_send" where
  "kex_step k m ts =
     (case m ts of
        (Inl e, ts) \<Rightarrow> (Inl e, k, ts)
      | (Inr k', ts) \<Rightarrow> (Inr (), k', ts))"

fun kex_progress :: "crypto \<Rightarrow> bool \<Rightarrow> algo_config \<Rightarrow> kex \<Rightarrow> traf_send \<Rightarrow> unit ssh_result \<times> kex \<times> traf_send" where
  "kex_progress cr is_client conf KexIdle ts =
     (if ts_is_rekey_needed ts then let (k, ts) = start_kexinit KexIdle ts in (Inr (), k, ts)
      else (Inr (), KexIdle, ts))"
| "kex_progress cr is_client conf StartKexInit ts =
     (if ts_is_drained ts then
        kex_step StartKexInit
          (st_bind (kex_cookie_generate cr) (\<lambda>our_cookie.
           st_bind (ts_send cr (make_kexinit our_cookie conf)) (\<lambda>_.
           st_lift (Inr (KexKexInit our_cookie)))))
          (ts_set_drain_output False ts)
      else (Inr (), StartKexInit, ts))"
| "kex_progress cr is_client conf (StartKexDH our_cookie al h) ts =
     (if ts_is_drained ts then
        kex_step KexTaken
          (st_bind (ts_send cr (make_kexinit our_cookie conf)) (\<lambda>_.
           if is_client then
             st_bind (send_kexdhinit cr (al_kex al)) (\<lambda>ss. st_lift (Inr (KexDH (al\<lparr>al_kex := ss\<rparr>) h)))
           else st_lift (Inr (KexDH al h))))
          (ts_set_drain_output False ts)
      else (Inr (), StartKexDH our_cookie al h, ts))"
| "kex_progress cr is_client conf KexTaken ts = (Inl Bug, KexTaken, ts)"
| "kex_progress cr is_client conf k ts = (Inr (), k, ts)"

text \<open>\<open>start\<close> is set when our own \<open>KexInit\<close> has not been sent yet.\<close>

definition kexinit_negotiated ::
  "crypto \<Rightarrow> bool \<Rightarrow> kex_init \<Rightarrow> algo_config \<Rightarrow> remote_version \<Rightarrow> bool \<Rightarrow> kex \<Rightarrow> bytes \<Rightarrow> traf_send
     \<Rightarrow> kex ssh_result \<times> traf_send" where
  "kexinit_negotiated cr is_client remote_kexinit algo_conf rv first_kex kex our_cookie =
     st_bind (algo_negotiation cr is_client remote_kexinit algo_conf) (\<lambda>al ts.
     if first_kex \<and> al_strict_kex al \<and> ts_recv_seq ts \<noteq> 1 then (Inl PacketWrong, ts)
     else
       let ts = (if first_kex \<and> al_strict_kex al then ts_enable_strict_kex ts else ts) in
       st_bind (st_lift (kex_hash_new is_client algo_conf our_cookie rv (KexInit remote_kexinit))) (\<lambda>h ts.
         if kex \<in> {KexIdle, StartKexInit} then
           (Inr (StartKexDH our_cookie al h), if kex = KexIdle then ts_set_drain_output True ts else ts)
         else if is_client then
           st_bind (send_kexdhinit cr (al_kex al)) (\<lambda>ss. st_lift (Inr (KexDH (al\<lparr>al_kex := ss\<rparr>) h))) ts
         else (Inr (KexDH al h), ts)) ts)"

definition handle_kexinit ::
  "crypto \<Rightarrow> bool \<Rightarrow> kex_init \<Rightarrow> algo_config \<Rightarrow> remote_version \<Rightarrow> bool \<Rightarrow> kex \<Rightarrow> traf_send
     \<Rightarrow> unit ssh_result \<times> kex \<times> traf_send" where
  "handle_kexinit cr is_client remote_kexinit algo_conf rv first_kex kex =
     kex_step kex
       (st_bind (case kex of
                   KexKexInit our_cookie \<Rightarrow> st_lift (Inr our_cookie)
                 | KexIdle \<Rightarrow> kex_cookie_generate cr
                 | StartKexInit \<Rightarrow> kex_cookie_generate cr
                 | _ \<Rightarrow> st_lift (Inl PacketWrong))
          (kexinit_negotiated cr is_client remote_kexinit algo_conf rv first_kex kex))"

text \<open>\<open>sess_id\<close> is set once our \<open>NewKeys\<close> has been sent, so \<open>unwrap\<close> is expected to succeed.\<close>

fun handle_newkeys ::
  "crypto \<Rightarrow> bool \<Rightarrow> bytes option \<Rightarrow> kex \<Rightarrow> traf_send \<Rightarrow> unit ssh_result \<times> kex \<times> traf_send" where
  "handle_newkeys cr is_client sess_id (KexNewKeys ko al) =
     kex_step KexTaken
       (st_bind (st_lift (panic_option sess_id)) (\<lambda>sess_id.
        st_bind (st_lift (keys_recv_new cr is_client ko sess_id al)) (\<lambda>dec ts.
        (Inr KexIdle, ts_rekey_recv dec ts))))"
| "handle_newkeys cr is_client sess_id _ = kex_step KexTaken (st_lift (Inl PacketWrong))"

fun kex_handle_kexdhreply :: "bool \<Rightarrow> kex \<Rightarrow> dispatch_event ssh_result" where
  "kex_handle_kexdhreply is_client kex =
     (if \<not> is_client then Inl SSHProto
      else (case kex of KexDH _ _ \<Rightarrow> Inr (DispCliEvent CliHostkey) | _ \<Rightarrow> Inl PacketWrong))"

fun kex_handle_kexdhinit :: "bool \<Rightarrow> kex \<Rightarrow> dispatch_event ssh_result \<times> kex" where
  "kex_handle_kexdhinit is_client kex =
     (if is_client then (Inl SSHProto, kex)
      else (case kex of
              KexDH al h \<Rightarrow>
                if al_discard_next al then (Inr DispNone, KexDH (al\<lparr>al_discard_next := False\<rparr>) h)
                else (Inr (DispServEvent ServHostkeys), kex)
            | _ \<Rightarrow> (Inl PacketWrong, kex)))"

text \<open>\<open>send_newkeys\<close> also sets the session identifier, at the first exchange.\<close>

definition send_newkeys ::
  "crypto \<Rightarrow> bool \<Rightarrow> kex_output \<Rightarrow> algos \<Rightarrow> bytes option \<Rightarrow> traf_send
     \<Rightarrow> unit ssh_result \<times> kex \<times> bytes option \<times> traf_send" where
  "send_newkeys cr is_client output al sess_id ts =
     (case ts_send cr NewKeys ts of
        (Inl e, ts) \<Rightarrow> (Inl e, KexTaken, sess_id, ts)
      | (Inr _, ts) \<Rightarrow>
          let sid = (case sess_id of Some s \<Rightarrow> s | None \<Rightarrow> ko_h output) in
          (case keys_send_new cr is_client output sid al of
             Inl e \<Rightarrow> (Inl e, KexTaken, Some sid, ts)
           | Inr enc \<Rightarrow> (Inr (), KexNewKeys output al, Some sid, ts_rekey_send enc ts)))"

definition resume_kexdhreply ::
  "crypto \<Rightarrow> pub_key \<Rightarrow> bytes \<Rightarrow> signature \<Rightarrow> bytes option \<Rightarrow> kex \<Rightarrow> traf_send
     \<Rightarrow> unit ssh_result \<times> kex \<times> bytes option \<times> traf_send" where
  "resume_kexdhreply cr k_s q_s sig sess_id kex ts =
     (case kex of
        KexDH al h \<Rightarrow>
          if al_discard_next al then (Inr (), KexDH (al\<lparr>al_discard_next := False\<rparr>) h, sess_id, ts)
          else (case shared_secret_handle_kexdhreply cr al h k_s q_s sig of
                  Inl e \<Rightarrow> (Inl e, KexTaken, sess_id, ts)
                | Inr (output, al) \<Rightarrow> send_newkeys cr True output al sess_id ts)
      | _ \<Rightarrow> (Inl Bug, KexTaken, sess_id, ts))"

text \<open>Without RSA there is no \<open>ext-info\<close> to send.\<close>

definition send_ext_info :: "traf_send \<Rightarrow> unit ssh_result \<times> traf_send" where
  "send_ext_info ts = (Inr (), ts)"

definition resume_kexdhinit ::
  "crypto \<Rightarrow> bytes \<Rightarrow> bool \<Rightarrow> sign_key list \<Rightarrow> bytes option \<Rightarrow> kex \<Rightarrow> traf_send
     \<Rightarrow> unit ssh_result \<times> kex \<times> bytes option \<times> traf_send" where
  "resume_kexdhinit cr q_c first_kex keys sess_id kex ts =
     (case kex of
        KexDH al h \<Rightarrow>
          (case shared_secret_handle_kexdhinit cr al h keys q_c ts of
             (Inl e, ts) \<Rightarrow> (Inl e, KexTaken, sess_id, ts)
           | (Inr (output, al'), ts) \<Rightarrow>
               (case send_newkeys cr False output al' sess_id ts of
                  (Inl e, k, sess_id, ts) \<Rightarrow> (Inl e, k, sess_id, ts)
                | (Inr _, k, sess_id, ts) \<Rightarrow>
                    if first_kex \<and> al_send_ext_info al then
                      let (r, ts) = send_ext_info ts in (r, k, sess_id, ts)
                    else (Inr (), k, sess_id, ts)))
      | _ \<Rightarrow> (Inl Bug, KexTaken, sess_id, ts))"

end
