(* ===== verification/SSH_Auth.thy ===== *)
theory SSH_Auth
  imports SSH_Kex
begin

section \<open>Authentication\<close>

text \<open>
  \<open>src/src/cliauth.rs\<close> and \<open>src/src/client.rs\<close>: the client side, a state machine driven by the server's
  answers and by what the application offers. \<open>src/src/servauth.rs\<close> and \<open>src/src/server.rs\<close>: the server
  side, which checks signatures itself and asks the application for everything else.
\<close>

subsection \<open>The client\<close>

datatype auth_state =
    AuthUnstarted
  | AuthMethodQuery
  | AuthRequest
  | AuthRequestKey sign_key
  | AuthIdle

record cli_auth =
  ca_state :: auth_state
  ca_username :: bytes
  ca_try_password :: bool
  ca_try_pubkey :: bool
  ca_allow_rsa_sha2 :: bool

definition cli_auth_default :: cli_auth where
  "cli_auth_default =
     \<lparr>ca_state = AuthUnstarted, ca_username = [], ca_try_password = True, ca_try_pubkey = True,
      ca_allow_rsa_sha2 = False\<rparr>"

definition userauth_packet :: "userauth_request \<Rightarrow> packet" where
  "userauth_packet u = UserauthRequest (ur_username u) (ur_service u) (ur_method u)"

definition req_packet_password :: "bytes \<Rightarrow> bytes \<Rightarrow> packet" where
  "req_packet_password username pw =
     userauth_packet \<lparr>ur_username = username, ur_service = SSH_SERVICE_CONNECTION, ur_method = MethodPassword False pw\<rparr>"

definition req_packet_pubkey ::
  "crypto \<Rightarrow> bytes \<Rightarrow> sign_key \<Rightarrow> owned_sig option \<Rightarrow> bool \<Rightarrow> userauth_request ssh_result" where
  "req_packet_pubkey cr username key sig force_sig =
     and_then (method_pub_key_new (sign_key_pubkey cr key) sig) (\<lambda>mp.
     Inr \<lparr>ur_username = username, ur_service = SSH_SERVICE_CONNECTION,
          ur_method = MethodPubKey (mp\<lparr>mpk_force_sig := force_sig\<rparr>)\<rparr>)"

definition cli_auth_progress :: "cli_auth \<Rightarrow> dispatch_event \<times> cli_auth" where
  "cli_auth_progress ca =
     (case ca_state ca of
        AuthUnstarted \<Rightarrow> (DispCliEvent CliUsername, ca\<lparr>ca_state := AuthMethodQuery\<rparr>)
      | _ \<Rightarrow> (DispNone, ca))"

definition cli_resume_username ::
  "crypto \<Rightarrow> bytes \<Rightarrow> cli_auth \<Rightarrow> traf_send \<Rightarrow> unit ssh_result \<times> cli_auth \<times> traf_send" where
  "cli_resume_username cr username ca ts =
     (if length username > MAX_USERNAME then (Inl (Custom ''Username too long''), ca, ts)
      else
        let ca = ca\<lparr>ca_username := username\<rparr>;
            (r, ts) =
              st_bind (ts_send cr (ServiceRequest SSH_SERVICE_USERAUTH)) (\<lambda>_.
              ts_send cr (userauth_packet \<lparr>ur_username = ca_username ca, ur_service = SSH_SERVICE_CONNECTION,
                ur_method = MethodNone\<rparr>)) ts
        in (r, ca, ts))"

definition cli_auth_sig_msg :: "crypto \<Rightarrow> sign_key \<Rightarrow> bytes \<Rightarrow> cli_auth \<Rightarrow> auth_sig_msg ssh_result" where
  "cli_auth_sig_msg cr key sess_id ca =
     and_then (req_packet_pubkey cr (ca_username ca) key None True) (\<lambda>p. Inr (auth_sig_msg_new p sess_id))"

text \<open>The request with a signature, for a key that this program holds.\<close>

definition cli_signed_request :: "crypto \<Rightarrow> sign_key \<Rightarrow> bytes \<Rightarrow> cli_auth \<Rightarrow> userauth_request ssh_result" where
  "cli_signed_request cr key sess_id ca =
     and_then (cli_auth_sig_msg cr key sess_id ca) (\<lambda>msg.
     and_then (sign_key_sign cr key (enc_auth_sig_msg msg)) (\<lambda>sig.
     req_packet_pubkey cr (ca_username ca) key (Some sig) True))"

definition cli_auth_pkok ::
  "crypto \<Rightarrow> pub_key \<Rightarrow> bytes \<Rightarrow> cli_auth \<Rightarrow> parse_context \<Rightarrow> traf_send
     \<Rightarrow> dispatch_event ssh_result \<times> parse_context \<times> traf_send" where
  "cli_auth_pkok cr key_in sess_id ca ctx ts =
     (case ca_state ca of
        AuthRequestKey key \<Rightarrow>
          if sign_key_pubkey cr key \<noteq> key_in then (Inl SSHProto, ctx, ts)
          else if sign_key_is_agent key then (Inr (DispCliEvent CliAgentSign), ctx, ts)
          else
            (case st_bind (st_lift (cli_signed_request cr key sess_id ca)) (\<lambda>p. ts_send cr (userauth_packet p)) ts of
               (Inl e, ts) \<Rightarrow> (Inl e, ctx, ts)
             | (Inr _, ts) \<Rightarrow> (Inr DispNone, ctx\<lparr>cli_auth_type := None\<rparr>, ts))
      | _ \<Rightarrow> (Inl SSHProto, ctx, ts))"

definition cli_change_password :: "unit ssh_result" where
  "cli_change_password = Inl (Custom ''Password has expired'')"

fun cli_auth60 ::
  "crypto \<Rightarrow> userauth60 \<Rightarrow> bytes \<Rightarrow> cli_auth \<Rightarrow> parse_context \<Rightarrow> traf_send
     \<Rightarrow> dispatch_event ssh_result \<times> parse_context \<times> traf_send" where
  "cli_auth60 cr (PkOk _ key) sess_id ca ctx ts = cli_auth_pkok cr key sess_id ca ctx ts"
| "cli_auth60 cr (PwChangeReq _ _) sess_id ca ctx ts =
     (case cli_change_password of
        Inl e \<Rightarrow> (Inl e, ctx, ts)
      | Inr _ \<Rightarrow> (Inr DispNone, ctx\<lparr>cli_auth_type := None\<rparr>, ts))"

definition cli_resume_agentsign ::
  "crypto \<Rightarrow> owned_sig option \<Rightarrow> cli_auth \<Rightarrow> parse_context \<Rightarrow> traf_send
     \<Rightarrow> dispatch_event ssh_result \<times> parse_context \<times> traf_send" where
  "cli_resume_agentsign cr sig ca ctx ts =
     (case ca_state ca of
        AuthRequestKey key \<Rightarrow>
          let ctx = ctx\<lparr>cli_auth_type := None\<rparr> in
          (case sig of
             None \<Rightarrow> (Inr (DispCliEvent CliPubkey), ctx, ts)
           | Some sg \<Rightarrow>
               (case st_bind (st_lift (req_packet_pubkey cr (ca_username ca) key (Some sg) True))
                       (\<lambda>p. ts_send cr (userauth_packet p)) ts of
                  (Inl e, ts) \<Rightarrow> (Inl e, ctx, ts)
                | (Inr _, ts) \<Rightarrow> (Inr DispNone, ctx, ts)))
      | _ \<Rightarrow> (Inl Bug, ctx, ts))"

definition cli_failure ::
  "crypto \<Rightarrow> name_list \<Rightarrow> cli_auth \<Rightarrow> parse_context \<Rightarrow> dispatch_event ssh_result \<times> cli_auth \<times> parse_context" where
  "cli_failure cr methods ca ctx =
     (let ctx = ctx\<lparr>cli_auth_type := None\<rparr>;
          ca = ca\<lparr>ca_state := AuthIdle\<rparr>
      in
      (and_then (if ca_try_pubkey ca then has_algo (ascii_split cr) methods SSH_AUTHMETHOD_PUBLICKEY else Inr False) (\<lambda>pk.
       if pk then Inr (DispCliEvent CliPubkey)
       else
         and_then (if ca_try_password ca then has_algo (ascii_split cr) methods SSH_AUTHMETHOD_PASSWORD else Inr False) (\<lambda>pw.
         if pw then Inr (DispCliEvent CliPassword) else Inl NoAuthMethods)),
       ca, ctx))"

definition cli_resume_password ::
  "crypto \<Rightarrow> bytes option \<Rightarrow> cli_auth \<Rightarrow> parse_context \<Rightarrow> traf_send
     \<Rightarrow> unit ssh_result \<times> cli_auth \<times> parse_context \<times> traf_send" where
  "cli_resume_password cr pw ca ctx ts =
     (case pw of
        None \<Rightarrow> (Inl NoAuthMethods, ca\<lparr>ca_try_password := False\<rparr>, ctx, ts)
      | Some p \<Rightarrow>
          (case ts_send cr (req_packet_password (ca_username ca) p) ts of
             (Inl e, ts) \<Rightarrow> (Inl e, ca, ctx, ts)
           | (Inr _, ts) \<Rightarrow>
               (Inr (), ca\<lparr>ca_state := AuthRequest\<rparr>, ctx\<lparr>cli_auth_type := Some AuthPassword\<rparr>, ts)))"

definition cli_resume_pubkey ::
  "crypto \<Rightarrow> sign_key option \<Rightarrow> cli_auth \<Rightarrow> parse_context \<Rightarrow> traf_send
     \<Rightarrow> dispatch_event ssh_result \<times> cli_auth \<times> parse_context \<times> traf_send" where
  "cli_resume_pubkey cr key ca ctx ts =
     (case key of
        None \<Rightarrow>
          let ca = ca\<lparr>ca_try_pubkey := False\<rparr> in
          (if ca_try_password ca then Inr (DispCliEvent CliPassword) else Inl NoAuthMethods, ca, ctx, ts)
      | Some k \<Rightarrow>
          (case st_bind (st_lift (req_packet_pubkey cr (ca_username ca) k None False))
                  (\<lambda>p. ts_send cr (userauth_packet p)) ts of
             (Inl e, ts) \<Rightarrow> (Inl e, ca, ctx, ts)
           | (Inr _, ts) \<Rightarrow>
               (Inr DispNone, ca\<lparr>ca_state := AuthRequestKey k\<rparr>, ctx\<lparr>cli_auth_type := Some AuthPubKey\<rparr>, ts)))"

definition cli_fetch_agentsign_key :: "cli_auth \<Rightarrow> sign_key ssh_result" where
  "cli_fetch_agentsign_key ca = (case ca_state ca of AuthRequestKey key \<Rightarrow> Inr key | _ \<Rightarrow> Inl Bug)"

definition cli_fetch_agentsign_msg :: "crypto \<Rightarrow> bytes \<Rightarrow> cli_auth \<Rightarrow> auth_sig_msg ssh_result" where
  "cli_fetch_agentsign_msg cr sess_id ca =
     (case ca_state ca of AuthRequestKey key \<Rightarrow> cli_auth_sig_msg cr key sess_id ca | _ \<Rightarrow> Inl Bug)"

definition cli_success :: "cli_auth \<Rightarrow> dispatch_event \<times> cli_auth" where
  "cli_success ca = (DispCliEvent CliAuthenticated, ca\<lparr>ca_state := AuthIdle\<rparr>)"

definition client_auth_success :: "cli_auth \<Rightarrow> parse_context \<Rightarrow> dispatch_event \<times> cli_auth \<times> parse_context" where
  "client_auth_success ca ctx =
     (let ctx = ctx\<lparr>cli_auth_type := None\<rparr>; (ev, ca) = cli_success ca in (ev, ca, ctx))"

definition SSH_NAME_RSA_SHA256 :: string where "SSH_NAME_RSA_SHA256 = ''rsa-sha2-256''"
definition SSH_NAME_RSA_SHA512 :: string where "SSH_NAME_RSA_SHA512 = ''rsa-sha2-512''"

definition cli_handle_ext_info :: "crypto \<Rightarrow> name_list option \<Rightarrow> cli_auth \<Rightarrow> unit ssh_result \<times> cli_auth" where
  "cli_handle_ext_info cr server_sig_algs ca =
     (case server_sig_algs of
        None \<Rightarrow> (Inr (), ca)
      | Some algs \<Rightarrow>
          (case and_then (unwrap_result (has_algo (ascii_split cr) algs SSH_NAME_RSA_SHA256)) (\<lambda>a.
                  if a then Inr True else unwrap_result (has_algo (ascii_split cr) algs SSH_NAME_RSA_SHA512)) of
             Inl e \<Rightarrow> (Inl e, ca)
           | Inr b \<Rightarrow> (Inr (), ca\<lparr>ca_allow_rsa_sha2 := b\<rparr>)))"

subsection \<open>The server\<close>

record serv_auth =
  sa_authed :: bool
  sa_tried_first :: bool
  sa_username :: "bytes option"
  sa_method_password :: bool
  sa_method_pubkey :: bool

definition serv_auth_default :: serv_auth where
  "serv_auth_default =
     \<lparr>sa_authed = False, sa_tried_first = False, sa_username = None, sa_method_password = True,
      sa_method_pubkey = True\<rparr>"

definition serv_set_auth_methods :: "bool \<Rightarrow> bool \<Rightarrow> serv_auth \<Rightarrow> serv_auth" where
  "serv_set_auth_methods pw pubkey sa = sa\<lparr>sa_method_password := pw, sa_method_pubkey := pubkey\<rparr>"

definition serv_is_authed :: "serv_auth \<Rightarrow> bool" where
  "serv_is_authed sa = sa_authed sa"

definition avail_methods :: "serv_auth \<Rightarrow> local_names ssh_result" where
  "avail_methods sa =
     and_then (if sa_method_password sa then local_names_push SSH_AUTHMETHOD_PASSWORD [] else Inr []) (\<lambda>l.
     if sa_method_pubkey sa then local_names_push SSH_AUTHMETHOD_PUBLICKEY l else Inr l)"

definition serv_send_failure :: "crypto \<Rightarrow> serv_auth \<Rightarrow> traf_send \<Rightarrow> unit ssh_result \<times> traf_send" where
  "serv_send_failure cr sa =
     st_bind (st_lift (avail_methods sa)) (\<lambda>l. ts_send cr (UserauthFailure (LocalNames l) False))"

definition serv_verify_sig :: "crypto \<Rightarrow> userauth_request \<Rightarrow> signature \<Rightarrow> bytes \<Rightarrow> bool" where
  "serv_verify_sig cr p sig sess_id =
     (case signature_sig_type sig of
        Inl _ \<Rightarrow> False
      | Inr sig_type \<Rightarrow>
          (case ur_method p of
             MethodPubKey m \<Rightarrow>
               (case sig_type_verify cr sig_type (mpk_pubkey m) (enc_auth_sig_msg (auth_sig_msg_new p sess_id)) sig of
                  Inr _ \<Rightarrow> True
                | Inl _ \<Rightarrow> False)
           | _ \<Rightarrow> False))"

definition serv_request_pubkey :: "crypto \<Rightarrow> userauth_request \<Rightarrow> bytes \<Rightarrow> dispatch_event ssh_result" where
  "serv_request_pubkey cr p sess_id =
     (case ur_method p of
        MethodPubKey m \<Rightarrow>
          let sig = mpk_sig m;
              m = m\<lparr>mpk_sig := None, mpk_force_sig := (sig \<noteq> None)\<rparr>;
              p = p\<lparr>ur_method := MethodPubKey m\<rparr>
          in
          (case mpk_pubkey m of
             PubKeyUnknown _ \<Rightarrow> Inr DispNone
           | _ \<Rightarrow>
               if (case sig of Some s \<Rightarrow> \<not> serv_verify_sig cr p s sess_id | None \<Rightarrow> False) then Inr DispNone
               else Inr (DispServEvent (ServPubkeyAuth (sig \<noteq> None))))
      | _ \<Rightarrow> Inl Bug)"

text \<open>The user name of the first request is kept, later ones have to match.\<close>

definition serv_check_username :: "bytes \<Rightarrow> serv_auth \<Rightarrow> serv_auth ssh_result" where
  "serv_check_username username sa =
     (case sa_username sa of
        Some prev \<Rightarrow> if prev \<noteq> username then Inl SSHProtoUnsupported else Inr sa
      | None \<Rightarrow>
          if length username > MAX_USERNAME then Inl SSHProtoUnsupported
          else Inr (sa\<lparr>sa_username := Some username\<rparr>))"

definition serv_request_event :: "crypto \<Rightarrow> userauth_request \<Rightarrow> bytes \<Rightarrow> serv_auth \<Rightarrow> dispatch_event ssh_result" where
  "serv_request_event cr p sess_id sa =
     (let other = Inr (if \<not> sa_tried_first sa then DispServEvent ServFirstAuth else DispNone) in
      case ur_method p of
        MethodPassword _ _ \<Rightarrow>
          if sa_method_password sa then Inr (DispServEvent ServPasswordAuth) else other
      | MethodPubKey _ \<Rightarrow>
          if sa_method_pubkey sa then serv_request_pubkey cr p sess_id else other
      | _ \<Rightarrow> other)"

definition serv_request ::
  "crypto \<Rightarrow> bytes \<Rightarrow> userauth_request \<Rightarrow> serv_auth \<Rightarrow> traf_send \<Rightarrow> dispatch_event ssh_result \<times> serv_auth \<times> traf_send" where
  "serv_request cr sess_id p sa ts =
     (case serv_check_username (ur_username p) sa of
        Inl e \<Rightarrow> (Inl e, sa, ts)
      | Inr sa \<Rightarrow>
          if sa_authed sa then
            (case ts_send cr UserauthSuccess ts of
               (Inl e, ts) \<Rightarrow> (Inl e, sa, ts)
             | (Inr _, ts) \<Rightarrow> (Inr DispNone, sa, ts))
          else
            (case serv_request_event cr p sess_id sa of
               Inl e \<Rightarrow> (Inl e, sa, ts)
             | Inr ev \<Rightarrow>
                 let sa = sa\<lparr>sa_tried_first := True\<rparr> in
                 if ev = DispNone then
                   (case serv_send_failure cr sa ts of
                      (Inl e, ts) \<Rightarrow> (Inl e, sa, ts)
                    | (Inr _, ts) \<Rightarrow> (Inr ev, sa, ts))
                 else (Inr ev, sa, ts)))"

definition serv_resume_request ::
  "crypto \<Rightarrow> bool \<Rightarrow> serv_auth \<Rightarrow> traf_send \<Rightarrow> unit ssh_result \<times> serv_auth \<times> traf_send" where
  "serv_resume_request cr allow sa ts =
     (if allow then
        let (r, ts) = ts_send cr UserauthSuccess ts in (r, sa\<lparr>sa_authed := True\<rparr>, ts)
      else let (r, ts) = serv_send_failure cr sa ts in (r, sa, ts))"

fun serv_resume_pkok :: "crypto \<Rightarrow> packet \<Rightarrow> traf_send \<Rightarrow> unit ssh_result \<times> traf_send" where
  "serv_resume_pkok cr (UserauthRequest _ _ (MethodPubKey m)) ts =
     ts_send cr (Userauth60 (PkOk (mpk_sig_algo m) (mpk_pubkey m))) ts"
| "serv_resume_pkok cr _ ts = (Inl Bug, ts)"

definition service_request :: "crypto \<Rightarrow> string \<Rightarrow> serv_auth \<Rightarrow> traf_send \<Rightarrow> unit ssh_result \<times> traf_send" where
  "service_request cr name sa ts =
     (let success =
            (if name = SSH_SERVICE_USERAUTH then True
             else if name = SSH_SERVICE_CONNECTION then serv_is_authed sa else False)
      in if success then ts_send cr (ServiceAccept name) ts else (Inl SSHProto, ts))"

end
