(* ===== verification/SSH_Channel.thy ===== *)
theory SSH_Channel
  imports SSH_Event
begin

section \<open>Channels\<close>

text \<open>
  \<open>src/src/channel.rs\<close>: the table of channels, their windows, and the handling of every channel
  packet. \<open>Channels\<close> is a list of \<open>MAX_CHANNELS\<close> slots; \<open>Channel\<close> is a record. A waker is a
  number, and waking it is logged in \<open>woken\<close>. \<open>trace!\<close> and the other logging is left out.

  An operation that gets a \<open>&mut TrafSend\<close> returns the result, the channel or the table, and the
  \<open>traf_send\<close> afterwards, whether it failed or not: the application may go on after an error of some
  of them.
\<close>

subsection \<open>State\<close>

datatype chan_type = ChanSession | ChanTcp

fun chan_type_from :: "channel_open_type \<Rightarrow> chan_type ssh_result" where
  "chan_type_from OpenSession = Inr ChanSession"
| "chan_type_from (DirectTcpip _ _ _ _) = Inr ChanTcp"
| "chan_type_from (ForwardedTcpip _ _ _ _) = Inr ChanTcp"
| "chan_type_from (OpenUnknown _) = Inl Panic"

record chan_dir =
  cd_num :: u32
  cd_max_packet :: nat
  cd_window :: nat

datatype chan_state = InOpen | Opening | ChNormal | RecvEof | RecvClose | PendingDone

type_synonym waker = nat

record channel =
  ch_ty :: chan_type
  ch_state :: chan_state
  sent_eof :: bool
  sent_close :: bool
  ch_recv :: chan_dir
  ch_send :: "chan_dir option"
  pending_adjust :: nat
  full_window :: nat
  open_confirmed :: bool
  app_done :: bool
  read_waker :: "waker option"
  write_waker :: "waker option"
  ext_waker :: "waker option"
  woken :: "waker list"

definition channel_new :: "chan_num \<Rightarrow> chan_type \<Rightarrow> channel" where
  "channel_new num ty =
     \<lparr>ch_ty = ty, ch_state = Opening, sent_eof = False, sent_close = False,
      ch_recv = \<lparr>cd_num = num, cd_max_packet = DEFAULT_MAX_PACKET, cd_window = DEFAULT_WINDOW\<rparr>,
      ch_send = None, pending_adjust = 0, full_window = DEFAULT_WINDOW, open_confirmed = False,
      app_done = False, read_waker = None, write_waker = None, ext_waker = None, woken = []\<rparr>"

record channels =
  chs :: "channel option list"
  chs_is_client :: bool

definition channels_new :: "bool \<Rightarrow> channels" where
  "channels_new is_client = \<lparr>chs = replicate MAX_CHANNELS None, chs_is_client = is_client\<rparr>"

subsection \<open>One channel\<close>

definition channel_num :: "channel \<Rightarrow> chan_num" where
  "channel_num ch = cd_num (ch_recv ch)"

definition send_num :: "channel \<Rightarrow> u32 ssh_result" where
  "send_num ch = and_then (trap_option (ch_send ch)) (\<lambda>d. Inr (cd_num d))"

text \<open>\<open>set_waker\<close> of \<open>src/src/runner.rs\<close>: the stored waker and the one that is woken.\<close>

definition set_waker :: "waker option \<Rightarrow> waker \<Rightarrow> waker option \<times> waker list" where
  "set_waker store w =
     (case store of
        None \<Rightarrow> (Some w, [])
      | Some v \<Rightarrow> if v = w then (Some v, []) else (Some w, [v]))"

definition log_woken :: "waker list \<Rightarrow> channel \<Rightarrow> channel" where
  "log_woken ws ch = ch\<lparr>woken := woken ch @ ws\<rparr>"

fun set_read_waker :: "chan_data \<Rightarrow> bool \<Rightarrow> waker \<Rightarrow> channel \<Rightarrow> channel" where
  "set_read_waker Normal is_client w ch =
     (let (v, ws) = set_waker (read_waker ch) w in log_woken ws (ch\<lparr>read_waker := v\<rparr>))"
| "set_read_waker Stderr is_client w ch =
     (if is_client then let (v, ws) = set_waker (ext_waker ch) w in log_woken ws (ch\<lparr>ext_waker := v\<rparr>)
      else ch)"

fun set_write_waker :: "chan_data \<Rightarrow> bool \<Rightarrow> waker \<Rightarrow> channel \<Rightarrow> channel" where
  "set_write_waker Normal is_client w ch =
     (let (v, ws) = set_waker (write_waker ch) w in log_woken ws (ch\<lparr>write_waker := v\<rparr>))"
| "set_write_waker Stderr is_client w ch =
     (if \<not> is_client then let (v, ws) = set_waker (ext_waker ch) w in log_woken ws (ch\<lparr>ext_waker := v\<rparr>)
      else ch)"

text \<open>\<open>if let Some(w) = self.x_waker.take() { w.wake() }\<close>\<close>

definition wake_read_waker :: "channel \<Rightarrow> channel" where
  "wake_read_waker ch = log_woken (List.map_filter id [read_waker ch]) (ch\<lparr>read_waker := None\<rparr>)"

definition wake_write_waker :: "channel \<Rightarrow> channel" where
  "wake_write_waker ch = log_woken (List.map_filter id [write_waker ch]) (ch\<lparr>write_waker := None\<rparr>)"

definition wake_ext_waker :: "channel \<Rightarrow> channel" where
  "wake_ext_waker ch = log_woken (List.map_filter id [ext_waker ch]) (ch\<lparr>ext_waker := None\<rparr>)"

fun wake_read :: "chan_data \<Rightarrow> bool \<Rightarrow> channel \<Rightarrow> channel" where
  "wake_read Normal is_client ch = wake_read_waker ch"
| "wake_read Stderr is_client ch = (if is_client then wake_ext_waker ch else ch)"

definition wake_write :: "bool \<Rightarrow> channel \<Rightarrow> channel" where
  "wake_write is_client ch =
     (let ch = wake_write_waker ch in if \<not> is_client then wake_ext_waker ch else ch)"

definition open_done :: "channel \<Rightarrow> packet ssh_result \<times> channel" where
  "open_done ch =
     (let ch = ch\<lparr>ch_state := ChNormal\<rparr> in
      (and_then (send_num ch) (\<lambda>n.
         Inr (ChannelOpenConfirmation n (cd_num (ch_recv ch)) (word_of_nat (cd_window (ch_recv ch)))
                (word_of_nat (cd_max_packet (ch_recv ch))))), ch))"

definition dispatch_server_request :: "channel_req_type \<Rightarrow> channel \<Rightarrow> dispatch_event ssh_result" where
  "dispatch_server_request req ch =
     (if ch_ty ch \<noteq> ChanSession then Inl SSHProtoUnsupported
      else let num = channel_num ch in
        (case req of
           Shell \<Rightarrow> Inr (DispServEvent (ServSessionShell num))
         | Exec _ \<Rightarrow> Inr (DispServEvent (ServSessionExec num))
         | Subsystem _ \<Rightarrow> Inr (DispServEvent (ServSessionSubsystem num))
         | PtyReq _ _ _ _ _ _ \<Rightarrow> Inr (DispServEvent (ServSessionPty num))
         | Environment _ _ \<Rightarrow> Inr (DispServEvent (ServEnvironment num))
         | _ \<Rightarrow> Inl SSHProtoUnsupported))"

definition dispatch_client_request :: "channel_req_type \<Rightarrow> channel \<Rightarrow> dispatch_event ssh_result" where
  "dispatch_client_request req ch =
     (if ch_ty ch \<noteq> ChanSession then Inl SSHProtoUnsupported
      else
        (case req of
           ExitStatus _ \<Rightarrow> Inr (DispCliEvent CliSessionExit)
         | ExitSignal _ _ _ _ \<Rightarrow> Inr (DispCliEvent CliSessionExit)
         | _ \<Rightarrow> Inl SSHProtoUnsupported))"

definition dispatch_request ::
  "crypto \<Rightarrow> bool \<Rightarrow> channel_req_type \<Rightarrow> bool \<Rightarrow> channel \<Rightarrow> traf_send \<Rightarrow> dispatch_event ssh_result \<times> traf_send" where
  "dispatch_request cr want_reply req is_client ch ts =
     (let r = (if app_done ch then Inl ChannelEOF
               else if is_client then dispatch_client_request req ch
               else dispatch_server_request req ch)
      in
      (case r of
         Inr ev \<Rightarrow> (Inr ev, ts)
       | Inl Bug \<Rightarrow> (Inl Bug, ts)
       | Inl _ \<Rightarrow>
           if want_reply then
             (case send_num ch of
                Inr num \<Rightarrow> (Inr DispNone, snd (ts_send cr (ChannelFailure num) ts))
              | Inl _ \<Rightarrow> (Inr DispNone, ts))
           else (Inr DispNone, ts)))"

definition channel_send_eof :: "crypto \<Rightarrow> channel \<Rightarrow> traf_send \<Rightarrow> unit ssh_result \<times> channel \<times> traf_send" where
  "channel_send_eof cr ch ts =
     (if \<not> sent_eof ch then
        (case send_num ch of
           Inl e \<Rightarrow> (Inl e, ch, ts)
         | Inr n \<Rightarrow>
             (case ts_send cr (ChannelEof n) ts of
                (Inl e, ts) \<Rightarrow> (Inl e, ch, ts)
              | (Inr _, ts) \<Rightarrow> (Inr (), ch\<lparr>sent_eof := True\<rparr>, ts)))
      else (Inr (), ch, ts))"

definition handle_eof ::
  "crypto \<Rightarrow> bool \<Rightarrow> channel \<Rightarrow> traf_send \<Rightarrow> unit ssh_result \<times> channel \<times> traf_send" where
  "handle_eof cr is_client ch ts =
     (case channel_send_eof cr ch ts of
        (Inl e, ch, ts) \<Rightarrow> (Inl e, ch, ts)
      | (Inr _, ch, ts) \<Rightarrow>
          let ch = wake_read Normal is_client ch;
              ch = (if is_client then wake_read Stderr is_client ch else ch)
          in (Inr (), ch\<lparr>ch_state := RecvEof\<rparr>, ts))"

definition handle_close ::
  "crypto \<Rightarrow> bool \<Rightarrow> channel \<Rightarrow> traf_send \<Rightarrow> unit ssh_result \<times> channel \<times> traf_send" where
  "handle_close cr is_client ch ts =
     (case (if \<not> sent_close ch then
              (case send_num ch of
                 Inl e \<Rightarrow> (Inl e, ch, ts)
               | Inr n \<Rightarrow>
                   (case ts_send cr (ChannelClose n) ts of
                      (Inl e, ts) \<Rightarrow> (Inl e, ch, ts)
                    | (Inr _, ts) \<Rightarrow> (Inr (), ch\<lparr>sent_close := True\<rparr>, ts)))
            else (Inr (), ch, ts)) of
        (Inl e, ch, ts) \<Rightarrow> (Inl e, ch, ts)
      | (Inr _, ch, ts) \<Rightarrow>
          let ch = wake_read Normal is_client ch;
              ch = (if is_client then wake_read Stderr is_client ch else ch);
              ch = wake_write is_client ch
          in (Inr (), ch\<lparr>ch_state := RecvClose\<rparr>, ts))"

definition finished_input :: "nat \<Rightarrow> channel \<Rightarrow> channel" where
  "finished_input len ch = ch\<lparr>pending_adjust := usize_sat_add (pending_adjust ch) len\<rparr>"

definition channel_have_recv_eof :: "channel \<Rightarrow> bool" where
  "channel_have_recv_eof ch \<longleftrightarrow> ch_state ch \<in> {RecvEof, RecvClose}"

definition channel_is_closed :: "channel \<Rightarrow> bool" where
  "channel_is_closed ch \<longleftrightarrow> ch_state ch = RecvClose"

definition channel_send_allowed :: "channel \<Rightarrow> nat option" where
  "channel_send_allowed ch = map_option (\<lambda>s. min (cd_window s) (cd_max_packet s)) (ch_send ch)"

definition channel_valid_send :: "chan_data \<Rightarrow> channel \<Rightarrow> bool" where
  "channel_valid_send dt ch = True"

definition check_send_window_adjust :: "crypto \<Rightarrow> channel \<Rightarrow> traf_send \<Rightarrow> channel \<times> traf_send" where
  "check_send_window_adjust cr ch ts =
     (if pending_adjust ch > full_window ch div 2 then
        (case ch_send ch of
           None \<Rightarrow> (ch, ts)
         | Some sdir \<Rightarrow>
             (case ts_send cr (ChannelWindowAdjust (cd_num sdir) (word_of_nat (pending_adjust ch))) ts of
                (Inr _, ts) \<Rightarrow> (ch\<lparr>pending_adjust := 0\<rparr>, ts)
              | (Inl _, ts) \<Rightarrow> (ch, ts)))
      else (ch, ts))"

subsection \<open>The channel table\<close>

definition get_any :: "chan_num \<Rightarrow> channels \<Rightarrow> channel ssh_result" where
  "get_any num cs =
     (if unat num < length (chs cs) then ok_or (BadChannel num) (chs cs ! unat num)
      else Inl (BadChannel num))"

definition get_chan :: "chan_num \<Rightarrow> channels \<Rightarrow> channel ssh_result" where
  "get_chan num cs =
     and_then (get_any num cs) (\<lambda>ch.
       if ch_state ch \<in> {InOpen, Opening} then Inl (BadChannel num) else Inr ch)"

text \<open>What a change through the \<open>&mut Channel\<close> of \<open>get_mut\<close> does to the table.\<close>

definition put_chan :: "chan_num \<Rightarrow> channel option \<Rightarrow> channels \<Rightarrow> channels" where
  "put_chan num ch cs = cs\<lparr>chs := (chs cs)[unat num := ch]\<rparr>"

definition unused_chan :: "channels \<Rightarrow> chan_num ssh_result" where
  "unused_chan cs =
     ok_or NoChannels (map_option word_of_nat (List.find (\<lambda>i. chs cs ! i = None) [0..<length (chs cs)]))"

definition channels_open ::
  "channel_open_type \<Rightarrow> channels \<Rightarrow> (chan_num \<times> packet) ssh_result \<times> channels" where
  "channels_open ty cs =
     (case unused_chan cs of
        Inl e \<Rightarrow> (Inl e, cs)
      | Inr num \<Rightarrow>
          (case chan_type_from ty of
             Inl e \<Rightarrow> (Inl e, cs)
           | Inr cty \<Rightarrow>
               let chan = channel_new num cty;
                   p = ChannelOpen num (word_of_nat (cd_window (ch_recv chan)))
                         (word_of_nat (cd_max_packet (ch_recv chan))) ty
               in (Inr (channel_num chan, p), put_chan num (Some chan) cs)))"

definition channels_done :: "chan_num \<Rightarrow> channels \<Rightarrow> unit ssh_result \<times> channels" where
  "channels_done num cs =
     (case get_chan num cs of
        Inl e \<Rightarrow> (Inl e, cs)
      | Inr ch \<Rightarrow> (Inr (), put_chan num (Some (ch\<lparr>app_done := True\<rparr>)) cs))"

text \<open>\<open>remove_any\<close> indexes the array directly, so a number out of range panics.\<close>

definition remove_any :: "chan_num \<Rightarrow> channels \<Rightarrow> unit ssh_result \<times> channels" where
  "remove_any num cs =
     (if unat num < length (chs cs) then (Inr (), put_chan num None cs) else (Inl Panic, cs))"

definition channels_remove :: "chan_num \<Rightarrow> channels \<Rightarrow> unit ssh_result \<times> channels" where
  "channels_remove num cs =
     (case get_any num cs of
        Inl e \<Rightarrow> (Inl e, cs)
      | Inr ch \<Rightarrow>
          if app_done ch then (Inr (), put_chan num None cs)
          else (Inr (), put_chan num (Some (ch\<lparr>ch_state := PendingDone\<rparr>)) cs))"

definition reserve_chan ::
  "u32 \<Rightarrow> u32 \<Rightarrow> u32 \<Rightarrow> channel_open_type \<Rightarrow> channels \<Rightarrow> channel ssh_result \<times> channels" where
  "reserve_chan sender_num initial_window max_packet ty cs =
     (case unused_chan cs of
        Inl e \<Rightarrow> (Inl e, cs)
      | Inr num \<Rightarrow>
          (case chan_type_from ty of
             Inl e \<Rightarrow> (Inl e, cs)
           | Inr cty \<Rightarrow>
               let chan = (channel_new num cty)
                     \<lparr>ch_send := Some \<lparr>cd_num = sender_num, cd_max_packet = unat max_packet,
                                       cd_window = unat initial_window\<rparr>,
                      ch_state := InOpen\<rparr>
               in (Inr chan, put_chan num (Some chan) cs)))"

definition send_data :: "chan_num \<Rightarrow> chan_data \<Rightarrow> bytes \<Rightarrow> channels \<Rightarrow> packet ssh_result \<times> channels" where
  "send_data num dt data cs =
     (case get_chan num cs of
        Inl e \<Rightarrow> (Inl e, cs)
      | Inr ch \<Rightarrow>
          (case ch_send ch of
             None \<Rightarrow> (Inl Bug, cs)
           | Some sd \<Rightarrow>
               if length data > cd_max_packet sd \<or> length data > cd_window sd then (Inl Bug, cs)
               else
                 (Inr (case dt of
                         Normal \<Rightarrow> ChannelData (cd_num sd) data
                       | Stderr \<Rightarrow> ChannelDataExt (cd_num sd) SSH_EXTENDED_DATA_STDERR data),
                  put_chan num (Some (ch\<lparr>ch_send := Some (sd\<lparr>cd_window := cd_window sd - length data\<rparr>)\<rparr>)) cs)))"

definition finished_read ::
  "crypto \<Rightarrow> chan_num \<Rightarrow> nat \<Rightarrow> channels \<Rightarrow> traf_send \<Rightarrow> unit ssh_result \<times> channels \<times> traf_send" where
  "finished_read cr num len cs ts =
     (case get_chan num cs of
        Inl e \<Rightarrow> (Inl e, cs, ts)
      | Inr ch \<Rightarrow>
          let (ch, ts) = check_send_window_adjust cr (finished_input len ch) ts
          in (Inr (), put_chan num (Some ch) cs, ts))"

definition channels_send_eof ::
  "crypto \<Rightarrow> chan_num \<Rightarrow> channels \<Rightarrow> traf_send \<Rightarrow> unit ssh_result \<times> channels \<times> traf_send" where
  "channels_send_eof cr num cs ts =
     (case get_chan num cs of
        Inl e \<Rightarrow> (Inl e, cs, ts)
      | Inr ch \<Rightarrow>
          let (r, ch, ts) = channel_send_eof cr ch ts in (r, put_chan num (Some ch) cs, ts))"

text \<open>\<open>self.get(num).is_ok_and(..)\<close>\<close>

definition get_is_ok_and :: "chan_num \<Rightarrow> (channel \<Rightarrow> bool) \<Rightarrow> channels \<Rightarrow> bool" where
  "get_is_ok_and num f cs = (case get_chan num cs of Inr ch \<Rightarrow> f ch | Inl _ \<Rightarrow> False)"

definition have_sent_eof :: "chan_num \<Rightarrow> channels \<Rightarrow> bool" where
  "have_sent_eof num cs = get_is_ok_and num sent_eof cs"

definition have_recv_eof :: "chan_num \<Rightarrow> channels \<Rightarrow> bool" where
  "have_recv_eof num cs = get_is_ok_and num channel_have_recv_eof cs"

definition channels_is_closed :: "chan_num \<Rightarrow> channels \<Rightarrow> bool" where
  "channels_is_closed num cs = get_is_ok_and num channel_is_closed cs"

definition channels_send_allowed :: "chan_num \<Rightarrow> channels \<Rightarrow> nat option" where
  "channels_send_allowed num cs =
     (case get_chan num cs of Inl _ \<Rightarrow> Some 0 | Inr ch \<Rightarrow> channel_send_allowed ch)"

definition channels_valid_send :: "chan_num \<Rightarrow> chan_data \<Rightarrow> channels \<Rightarrow> bool" where
  "channels_valid_send num dt cs = get_is_ok_and num (channel_valid_send dt) cs"

definition channels_is_finished :: "chan_num \<Rightarrow> channels \<Rightarrow> bool" where
  "channels_is_finished num cs =
     (case get_any num cs of Inr ch \<Rightarrow> ch_state ch \<in> {PendingDone, RecvClose} | Inl _ \<Rightarrow> True)"

text \<open>\<open>progress\<close>: the loop stops at the first session channel that was confirmed.\<close>

fun channels_progress_loop ::
  "crypto \<Rightarrow> channel option list \<Rightarrow> traf_send \<Rightarrow> dispatch_event \<times> channel option list \<times> traf_send" where
  "channels_progress_loop cr [] ts = (DispNone, [], ts)"
| "channels_progress_loop cr (None # cs) ts =
     (let (ev, cs, ts) = channels_progress_loop cr cs ts in (ev, None # cs, ts))"
| "channels_progress_loop cr (Some ch # cs) ts =
     (let (ch, ts) = check_send_window_adjust cr ch ts in
      if open_confirmed ch \<and> ch_ty ch = ChanSession then
        (DispCliEvent (CliSessionOpened (channel_num ch)), Some (ch\<lparr>open_confirmed := False\<rparr>) # cs, ts)
      else
        let (ev, cs, ts) = channels_progress_loop cr cs ts
        in (ev, Some (ch\<lparr>open_confirmed := False\<rparr>) # cs, ts))"

definition channels_progress :: "crypto \<Rightarrow> channels \<Rightarrow> traf_send \<Rightarrow> dispatch_event \<times> channels \<times> traf_send" where
  "channels_progress cr cs ts =
     (let (ev, l, ts) = channels_progress_loop cr (chs cs) ts in (ev, cs\<lparr>chs := l\<rparr>, ts))"

definition channels_wake_read :: "chan_num \<Rightarrow> chan_data \<Rightarrow> bool \<Rightarrow> channels \<Rightarrow> channels" where
  "channels_wake_read num dt is_client cs =
     (case get_chan num cs of
        Inl _ \<Rightarrow> cs
      | Inr ch \<Rightarrow> put_chan num (Some (wake_read dt is_client ch)) cs)"

definition channels_wake_write :: "bool \<Rightarrow> channels \<Rightarrow> channels" where
  "channels_wake_write is_client cs = cs\<lparr>chs := map (map_option (wake_write is_client)) (chs cs)\<rparr>"

subsection \<open>Requests the client sends\<close>

text \<open>\<open>Req\<close>; of a \<open>Pty\<close> only what goes into the packet (\<open>modes\<close> is always sent empty).\<close>

datatype req =
    ReqShell
  | ReqExec string
  | ReqSubsystem string
  | ReqPty string u32 u32 u32 u32
  | ReqWinChange u32 u32 u32 u32
  | ReqBreak u32

fun req_type_from :: "req \<Rightarrow> channel_req_type" where
  "req_type_from ReqShell = Shell"
| "req_type_from (ReqPty trm cols rows w h) = PtyReq (str_bytes trm) cols rows w h []"
| "req_type_from (ReqExec cmd) = Exec (str_bytes cmd)"
| "req_type_from (ReqSubsystem cmd) = Subsystem (str_bytes cmd)"
| "req_type_from (ReqWinChange cols rows w h) = WinChange cols rows w h"
| "req_type_from (ReqBreak l) = Break l"

definition req_send :: "crypto \<Rightarrow> req \<Rightarrow> channel \<Rightarrow> traf_send \<Rightarrow> unit ssh_result \<times> traf_send" where
  "req_send cr rq ch ts =
     (case send_num ch of
        Inl e \<Rightarrow> (Inl e, ts)
      | Inr n \<Rightarrow> ts_send cr (ChannelRequest n False (req_type_from rq)) ts)"

text \<open>\<open>TryFrom<&PtyReq> for Pty\<close>: the terminal name must be ASCII and fit \<open>MAX_TERM\<close>.\<close>

definition pty_try_from :: "bytes \<Rightarrow> string ssh_result" where
  "pty_try_from trm =
     (if list_all (\<lambda>b. b < 128) trm then
        (if length trm \<le> MAX_TERM then Inr (bytes_str trm) else Inl SSHProto)
      else Inl BadString)"

datatype session_command = CommandShell | CommandExec string | CommandSubsystem string

fun req_from_command :: "session_command \<Rightarrow> req" where
  "req_from_command CommandShell = ReqShell"
| "req_from_command (CommandExec s) = ReqExec s"
| "req_from_command (CommandSubsystem s) = ReqSubsystem s"

definition channels_term_window_change ::
  "crypto \<Rightarrow> chan_num \<Rightarrow> u32 \<times> u32 \<times> u32 \<times> u32 \<Rightarrow> channels \<Rightarrow> traf_send \<Rightarrow> unit ssh_result \<times> traf_send" where
  "channels_term_window_change cr num winch cs ts =
     (case get_chan num cs of
        Inl e \<Rightarrow> (Inl e, ts)
      | Inr ch \<Rightarrow>
          (case (ch_ty ch, winch) of
             (ChanSession, (cols, rows, w, h)) \<Rightarrow> req_send cr (ReqWinChange cols rows w h) ch ts
           | _ \<Rightarrow> (Inl BadChannelData, ts)))"

text \<open>\<open>length.clamp(500, 3000)\<close>, with 0 kept.\<close>

definition break_length :: "u32 \<Rightarrow> u32" where
  "break_length l = (if l = 0 then 0 else if l < 500 then 500 else if l > 3000 then 3000 else l)"

definition channels_term_break ::
  "crypto \<Rightarrow> chan_num \<Rightarrow> u32 \<Rightarrow> channels \<Rightarrow> traf_send \<Rightarrow> unit ssh_result \<times> traf_send" where
  "channels_term_break cr num l cs ts =
     (case get_chan num cs of
        Inl e \<Rightarrow> (Inl e, ts)
      | Inr ch \<Rightarrow>
          (case ch_ty ch of
             ChanSession \<Rightarrow> req_send cr (ReqBreak (break_length l)) ch ts
           | _ \<Rightarrow> (Inl BadChannelData, ts)))"

subsection \<open>Incoming packets\<close>

datatype dispatch_open_error = DoError ssh_error | DoFailure chan_fail

fun dispatch_open_error_from :: "ssh_error \<Rightarrow> dispatch_open_error" where
  "dispatch_open_error_from NoChannels = DoFailure SSH_OPEN_RESOURCE_SHORTAGE"
| "dispatch_open_error_from e = DoError e"

definition dispatch_open_inner ::
  "u32 \<Rightarrow> u32 \<Rightarrow> u32 \<Rightarrow> channel_open_type \<Rightarrow> channels \<Rightarrow> (dispatch_open_error + dispatch_event) \<times> channels" where
  "dispatch_open_inner sender_num initial_window max_packet ty cs =
     (case (case ty of
              OpenUnknown _ \<Rightarrow> Inl (DoFailure SSH_OPEN_UNKNOWN_CHANNEL_TYPE)
            | OpenSession \<Rightarrow> if chs_is_client cs then Inl (DoError SSHProto) else Inr ()
            | ForwardedTcpip _ _ _ _ \<Rightarrow> Inl (DoFailure SSH_OPEN_UNKNOWN_CHANNEL_TYPE)
            | DirectTcpip _ _ _ _ \<Rightarrow> Inl (DoFailure SSH_OPEN_UNKNOWN_CHANNEL_TYPE)) of
        Inl e \<Rightarrow> (Inl e, cs)
      | Inr _ \<Rightarrow>
          (case reserve_chan sender_num initial_window max_packet ty cs of
             (Inl e, cs) \<Rightarrow> (Inl (dispatch_open_error_from e), cs)
           | (Inr ch, cs) \<Rightarrow>
               (case ty of
                  OpenSession \<Rightarrow> (Inr (DispServEvent (ServOpenSession (channel_num ch))), cs)
                | _ \<Rightarrow> (Inl (DoError Panic), cs))))"

definition dispatch_open ::
  "crypto \<Rightarrow> u32 \<Rightarrow> u32 \<Rightarrow> u32 \<Rightarrow> channel_open_type \<Rightarrow> channels \<Rightarrow> traf_send
     \<Rightarrow> dispatch_event ssh_result \<times> channels \<times> traf_send" where
  "dispatch_open cr sender_num initial_window max_packet ty cs ts =
     (case dispatch_open_inner sender_num initial_window max_packet ty cs of
        (Inl (DoFailure f), cs) \<Rightarrow>
          (case ts_send cr (ChannelOpenFailure sender_num (chan_fail_u32 f) [] '''') ts of
             (Inl e, ts) \<Rightarrow> (Inl e, cs, ts)
           | (Inr _, ts) \<Rightarrow> (Inr DispNone, cs, ts))
      | (Inl (DoError e), cs) \<Rightarrow> (Inl e, cs, ts)
      | (Inr ev, cs) \<Rightarrow> (Inr ev, cs, ts))"

definition resume_open ::
  "crypto \<Rightarrow> chan_num \<Rightarrow> chan_fail option \<Rightarrow> channels \<Rightarrow> traf_send \<Rightarrow> unit ssh_result \<times> channels \<times> traf_send" where
  "resume_open cr c fail cs ts =
     (case get_any c cs of
        Inl e \<Rightarrow> (Inl e, cs, ts)
      | Inr ch \<Rightarrow>
          (case fail of
             Some f \<Rightarrow>
               (case send_num ch of
                  Inl e \<Rightarrow> (Inl e, cs, ts)
                | Inr sender_num \<Rightarrow>
                    (case remove_any c cs of
                       (Inl e, cs) \<Rightarrow> (Inl e, cs, ts)
                     | (Inr _, cs) \<Rightarrow>
                         (case ts_send cr (ChannelOpenFailure sender_num (chan_fail_u32 f) [] '''') ts of
                            (r, ts) \<Rightarrow> (r, cs, ts))))
           | None \<Rightarrow>
               (case open_done ch of
                  (Inl e, ch) \<Rightarrow> (Inl e, put_chan c (Some ch) cs, ts)
                | (Inr p, ch) \<Rightarrow>
                    (case ts_send cr p ts of (r, ts) \<Rightarrow> (r, put_chan c (Some ch) cs, ts)))))"

text \<open>The arms of \<open>dispatch_inner\<close>.\<close>

definition dispatch_open_confirmation ::
  "u32 \<Rightarrow> u32 \<Rightarrow> u32 \<Rightarrow> u32 \<Rightarrow> channels \<Rightarrow> dispatch_event ssh_result \<times> channels" where
  "dispatch_open_confirmation num sender_num initial_window max_packet cs =
     (case get_any num cs of
        Inl e \<Rightarrow> (Inl e, cs)
      | Inr ch \<Rightarrow>
          (case ch_state ch of
             Opening \<Rightarrow>
               if app_done ch then (Inr DispNone, cs)
               else
                 (Inr DispNone,
                  put_chan num (Some (ch\<lparr>ch_send := Some \<lparr>cd_num = sender_num, cd_max_packet = unat max_packet,
                                                          cd_window = unat initial_window\<rparr>,
                                         open_confirmed := True, ch_state := ChNormal\<rparr>)) cs)
           | _ \<Rightarrow> (Inl SSHProto, cs)))"

definition dispatch_open_failure :: "u32 \<Rightarrow> channels \<Rightarrow> dispatch_event ssh_result \<times> channels" where
  "dispatch_open_failure num cs =
     (case get_any num cs of
        Inl e \<Rightarrow> (Inl e, cs)
      | Inr ch \<Rightarrow>
          if ch_send ch \<noteq> None then (Inl SSHProto, cs)
          else (case channels_remove num cs of
                  (Inl e, cs) \<Rightarrow> (Inl e, cs)
                | (Inr _, cs) \<Rightarrow> (Inr DispNone, cs)))"

definition dispatch_window_adjust :: "u32 \<Rightarrow> u32 \<Rightarrow> channels \<Rightarrow> dispatch_event ssh_result \<times> channels" where
  "dispatch_window_adjust num adjust cs =
     (case get_chan num cs of
        Inl e \<Rightarrow> (Inl e, cs)
      | Inr ch \<Rightarrow>
          (case ch_send ch of
             None \<Rightarrow> (Inl Bug, cs)
           | Some sd \<Rightarrow>
               let ch = ch\<lparr>ch_send := Some (sd\<lparr>cd_window := usize_sat_add (cd_window sd) (unat adjust)\<rparr>)\<rparr>
               in (Inr DispNone, put_chan num (Some (wake_write (chs_is_client cs) ch)) cs)))"

definition dispatch_data :: "u32 \<Rightarrow> bytes \<Rightarrow> channels \<Rightarrow> dispatch_event ssh_result" where
  "dispatch_data num data cs =
     and_then (get_chan num cs) (\<lambda>ch.
       if app_done ch then Inr DispNone
       else if data \<noteq> [] then Inr (DispData \<lparr>di_num = num, di_dt = Normal, di_len = length data\<rparr>)
       else Inr DispNone)"

definition dispatch_data_ext :: "u32 \<Rightarrow> u32 \<Rightarrow> bytes \<Rightarrow> channels \<Rightarrow> dispatch_event ssh_result \<times> channels" where
  "dispatch_data_ext num code data cs =
     (case get_chan num cs of
        Inl e \<Rightarrow> (Inl e, cs)
      | Inr ch \<Rightarrow>
          if app_done ch then (Inr DispNone, cs)
          else if \<not> chs_is_client cs \<or> code \<noteq> SSH_EXTENDED_DATA_STDERR then
            (Inr DispNone, put_chan num (Some (finished_input (length data) ch)) cs)
          else if data \<noteq> [] then
            (Inr (DispData \<lparr>di_num = num, di_dt = Stderr, di_len = length data\<rparr>), cs)
          else (Inr DispNone, cs))"

text \<open>An arm that runs an operation of the channel that \<open>get_mut\<close> found.\<close>

definition dispatch_on_chan ::
  "chan_num \<Rightarrow> (channel \<Rightarrow> traf_send \<Rightarrow> unit ssh_result \<times> channel \<times> traf_send) \<Rightarrow> channels \<Rightarrow> traf_send
     \<Rightarrow> dispatch_event ssh_result \<times> channels \<times> traf_send" where
  "dispatch_on_chan num f cs ts =
     (case get_chan num cs of
        Inl e \<Rightarrow> (Inl e, cs, ts)
      | Inr ch \<Rightarrow>
          (case f ch ts of
             (Inl e, ch, ts) \<Rightarrow> (Inl e, put_chan num (Some ch) cs, ts)
           | (Inr _, ch, ts) \<Rightarrow> (Inr DispNone, put_chan num (Some ch) cs, ts)))"

fun channels_dispatch_inner ::
  "crypto \<Rightarrow> packet \<Rightarrow> channels \<Rightarrow> traf_send \<Rightarrow> dispatch_event ssh_result \<times> channels \<times> traf_send" where
  "channels_dispatch_inner cr (ChannelOpen sender_num initial_window max_packet ty) cs ts =
     dispatch_open cr sender_num initial_window max_packet ty cs ts"
| "channels_dispatch_inner cr (ChannelOpenConfirmation num sender_num initial_window max_packet) cs ts =
     (let (r, cs) = dispatch_open_confirmation num sender_num initial_window max_packet cs in (r, cs, ts))"
| "channels_dispatch_inner cr (ChannelOpenFailure num _ _ _) cs ts =
     (let (r, cs) = dispatch_open_failure num cs in (r, cs, ts))"
| "channels_dispatch_inner cr (ChannelWindowAdjust num adjust) cs ts =
     (let (r, cs) = dispatch_window_adjust num adjust cs in (r, cs, ts))"
| "channels_dispatch_inner cr (ChannelData num data) cs ts = (dispatch_data num data cs, cs, ts)"
| "channels_dispatch_inner cr (ChannelDataExt num code data) cs ts =
     (let (r, cs) = dispatch_data_ext num code data cs in (r, cs, ts))"
| "channels_dispatch_inner cr (ChannelEof num) cs ts =
     dispatch_on_chan num (handle_eof cr (chs_is_client cs)) cs ts"
| "channels_dispatch_inner cr (ChannelClose num) cs ts =
     dispatch_on_chan num (handle_close cr (chs_is_client cs)) cs ts"
| "channels_dispatch_inner cr (ChannelRequest num want_reply rq) cs ts =
     (case get_chan num cs of
        Inl _ \<Rightarrow> (Inr DispNone, cs, ts)
      | Inr ch \<Rightarrow>
          let (r, ts) = dispatch_request cr want_reply rq (chs_is_client cs) ch ts in (r, cs, ts))"
| "channels_dispatch_inner cr (ChannelSuccess _) cs ts = (Inr DispNone, cs, ts)"
| "channels_dispatch_inner cr (ChannelFailure _) cs ts = (Inr DispNone, cs, ts)"
| "channels_dispatch_inner cr _ cs ts = (Inl Bug, cs, ts)"

definition channels_dispatch ::
  "crypto \<Rightarrow> packet \<Rightarrow> channels \<Rightarrow> traf_send \<Rightarrow> dispatch_event ssh_result \<times> channels \<times> traf_send" where
  "channels_dispatch cr p cs ts =
     (case channels_dispatch_inner cr p cs ts of
        (Inl (BadChannel _), cs, ts) \<Rightarrow> (Inr DispNone, cs, ts)
      | r \<Rightarrow> r)"

fun channels_resume_chanreq ::
  "crypto \<Rightarrow> packet \<Rightarrow> bool \<Rightarrow> channels \<Rightarrow> traf_send \<Rightarrow> unit ssh_result \<times> traf_send" where
  "channels_resume_chanreq cr (ChannelRequest num want_reply _) success cs ts =
     (case get_chan num cs of
        Inl e \<Rightarrow> (Inl e, ts)
      | Inr ch \<Rightarrow>
          if want_reply then
            (case send_num ch of
               Inl e \<Rightarrow> (Inl e, ts)
             | Inr n \<Rightarrow> ts_send cr (if success then ChannelSuccess n else ChannelFailure n) ts)
          else (Inr (), ts))"
| "channels_resume_chanreq cr _ success cs ts = (Inl Bug, ts)"

fun channels_fetch_servcommand :: "packet \<Rightarrow> bytes ssh_result" where
  "channels_fetch_servcommand (ChannelRequest _ _ (Exec command)) = Inr command"
| "channels_fetch_servcommand (ChannelRequest _ _ (Subsystem command)) = Inr command"
| "channels_fetch_servcommand _ = Inl Bug"

fun channels_fetch_env_name :: "packet \<Rightarrow> bytes ssh_result" where
  "channels_fetch_env_name (ChannelRequest _ _ (Environment name _)) = Inr name"
| "channels_fetch_env_name _ = Inl Bug"

fun channels_fetch_env_value :: "packet \<Rightarrow> bytes ssh_result" where
  "channels_fetch_env_value (ChannelRequest _ _ (Environment _ val)) = Inr val"
| "channels_fetch_env_value _ = Inl Bug"

text \<open>\<open>CliSessionExit\<close>\<close>

datatype session_exit = ExitedStatus u32 | ExitedSignal string bool bytes string

fun cli_session_exit_new :: "packet \<Rightarrow> (chan_num \<times> session_exit) ssh_result" where
  "cli_session_exit_new (ChannelRequest num _ (ExitStatus status)) = Inr (num, ExitedStatus status)"
| "cli_session_exit_new (ChannelRequest num _ (ExitSignal sig core err lang)) =
     Inr (num, ExitedSignal sig core err lang)"
| "cli_session_exit_new _ = Inl Bug"

end
