(* ===== verification/SSH_Conn.thy ===== *)
theory SSH_Conn
  imports SSH_Auth SSH_Channel
begin

section \<open>The connection\<close>

text \<open>
  \<open>src/src/conn.rs\<close>: the state of a connection, what it does without input (\<open>progress\<close>) and the dispatch
  of every packet. The type parameter \<open>CS\<close> of the source, \<open>Client\<close> or \<open>Server\<close>, is the constructor
  of \<open>cliserv\<close>. An operation returns the connection and the sender afterwards, also when it fails.
\<close>

subsection \<open>State\<close>

datatype conn_state = SendIdent | ReceiveIdent | FirstKex | PreAuth | Authed

datatype cli_serv = Client cli_auth | Server serv_auth

record conn =
  cn_state :: conn_state
  cn_kex :: kex
  cn_sess_id :: "bytes option"
  cn_cliserv :: cli_serv
  cn_algo_conf :: algo_config
  cn_parse_ctx :: parse_context
  cn_remote_version :: remote_version
  cn_channels :: channels

text \<open>The accessors of \<open>CliServ\<close>.\<close>

fun cs_is_client :: "cli_serv \<Rightarrow> bool" where
  "cs_is_client (Client _) = True"
| "cs_is_client (Server _) = False"

fun try_client :: "cli_serv \<Rightarrow> cli_auth option" where
  "try_client (Client ca) = Some ca"
| "try_client (Server _) = None"

fun try_server :: "cli_serv \<Rightarrow> serv_auth option" where
  "try_server (Client _) = None"
| "try_server (Server sa) = Some sa"

definition conn_is_client :: "conn \<Rightarrow> bool" where
  "conn_is_client c = cs_is_client (cn_cliserv c)"

definition conn_server :: "conn \<Rightarrow> serv_auth ssh_result" where
  "conn_server c = trap_option (try_server (cn_cliserv c))"

definition conn_client :: "conn \<Rightarrow> cli_auth ssh_result" where
  "conn_client c = trap_option (try_client (cn_cliserv c))"

definition cli_serv_default :: "bool \<Rightarrow> cli_serv" where
  "cli_serv_default is_client = (if is_client then Client cli_auth_default else Server serv_auth_default)"

definition conn_new :: "bool \<Rightarrow> conn ssh_result" where
  "conn_new is_client =
     and_then (algo_config_new is_client) (\<lambda>algo_conf.
     Inr \<lparr>cn_state = SendIdent, cn_kex = kex_new, cn_sess_id = None, cn_cliserv = cli_serv_default is_client,
          cn_algo_conf = algo_conf, cn_parse_ctx = parse_context_new,
          cn_remote_version = remote_version_new is_client, cn_channels = channels_new is_client\<rparr>)"

subsection \<open>Progress\<close>

definition conn_is_first_kex :: "conn \<Rightarrow> bool" where
  "conn_is_first_kex c \<longleftrightarrow> cn_sess_id c = None"

definition conn_is_kex_sending :: "conn \<Rightarrow> bool" where
  "conn_is_kex_sending c = kex_is_sending (cn_kex c)"

definition initial_sent :: "conn \<Rightarrow> bool" where
  "initial_sent c \<longleftrightarrow> cn_state c \<noteq> SendIdent"

definition dispatched_event :: "dispatch_event \<Rightarrow> dispatched" where
  "dispatched_event ev = dispatched_default\<lparr>disp_event := ev\<rparr>"

text \<open>The \<open>match self.state\<close> of \<open>progress\<close>.\<close>

definition conn_progress_state :: "conn \<Rightarrow> traf_send \<Rightarrow> dispatched ssh_result \<times> conn \<times> traf_send" where
  "conn_progress_state c ts =
     (case cn_state c of
        SendIdent \<Rightarrow>
          (case ts_send_version ts of
             (Inl e, ts) \<Rightarrow> (Inl e, c, ts)
           | (Inr _, ts) \<Rightarrow>
               let (k, ts) = start_kexinit (cn_kex c) ts
               in (Inr (dispatched_event DispProgressed), c\<lparr>cn_kex := k, cn_state := ReceiveIdent\<rparr>, ts))
      | ReceiveIdent \<Rightarrow>
          (case version (cn_remote_version c) of
             Inl e \<Rightarrow> (Inl e, c, ts)
           | Inr None \<Rightarrow> (Inr dispatched_default, c, ts)
           | Inr (Some _) \<Rightarrow> (Inr (dispatched_event DispProgressed), c\<lparr>cn_state := FirstKex\<rparr>, ts))
      | FirstKex \<Rightarrow>
          if cn_sess_id c \<noteq> None then (Inr (dispatched_event DispProgressed), c\<lparr>cn_state := PreAuth\<rparr>, ts)
          else (Inr dispatched_default, c, ts)
      | PreAuth \<Rightarrow>
          (case try_client (cn_cliserv c) of
             Some ca \<Rightarrow>
               let (ev, ca) = cli_auth_progress ca
               in (Inr (dispatched_event ev), c\<lparr>cn_cliserv := Client ca\<rparr>, ts)
           | None \<Rightarrow> (Inr dispatched_default, c, ts))
      | Authed \<Rightarrow> (Inr dispatched_default, c, ts))"

definition conn_progress :: "crypto \<Rightarrow> conn \<Rightarrow> traf_send \<Rightarrow> dispatched ssh_result \<times> conn \<times> traf_send" where
  "conn_progress cr c ts =
     (case kex_progress cr (conn_is_client c) (cn_algo_conf c) (cn_kex c) ts of
        (Inl e, k, ts) \<Rightarrow> (Inl e, c\<lparr>cn_kex := k\<rparr>, ts)
      | (Inr _, k, ts) \<Rightarrow>
          let c = c\<lparr>cn_kex := k\<rparr> in
          if \<not> conn_is_kex_sending c then
            let (ev, cs, ts) = channels_progress cr (cn_channels c) ts;
                c = c\<lparr>cn_channels := cs\<rparr>
            in if ev \<noteq> DispNone then (Inr (dispatched_event ev), c, ts)
               else conn_progress_state c ts
          else conn_progress_state c ts)"

subsection \<open>Packets\<close>

definition conn_packet :: "bytes \<Rightarrow> conn \<Rightarrow> packet ssh_result" where
  "conn_packet pl c = packet_from_bytes pl (cn_parse_ctx c)"

definition check_packet :: "packet \<Rightarrow> conn \<Rightarrow> unit ssh_result" where
  "check_packet p c =
     (if conn_is_first_kex c \<and> kex_is_strict (cn_kex c) then
        (if packet_category p = CatKex then Inr () else Inl SSHProto)
      else if kex_is_receiving (cn_kex c) then
        (if packet_category p \<in> {CatAll, CatKex} then Inr () else Inl SSHProto)
      else
        (case packet_category p of
           CatAll \<Rightarrow> Inr ()
         | CatKex \<Rightarrow> Inr ()
         | CatAuth \<Rightarrow> if cn_state c \<in> {PreAuth, Authed} then Inr () else Inl SSHProto
         | CatSess \<Rightarrow> if cn_state c = Authed then Inr () else Inl SSHProto))"

text \<open>An arm that only runs an operation of the key exchange, or of the channels.\<close>

definition on_kex ::
  "(kex \<Rightarrow> traf_send \<Rightarrow> unit ssh_result \<times> kex \<times> traf_send) \<Rightarrow> dispatch_event \<Rightarrow> conn \<Rightarrow> traf_send
     \<Rightarrow> dispatch_event ssh_result \<times> conn \<times> traf_send" where
  "on_kex f ev c ts =
     (let (r, k, ts) = f (cn_kex c) ts in (and_then r (\<lambda>_. Inr ev), c\<lparr>cn_kex := k\<rparr>, ts))"

definition on_channels ::
  "(channels \<Rightarrow> traf_send \<Rightarrow> 'a ssh_result \<times> channels \<times> traf_send) \<Rightarrow> conn \<Rightarrow> traf_send
     \<Rightarrow> 'a ssh_result \<times> conn \<times> traf_send" where
  "on_channels f c ts = (let (r, cs, ts) = f (cn_channels c) ts in (r, c\<lparr>cn_channels := cs\<rparr>, ts))"

text \<open>The arms for the packets of authentication.\<close>

definition dispatch_ext_info ::
  "crypto \<Rightarrow> name_list option \<Rightarrow> conn \<Rightarrow> dispatch_event ssh_result \<times> conn" where
  "dispatch_ext_info cr algs c =
     (case cn_cliserv c of
        Client ca \<Rightarrow>
          let (r, ca) = cli_handle_ext_info cr algs ca
          in (and_then r (\<lambda>_. Inr DispNone), c\<lparr>cn_cliserv := Client ca\<rparr>)
      | Server _ \<Rightarrow> (Inr DispNone, c))"

definition dispatch_service_request ::
  "crypto \<Rightarrow> string \<Rightarrow> conn \<Rightarrow> traf_send \<Rightarrow> dispatch_event ssh_result \<times> traf_send" where
  "dispatch_service_request cr name c ts =
     (case cn_cliserv c of
        Client _ \<Rightarrow> (Inl SSHProto, ts)
      | Server sa \<Rightarrow> let (r, ts) = service_request cr name sa ts in (and_then r (\<lambda>_. Inr DispNone), ts))"

definition dispatch_userauth_request ::
  "crypto \<Rightarrow> userauth_request \<Rightarrow> conn \<Rightarrow> traf_send \<Rightarrow> dispatch_event ssh_result \<times> conn \<times> traf_send" where
  "dispatch_userauth_request cr p c ts =
     (case cn_cliserv c of
        Client _ \<Rightarrow> (Inl SSHProto, c, ts)
      | Server sa \<Rightarrow>
          (case trap_option (cn_sess_id c) of
             Inl e \<Rightarrow> (Inl e, c, ts)
           | Inr sess_id \<Rightarrow>
               let (r, sa, ts) = serv_request cr sess_id p sa ts in (r, c\<lparr>cn_cliserv := Server sa\<rparr>, ts)))"

definition dispatch_userauth_failure ::
  "crypto \<Rightarrow> name_list \<Rightarrow> conn \<Rightarrow> dispatch_event ssh_result \<times> conn" where
  "dispatch_userauth_failure cr methods c =
     (case cn_cliserv c of
        Server _ \<Rightarrow> (Inl SSHProto, c)
      | Client ca \<Rightarrow>
          let (r, ca, ctx) = cli_failure cr methods ca (cn_parse_ctx c)
          in (r, c\<lparr>cn_cliserv := Client ca, cn_parse_ctx := ctx\<rparr>))"

definition dispatch_userauth_success :: "conn \<Rightarrow> dispatch_event ssh_result \<times> conn" where
  "dispatch_userauth_success c =
     (case cn_cliserv c of
        Server _ \<Rightarrow> (Inl SSHProto, c)
      | Client ca \<Rightarrow>
          if cn_state c = PreAuth then
            let (ev, ca, ctx) = client_auth_success ca (cn_parse_ctx c)
            in (Inr ev, c\<lparr>cn_state := Authed, cn_cliserv := Client ca, cn_parse_ctx := ctx\<rparr>)
          else (Inr DispNone, c))"

definition dispatch_userauth60 ::
  "crypto \<Rightarrow> userauth60 \<Rightarrow> conn \<Rightarrow> traf_send \<Rightarrow> dispatch_event ssh_result \<times> conn \<times> traf_send" where
  "dispatch_userauth60 cr p c ts =
     (case cn_cliserv c of
        Server _ \<Rightarrow> (Inl SSHProto, c, ts)
      | Client ca \<Rightarrow>
          (case trap_option (cn_sess_id c) of
             Inl e \<Rightarrow> (Inl e, c, ts)
           | Inr sess_id \<Rightarrow>
               let (r, ctx, ts) = cli_auth60 cr p sess_id ca (cn_parse_ctx c) ts
               in (r, c\<lparr>cn_parse_ctx := ctx\<rparr>, ts)))"

text \<open>The event of a packet that passed \<open>check_packet\<close>.\<close>

fun dispatch_event_of ::
  "crypto \<Rightarrow> packet \<Rightarrow> conn \<Rightarrow> traf_send \<Rightarrow> dispatch_event ssh_result \<times> conn \<times> traf_send" where
  "dispatch_event_of cr (KexInit k) c ts =
     on_kex (handle_kexinit cr (conn_is_client c) k (cn_algo_conf c) (cn_remote_version c) (conn_is_first_kex c))
       DispNone c ts"
| "dispatch_event_of cr (KexDHInit _) c ts =
     (let (r, k) = kex_handle_kexdhinit (conn_is_client c) (cn_kex c) in (r, c\<lparr>cn_kex := k\<rparr>, ts))"
| "dispatch_event_of cr (KexDHReply _ _ _) c ts =
     (kex_handle_kexdhreply (conn_is_client c) (cn_kex c), c, ts)"
| "dispatch_event_of cr NewKeys c ts =
     on_kex (handle_newkeys cr (conn_is_client c) (cn_sess_id c)) DispKexDone c ts"
| "dispatch_event_of cr (ExtInfo algs) c ts = (let (r, c) = dispatch_ext_info cr algs c in (r, c, ts))"
| "dispatch_event_of cr (ServiceRequest name) c ts =
     (let (r, ts) = dispatch_service_request cr name c ts in (r, c, ts))"
| "dispatch_event_of cr (ServiceAccept _) c ts = (Inr DispNone, c, ts)"
| "dispatch_event_of cr (Ignore _) c ts = (Inr DispNone, c, ts)"
| "dispatch_event_of cr (Unimplemented _) c ts = (Inr DispNone, c, ts)"
| "dispatch_event_of cr (DebugPacket _ _ _) c ts = (Inr DispNone, c, ts)"
| "dispatch_event_of cr (Disconnect _ _ _) c ts = (Inr DispNone, c, ts)"
| "dispatch_event_of cr (UserauthRequest username service method) c ts =
     dispatch_userauth_request cr \<lparr>ur_username = username, ur_service = service, ur_method = method\<rparr> c ts"
| "dispatch_event_of cr (UserauthFailure methods _) c ts =
     (let (r, c) = dispatch_userauth_failure cr methods c in (r, c, ts))"
| "dispatch_event_of cr UserauthSuccess c ts = (let (r, c) = dispatch_userauth_success c in (r, c, ts))"
| "dispatch_event_of cr (UserauthBanner _ _) c ts =
     (if \<not> conn_is_client c then (Inl SSHProto, c, ts) else (Inr (DispCliEvent CliBanner), c, ts))"
| "dispatch_event_of cr (Userauth60 p) c ts = dispatch_userauth60 cr p c ts"
| "dispatch_event_of cr (GlobalRequest want_reply _) c ts =
     (if want_reply then
        let (r, ts) = ts_send cr RequestFailure ts in (and_then r (\<lambda>_. Inr DispNone), c, ts)
      else (Inr DispNone, c, ts))"
| "dispatch_event_of cr RequestSuccess c ts = (Inr DispNone, c, ts)"
| "dispatch_event_of cr RequestFailure c ts = (Inr DispNone, c, ts)"
| "dispatch_event_of cr p c ts = on_channels (channels_dispatch cr p) c ts"

definition is_disconnect :: "packet \<Rightarrow> bool" where
  "is_disconnect p = (case p of Disconnect _ _ _ \<Rightarrow> True | _ \<Rightarrow> False)"

definition dispatch_packet ::
  "crypto \<Rightarrow> packet \<Rightarrow> conn \<Rightarrow> traf_send \<Rightarrow> dispatched ssh_result \<times> conn \<times> traf_send" where
  "dispatch_packet cr p c ts =
     (case check_packet p c of
        Inl e \<Rightarrow> (Inl e, c, ts)
      | Inr _ \<Rightarrow>
          let (r, c, ts) = dispatch_event_of cr p c ts
          in (and_then r (\<lambda>ev. Inr \<lparr>disp_event = ev, disp_disconnect = is_disconnect p\<rparr>), c, ts))"

definition handle_payload ::
  "crypto \<Rightarrow> bytes \<Rightarrow> u32 \<Rightarrow> conn \<Rightarrow> traf_send \<Rightarrow> dispatched ssh_result \<times> conn \<times> traf_send" where
  "handle_payload cr pl sq c ts =
     (case conn_packet pl c of
        Inr p \<Rightarrow> dispatch_packet cr p c ts
      | Inl (UnknownPacket _) \<Rightarrow>
          let (r, ts) = ts_send cr (Unimplemented sq) ts in (and_then r (\<lambda>_. Inr dispatched_default), c, ts)
      | Inl e \<Rightarrow> (Inl e, c, ts))"

subsection \<open>Answers of the application, client\<close>

definition conn_fetch_agentsign_msg :: "crypto \<Rightarrow> conn \<Rightarrow> auth_sig_msg ssh_result" where
  "conn_fetch_agentsign_msg cr c =
     and_then (conn_client c) (\<lambda>ca.
     and_then (trap_option (cn_sess_id c)) (\<lambda>sess_id. cli_fetch_agentsign_msg cr sess_id ca))"

definition conn_resume_checkhostkey ::
  "crypto \<Rightarrow> bytes \<Rightarrow> bool \<Rightarrow> conn \<Rightarrow> traf_send \<Rightarrow> unit ssh_result \<times> conn \<times> traf_send" where
  "conn_resume_checkhostkey cr pl accept c ts =
     (case conn_client c of
        Inl e \<Rightarrow> (Inl e, c, ts)
      | Inr _ \<Rightarrow>
          (case conn_packet pl c of
             Inl e \<Rightarrow> (Inl e, c, ts)
           | Inr (KexDHReply k_s q_s sig) \<Rightarrow>
               if \<not> accept then (Inl BadUsage, c, ts)
               else
                 let (r, k, sess_id, ts) = resume_kexdhreply cr k_s q_s sig (cn_sess_id c) (cn_kex c) ts
                 in (r, c\<lparr>cn_kex := k, cn_sess_id := sess_id\<rparr>, ts)
           | Inr _ \<Rightarrow> (Inl Bug, c, ts)))"

definition conn_fetch_checkhostkey :: "bytes \<Rightarrow> conn \<Rightarrow> pub_key ssh_result" where
  "conn_fetch_checkhostkey pl c =
     and_then (conn_packet pl c) (\<lambda>p. case p of KexDHReply k_s _ _ \<Rightarrow> Inr k_s | _ \<Rightarrow> Inl Bug)"

definition conn_fetch_cli_session_exit :: "bytes \<Rightarrow> conn \<Rightarrow> (chan_num \<times> session_exit) ssh_result" where
  "conn_fetch_cli_session_exit pl c = and_then (conn_packet pl c) cli_session_exit_new"

definition conn_fetch_cli_banner :: "bytes \<Rightarrow> conn \<Rightarrow> (bytes \<times> bytes) ssh_result" where
  "conn_fetch_cli_banner pl c =
     and_then (conn_packet pl c) (\<lambda>p. case p of UserauthBanner m l \<Rightarrow> Inr (m, l) | _ \<Rightarrow> Inl Bug)"

subsection \<open>Answers of the application, server\<close>

definition conn_resume_servhostkeys ::
  "crypto \<Rightarrow> bytes \<Rightarrow> sign_key list \<Rightarrow> conn \<Rightarrow> traf_send \<Rightarrow> unit ssh_result \<times> conn \<times> traf_send" where
  "conn_resume_servhostkeys cr pl keys c ts =
     (case conn_packet pl c of
        Inl e \<Rightarrow> (Inl e, c, ts)
      | Inr (KexDHInit q_c) \<Rightarrow>
          let (r, k, sess_id, ts) =
                resume_kexdhinit cr q_c (conn_is_first_kex c) keys (cn_sess_id c) (cn_kex c) ts
          in (r, c\<lparr>cn_kex := k, cn_sess_id := sess_id\<rparr>, ts)
      | Inr _ \<Rightarrow> (Inl Bug, c, ts))"

definition conn_fetch_servpassword :: "bytes \<Rightarrow> conn \<Rightarrow> bytes ssh_result" where
  "conn_fetch_servpassword pl c =
     and_then (conn_packet pl c) (\<lambda>p.
       case p of UserauthRequest _ _ (MethodPassword _ pw) \<Rightarrow> Inr pw | _ \<Rightarrow> Inl Bug)"

definition conn_fetch_servpubkey :: "bytes \<Rightarrow> conn \<Rightarrow> pub_key ssh_result" where
  "conn_fetch_servpubkey pl c =
     and_then (conn_packet pl c) (\<lambda>p.
       case p of UserauthRequest _ _ (MethodPubKey m) \<Rightarrow> Inr (mpk_pubkey m) | _ \<Rightarrow> Inl Bug)"

definition conn_resume_servauth ::
  "crypto \<Rightarrow> bool \<Rightarrow> conn \<Rightarrow> traf_send \<Rightarrow> dispatch_event ssh_result \<times> conn \<times> traf_send" where
  "conn_resume_servauth cr allow c ts =
     (case conn_server c of
        Inl e \<Rightarrow> (Inl e, c, ts)
      | Inr sa \<Rightarrow>
          let (r, sa, ts) = serv_resume_request cr allow sa ts;
              c = c\<lparr>cn_cliserv := Server sa\<rparr>
          in (case r of
                Inl e \<Rightarrow> (Inl e, c, ts)
              | Inr _ \<Rightarrow>
                  if serv_is_authed sa \<and> cn_state c = PreAuth
                  then (Inr (DispServEvent ServAuthenticated), c\<lparr>cn_state := Authed\<rparr>, ts)
                  else (Inr DispNone, c, ts)))"

definition conn_resume_servauth_pkok ::
  "crypto \<Rightarrow> bytes \<Rightarrow> conn \<Rightarrow> traf_send \<Rightarrow> unit ssh_result \<times> traf_send" where
  "conn_resume_servauth_pkok cr pl c ts =
     (case conn_packet pl c of
        Inl e \<Rightarrow> (Inl e, ts)
      | Inr p \<Rightarrow>
          (case conn_server c of Inl e \<Rightarrow> (Inl e, ts) | Inr _ \<Rightarrow> serv_resume_pkok cr p ts))"

definition conn_set_auth_methods :: "bool \<Rightarrow> bool \<Rightarrow> conn \<Rightarrow> unit ssh_result \<times> conn" where
  "conn_set_auth_methods pw pubkey c =
     (case conn_server c of
        Inl e \<Rightarrow> (Inl e, c)
      | Inr sa \<Rightarrow> (Inr (), c\<lparr>cn_cliserv := Server (serv_set_auth_methods pw pubkey sa)\<rparr>))"

end
