(* ===== verification/SSH_Runner.thy ===== *)
theory SSH_Runner
  imports SSH_Conn
begin

section \<open>The runner\<close>

text \<open>
  \<open>src/src/runner.rs\<close>, the interface to the application: it feeds bytes in, takes bytes out, writes and
  reads channels, polls \<open>progress\<close> and answers the events it gets, through the methods of the event types of
  \<open>src/src/event.rs\<close>.

  The fields \<open>keys\<close> and \<open>traf_out\<close> are always borrowed together as a \<open>TrafSend\<close>, so they are kept as
  one (\<open>rn_send\<close>). A waker is a number; waking it is logged in \<open>rn_woken\<close>. An operation returns the
  runner also when it fails, except \<open>input\<close>, whose errors end the session.
\<close>

subsection \<open>State\<close>

record runner =
  rn_conn :: conn
  rn_traf_in :: traf_in
  rn_send :: traf_send
  rn_output_waker :: "waker option"
  rn_input_waker :: "waker option"
  rn_closed_input :: bool
  rn_resume_event :: dispatch_event
  rn_extra_resume_event :: dispatch_event
  rn_woken :: "waker list"

definition runner_new :: "bool \<Rightarrow> bytes \<Rightarrow> bytes \<Rightarrow> runner ssh_result" where
  "runner_new is_client inbuf outbuf =
     and_then (conn_new is_client) (\<lambda>c.
     Inr \<lparr>rn_conn = c, rn_traf_in = traf_in_new inbuf,
          rn_send = \<lparr>ts_keys = key_state_new_cleartext, ts_out = traf_out_new outbuf\<rparr>,
          rn_output_waker = None, rn_input_waker = None, rn_closed_input = False,
          rn_resume_event = DispNone, rn_extra_resume_event = DispNone, rn_woken = []\<rparr>)"

abbreviation rn_out :: "runner \<Rightarrow> traf_out" where
  "rn_out r \<equiv> ts_out (rn_send r)"

definition runner_is_client :: "runner \<Rightarrow> bool" where
  "runner_is_client r = conn_is_client (rn_conn r)"

text \<open>Operations of the parts, on the runner.\<close>

definition with_sender :: "(traf_send \<Rightarrow> 'a ssh_result \<times> traf_send) \<Rightarrow> runner \<Rightarrow> 'a ssh_result \<times> runner" where
  "with_sender f r = (let (x, ts) = f (rn_send r) in (x, r\<lparr>rn_send := ts\<rparr>))"

definition with_conn ::
  "(conn \<Rightarrow> traf_send \<Rightarrow> 'a ssh_result \<times> conn \<times> traf_send) \<Rightarrow> runner \<Rightarrow> 'a ssh_result \<times> runner" where
  "with_conn f r = (let (x, c, ts) = f (rn_conn r) (rn_send r) in (x, r\<lparr>rn_conn := c, rn_send := ts\<rparr>))"

definition with_channels ::
  "(channels \<Rightarrow> traf_send \<Rightarrow> 'a ssh_result \<times> channels \<times> traf_send) \<Rightarrow> runner \<Rightarrow> 'a ssh_result \<times> runner" where
  "with_channels f = with_conn (on_channels f)"

definition rn_get :: "(runner \<Rightarrow> 'a ssh_result) \<Rightarrow> runner \<Rightarrow> 'a ssh_result \<times> runner" where
  "rn_get f r = (f r, r)"

definition rn_update :: "(runner \<Rightarrow> runner) \<Rightarrow> runner \<Rightarrow> unit ssh_result \<times> runner" where
  "rn_update f r = (Inr (), f r)"

subsection \<open>Bytes in and out\<close>

definition runner_is_input_ready :: "runner \<Rightarrow> bool" where
  "runner_is_input_ready r =
     (if rn_closed_input r then True
      else if conn_is_kex_sending (rn_conn r) \<and> is_output_pending (rn_out r) then False
      else initial_sent (rn_conn r) \<and> traf_in_is_input_ready (rn_traf_in r))"

definition runner_is_output_pending :: "runner \<Rightarrow> bool" where
  "runner_is_output_pending r = is_output_pending (rn_out r)"

text \<open>\<open>wake\<close>: an \<open>Option::take\<close> and a \<open>wake\<close> of each waker whose side is ready.\<close>

definition runner_wake :: "runner \<Rightarrow> runner" where
  "runner_wake r =
     (let r = (if runner_is_input_ready r
               then r\<lparr>rn_input_waker := None, rn_woken := rn_woken r @ List.map_filter id [rn_input_waker r]\<rparr> else r)
      in if runner_is_output_pending r
         then r\<lparr>rn_output_waker := None, rn_woken := rn_woken r @ List.map_filter id [rn_output_waker r]\<rparr> else r)"

definition runner_set_input_waker :: "waker \<Rightarrow> runner \<Rightarrow> runner" where
  "runner_set_input_waker w r =
     (let (v, ws) = set_waker (rn_input_waker r) w in r\<lparr>rn_input_waker := v, rn_woken := rn_woken r @ ws\<rparr>)"

definition runner_set_output_waker :: "waker \<Rightarrow> runner \<Rightarrow> runner" where
  "runner_set_output_waker w r =
     (let (v, ws) = set_waker (rn_output_waker r) w in r\<lparr>rn_output_waker := v, rn_woken := rn_woken r @ ws\<rparr>)"

definition channel_wake_read :: "chan_num \<Rightarrow> chan_data \<Rightarrow> runner \<Rightarrow> runner" where
  "channel_wake_read num dt r =
     r\<lparr>rn_conn := (rn_conn r)\<lparr>cn_channels :=
         channels_wake_read num dt (runner_is_client r) (cn_channels (rn_conn r))\<rparr>\<rparr>"

definition channel_wake_write :: "runner \<Rightarrow> runner" where
  "channel_wake_write r =
     r\<lparr>rn_conn := (rn_conn r)\<lparr>cn_channels :=
         channels_wake_write (runner_is_client r) (cn_channels (rn_conn r))\<rparr>\<rparr>"

definition runner_input :: "crypto \<Rightarrow> bytes \<Rightarrow> runner \<Rightarrow> (nat \<times> runner) ssh_result" where
  "runner_input cr buf r =
     (if rn_closed_input r then Inl SessionEOF
      else if \<not> runner_is_input_ready r then Inr (0, r)
      else
        and_then (traf_in_input cr buf (ts_keys (rn_send r)) (cn_remote_version (rn_conn r)) (rn_traf_in r))
          (\<lambda>(n, keys, rv, ti).
             Inr (n, r\<lparr>rn_send := (rn_send r)\<lparr>ts_keys := keys\<rparr>,
                       rn_conn := (rn_conn r)\<lparr>cn_remote_version := rv\<rparr>, rn_traf_in := ti\<rparr>)))"

definition runner_close_input :: "runner \<Rightarrow> runner" where
  "runner_close_input r = r\<lparr>rn_closed_input := True\<rparr>"

definition runner_output_buf :: "runner \<Rightarrow> bytes ssh_result" where
  "runner_output_buf r = output_buf (rn_out r)"

definition runner_consume_output :: "nat \<Rightarrow> runner \<Rightarrow> runner" where
  "runner_consume_output l r =
     (let r = r\<lparr>rn_send := (rn_send r)\<lparr>ts_out := consume_output l (rn_out r)\<rparr>\<rparr>
      in if \<not> is_output_pending (rn_out r) then runner_wake (channel_wake_write r) else r)"

text \<open>
  \<open>output\<close> into a buffer of \<open>room\<close> bytes: \<open>copy_from_slice\<close> panics unless both slices have the same
  length.
\<close>

definition runner_output :: "nat \<Rightarrow> runner \<Rightarrow> bytes ssh_result \<times> runner" where
  "runner_output room r =
     (case runner_output_buf r of
        Inl e \<Rightarrow> (Inl e, r)
      | Inr out \<Rightarrow>
          let l = min (length out) room in
          if room \<noteq> l then (Inl Panic, r) else (Inr (take l out), runner_consume_output l r))"

definition runner_close_output :: "runner \<Rightarrow> runner" where
  "runner_close_output r = runner_wake (r\<lparr>rn_send := (rn_send r)\<lparr>ts_out := traf_out_close (rn_out r)\<rparr>\<rparr>)"

subsection \<open>Events\<close>

definition runner_payload :: "runner \<Rightarrow> (bytes \<times> u32) ssh_result" where
  "runner_payload r = and_then (payload (rn_traf_in r)) trap_option"

definition runner_packet :: "runner \<Rightarrow> packet option ssh_result" where
  "runner_packet r =
     and_then (payload (rn_traf_in r)) (\<lambda>x.
       case x of
         Some (pl, _) \<Rightarrow> and_then (conn_packet pl (rn_conn r)) (\<lambda>p. Inr (Some p))
       | None \<Rightarrow> Inr None)"

text \<open>
  What the application gets. An event whose value borrows the runner is a constructor without an
  argument; \<open>EvSessionOpened\<close> has the channel of \<open>CliSessionOpener\<close>.
\<close>

datatype cli_event =
    EvHostkey
  | EvBanner bytes bytes
  | EvUsername
  | EvPassword
  | EvPubkey
  | EvAgentSign
  | EvCliAuthenticated
  | EvSessionOpened channel
  | EvSessionExit chan_num session_exit
  | EvCliDefunct

datatype serv_event =
    EvHostkeys
  | EvFirstAuth
  | EvPasswordAuth
  | EvPubkeyAuth bool
  | EvServAuthenticated
  | EvOpenSession chan_num
  | EvSessionShell chan_num
  | EvSessionExec chan_num
  | EvSessionSubsystem chan_num
  | EvSessionPty chan_num
  | EvSessionEnv chan_num
  | EvServDefunct

datatype event = EvCli cli_event | EvServ serv_event | EvProgressed | EvNone

definition runner_fetch_cli_session_exit :: "runner \<Rightarrow> (chan_num \<times> session_exit) ssh_result" where
  "runner_fetch_cli_session_exit r =
     and_then (runner_payload r) (\<lambda>(pl, _). conn_fetch_cli_session_exit pl (rn_conn r))"

definition runner_fetch_cli_banner :: "runner \<Rightarrow> (bytes \<times> bytes) ssh_result" where
  "runner_fetch_cli_banner r = and_then (runner_payload r) (\<lambda>(pl, _). conn_fetch_cli_banner pl (rn_conn r))"

fun cli_event_of :: "cli_event_id \<Rightarrow> runner \<Rightarrow> cli_event ssh_result" where
  "cli_event_of CliUsername r = Inr EvUsername"
| "cli_event_of CliPassword r = Inr EvPassword"
| "cli_event_of CliPubkey r = Inr EvPubkey"
| "cli_event_of CliAgentSign r = Inr EvAgentSign"
| "cli_event_of CliHostkey r = Inr EvHostkey"
| "cli_event_of CliAuthenticated r = Inr EvCliAuthenticated"
| "cli_event_of (CliSessionOpened ch) r =
     and_then (get_chan ch (cn_channels (rn_conn r))) (\<lambda>c. Inr (EvSessionOpened c))"
| "cli_event_of CliSessionExit r =
     and_then (runner_fetch_cli_session_exit r) (\<lambda>(num, ex). Inr (EvSessionExit num ex))"
| "cli_event_of CliBanner r = and_then (runner_fetch_cli_banner r) (\<lambda>(m, l). Inr (EvBanner m l))"
| "cli_event_of CliDefunct r = Inl BadUsage"

definition cli_event_id_event :: "cli_event_id \<Rightarrow> runner \<Rightarrow> cli_event ssh_result" where
  "cli_event_id_event ev r = and_then (runner_packet r) (\<lambda>_. cli_event_of ev r)"

fun serv_event_id_event :: "serv_event_id \<Rightarrow> serv_event" where
  "serv_event_id_event ServHostkeys = EvHostkeys"
| "serv_event_id_event ServPasswordAuth = EvPasswordAuth"
| "serv_event_id_event (ServPubkeyAuth real_sig) = EvPubkeyAuth real_sig"
| "serv_event_id_event ServFirstAuth = EvFirstAuth"
| "serv_event_id_event ServAuthenticated = EvServAuthenticated"
| "serv_event_id_event (ServOpenSession num) = EvOpenSession num"
| "serv_event_id_event (ServSessionShell num) = EvSessionShell num"
| "serv_event_id_event (ServSessionExec num) = EvSessionExec num"
| "serv_event_id_event (ServSessionSubsystem num) = EvSessionSubsystem num"
| "serv_event_id_event (ServSessionPty num) = EvSessionPty num"
| "serv_event_id_event (ServEnvironment num) = EvSessionEnv num"
| "serv_event_id_event ServDefunct = EvServDefunct"

fun dispatch_into_event :: "dispatch_event \<Rightarrow> runner \<Rightarrow> event ssh_result" where
  "dispatch_into_event (DispCliEvent x) r =
     (if runner_is_client r then and_then (cli_event_id_event x r) (\<lambda>ev. Inr (EvCli ev)) else Inl Bug)"
| "dispatch_into_event (DispServEvent x) r =
     (if runner_is_client r then Inl Bug else Inr (EvServ (serv_event_id_event x)))"
| "dispatch_into_event DispNone r = Inr EvNone"
| "dispatch_into_event DispProgressed r = Inr EvProgressed"
| "dispatch_into_event (DispData _) r = Inl Bug"
| "dispatch_into_event DispKexDone r = Inl Bug"

subsection \<open>Progress\<close>

text \<open>What \<open>progress\<close> does with the event of a packet before it may become an event for the application.\<close>

definition runner_handled :: "dispatched \<Rightarrow> runner \<Rightarrow> dispatched ssh_result \<times> runner" where
  "runner_handled disp r =
     (case disp_event disp of
        DispData di \<Rightarrow>
          (case set_read_channel_data di (rn_traf_in r) of
             Inl e \<Rightarrow> (Inl e, r)
           | Inr ((num, dt), ti) \<Rightarrow>
               (Inr (disp\<lparr>disp_event := DispNone\<rparr>), channel_wake_read num dt (r\<lparr>rn_traf_in := ti\<rparr>)))
      | DispCliEvent _ \<Rightarrow> (Inr disp, r)
      | DispServEvent _ \<Rightarrow> (Inr disp, r)
      | DispNone \<Rightarrow> (Inr disp, r\<lparr>rn_traf_in := done_payload (rn_traf_in r)\<rparr>)
      | DispKexDone \<Rightarrow>
          let r = channel_wake_write r in
          (Inr (disp\<lparr>disp_event := DispNone\<rparr>), r\<lparr>rn_traf_in := done_payload (rn_traf_in r)\<rparr>)
      | DispProgressed \<Rightarrow> (Inl Bug, r))"

text \<open>The second half: run the connection unless there is an event already, and report.\<close>

definition runner_conn_progress :: "crypto \<Rightarrow> dispatched \<Rightarrow> runner \<Rightarrow> dispatched ssh_result \<times> runner" where
  "runner_conn_progress cr disp r =
     (if disp_event disp = DispNone then
        (case with_conn (conn_progress cr) r of
           (Inl e, r) \<Rightarrow> (Inl e, r)
         | (Inr disp, r) \<Rightarrow>
             (case disp_event disp of
                DispData _ \<Rightarrow> (Inl Bug, r)
              | DispKexDone \<Rightarrow> (Inl Bug, r)
              | _ \<Rightarrow> (Inr disp, r)))
      else (Inr disp, r))"

definition runner_report :: "dispatched \<Rightarrow> runner \<Rightarrow> event ssh_result \<times> runner" where
  "runner_report disp r =
     (let r = (runner_wake r)\<lparr>rn_resume_event := disp_event disp\<rparr>
      in (dispatch_into_event (disp_event disp) r, r))"

definition runner_finish :: "crypto \<Rightarrow> dispatched \<Rightarrow> runner \<Rightarrow> event ssh_result \<times> runner" where
  "runner_finish cr disp = st_bind (runner_conn_progress cr disp) runner_report"

text \<open>The first half: the packet in the input buffer.\<close>

definition runner_incoming :: "crypto \<Rightarrow> runner \<Rightarrow> event ssh_result \<times> runner" where
  "runner_incoming cr r =
     (case payload (rn_traf_in r) of
        Inl e \<Rightarrow> (Inl e, r)
      | Inr (Some (pl, sq)) \<Rightarrow>
          st_bind (with_conn (handle_payload cr pl sq)) (\<lambda>disp.
          st_bind (runner_handled disp) (runner_finish cr)) r
      | Inr None \<Rightarrow>
          if rn_closed_input r then
            (Inr (if runner_is_client r then EvCli EvCliDefunct else EvServ EvServDefunct), r)
          else runner_finish cr dispatched_default r)"

definition ts_send_deferred_packets :: "crypto \<Rightarrow> traf_send \<Rightarrow> unit ssh_result \<times> traf_send" where
  "ts_send_deferred_packets cr ts =
     (let (x, keys, out) = send_deferred_packets cr (ts_keys ts) (ts_out ts)
      in (x, ts\<lparr>ts_keys := keys, ts_out := out\<rparr>))"

definition runner_progress :: "crypto \<Rightarrow> runner \<Rightarrow> event ssh_result \<times> runner" where
  "runner_progress cr r =
     (let prev = rn_resume_event r;
          r = r\<lparr>rn_resume_event := DispNone\<rparr>
      in
      if disp_needs_resume prev then (Inl BadUsage, r)
      else
        let ex = rn_extra_resume_event r;
            r = r\<lparr>rn_extra_resume_event := DispNone\<rparr>
        in
        if ex \<noteq> DispNone then
          let r = r\<lparr>rn_resume_event := ex\<rparr> in (dispatch_into_event ex r, r)
        else
          let r = (if disp_is_event prev then r\<lparr>rn_traf_in := done_payload (rn_traf_in r)\<rparr> else r) in
          (case (if \<not> conn_is_kex_sending (rn_conn r) then with_sender (ts_send_deferred_packets cr) r
                 else (Inr (), r)) of
             (Inl NoRoom, r) \<Rightarrow> (Inr EvNone, r)
           | (Inl e, r) \<Rightarrow> (Inl e, r)
           | (Inr _, r) \<Rightarrow> runner_incoming cr r))"

text \<open>
  \<open>resume\<close> and \<open>resume_nocheck\<close>: an answer completes the event and its packet. (The checks of \<open>resume\<close>
  are debug assertions.)
\<close>

definition runner_resume :: "runner \<Rightarrow> runner" where
  "runner_resume r = r\<lparr>rn_resume_event := DispNone, rn_traf_in := done_payload (rn_traf_in r)\<rparr>"

definition set_extra_resume :: "dispatch_event \<Rightarrow> runner \<Rightarrow> runner" where
  "set_extra_resume ev r = r\<lparr>rn_extra_resume_event := ev\<rparr>"

subsection \<open>Answers of a client\<close>

text \<open>\<open>mut_cliauth\<close>: the client's authentication and the parse context, for an operation on both.\<close>

definition with_cliauth ::
  "(cli_auth \<Rightarrow> parse_context \<Rightarrow> traf_send \<Rightarrow> 'a ssh_result \<times> cli_auth \<times> parse_context \<times> traf_send)
     \<Rightarrow> runner \<Rightarrow> 'a ssh_result \<times> runner" where
  "with_cliauth f =
     with_conn (\<lambda>c ts.
       case conn_client c of
         Inl e \<Rightarrow> (Inl e, c, ts)
       | Inr ca \<Rightarrow>
           let (x, ca, ctx, ts) = f ca (cn_parse_ctx c) ts
           in (x, c\<lparr>cn_cliserv := Client ca, cn_parse_ctx := ctx\<rparr>, ts))"

definition runner_resume_cliusername :: "crypto \<Rightarrow> bytes \<Rightarrow> runner \<Rightarrow> unit ssh_result \<times> runner" where
  "runner_resume_cliusername cr username r =
     with_cliauth (\<lambda>ca ctx ts.
       let (x, ca, ts) = cli_resume_username cr username ca ts in (x, ca, ctx, ts)) (runner_resume r)"

definition runner_resume_clipassword :: "crypto \<Rightarrow> bytes option \<Rightarrow> runner \<Rightarrow> unit ssh_result \<times> runner" where
  "runner_resume_clipassword cr pw =
     st_bind (with_cliauth (cli_resume_password cr pw)) (\<lambda>_. rn_update runner_resume)"

definition runner_resume_clipubkey :: "crypto \<Rightarrow> sign_key option \<Rightarrow> runner \<Rightarrow> unit ssh_result \<times> runner" where
  "runner_resume_clipubkey cr key =
     st_bind (with_cliauth (cli_resume_pubkey cr key)) (\<lambda>ev.
     rn_update (\<lambda>r. runner_resume (set_extra_resume ev r)))"

definition runner_fetch_agentsign_key :: "runner \<Rightarrow> sign_key ssh_result" where
  "runner_fetch_agentsign_key r = and_then (conn_client (rn_conn r)) cli_fetch_agentsign_key"

definition runner_fetch_agentsign_msg :: "crypto \<Rightarrow> runner \<Rightarrow> auth_sig_msg ssh_result" where
  "runner_fetch_agentsign_msg cr r = conn_fetch_agentsign_msg cr (rn_conn r)"

definition runner_resume_agentsign :: "crypto \<Rightarrow> owned_sig option \<Rightarrow> runner \<Rightarrow> unit ssh_result \<times> runner" where
  "runner_resume_agentsign cr sig =
     st_bind (with_cliauth (\<lambda>ca ctx ts.
       let (x, ctx, ts) = cli_resume_agentsign cr sig ca ctx ts in (x, ca, ctx, ts))) (\<lambda>ev.
     rn_update (\<lambda>r. runner_resume (set_extra_resume ev r)))"

definition runner_resume_checkhostkey :: "crypto \<Rightarrow> bool \<Rightarrow> runner \<Rightarrow> unit ssh_result \<times> runner" where
  "runner_resume_checkhostkey cr accept =
     st_bind (rn_get runner_payload) (\<lambda>(pl, _).
     st_bind (with_conn (conn_resume_checkhostkey cr pl accept)) (\<lambda>_. rn_update runner_resume))"

definition runner_fetch_checkhostkey :: "runner \<Rightarrow> pub_key ssh_result" where
  "runner_fetch_checkhostkey r = and_then (runner_payload r) (\<lambda>(pl, _). conn_fetch_checkhostkey pl (rn_conn r))"

text \<open>\<open>CliSessionOpener\<close>: requests on the channel that was opened.\<close>

definition opener_send :: "crypto \<Rightarrow> channel \<Rightarrow> req \<Rightarrow> runner \<Rightarrow> unit ssh_result \<times> runner" where
  "opener_send cr ch rq = with_sender (req_send cr rq ch)"

definition opener_cmd :: "crypto \<Rightarrow> channel \<Rightarrow> session_command \<Rightarrow> runner \<Rightarrow> unit ssh_result \<times> runner" where
  "opener_cmd cr ch cmd = opener_send cr ch (req_from_command cmd)"

definition runner_term_break :: "crypto \<Rightarrow> chan_num \<Rightarrow> u32 \<Rightarrow> runner \<Rightarrow> unit ssh_result \<times> runner" where
  "runner_term_break cr num l r =
     with_sender (channels_term_break cr num l (cn_channels (rn_conn r))) r"

subsection \<open>Answers of a server\<close>

definition runner_resume_servhostkeys :: "crypto \<Rightarrow> sign_key list \<Rightarrow> runner \<Rightarrow> unit ssh_result \<times> runner" where
  "runner_resume_servhostkeys cr keys =
     st_bind (rn_get runner_payload) (\<lambda>(pl, _).
     st_bind (with_conn (conn_resume_servhostkeys cr pl keys)) (\<lambda>_. rn_update runner_resume))"

definition runner_fetch_servusername :: "runner \<Rightarrow> bytes ssh_result" where
  "runner_fetch_servusername r =
     and_then (conn_server (rn_conn r)) (\<lambda>sa. trap_option (sa_username sa))"

definition runner_fetch_servpassword :: "runner \<Rightarrow> bytes ssh_result" where
  "runner_fetch_servpassword r = and_then (runner_payload r) (\<lambda>(pl, _). conn_fetch_servpassword pl (rn_conn r))"

definition runner_fetch_servpubkey :: "runner \<Rightarrow> pub_key ssh_result" where
  "runner_fetch_servpubkey r = and_then (runner_payload r) (\<lambda>(pl, _). conn_fetch_servpubkey pl (rn_conn r))"

text \<open>\<open>resume_servauth\<close> completes the event also when the answer could not be sent.\<close>

definition runner_resume_servauth :: "crypto \<Rightarrow> bool \<Rightarrow> runner \<Rightarrow> unit ssh_result \<times> runner" where
  "runner_resume_servauth cr allow r =
     (let (x, r) = with_conn (conn_resume_servauth cr allow) r;
          (res, r) = (case x of Inr ev \<Rightarrow> (Inr (), set_extra_resume ev r) | Inl e \<Rightarrow> (Inl e, r))
      in (case zeroize_payload (rn_traf_in r) of
            Inl e \<Rightarrow> (Inl e, r)
          | Inr ti \<Rightarrow> (res, runner_resume (r\<lparr>rn_traf_in := ti\<rparr>))))"

definition runner_resume_servauth_pkok :: "crypto \<Rightarrow> runner \<Rightarrow> unit ssh_result \<times> runner" where
  "runner_resume_servauth_pkok cr =
     st_bind (rn_get runner_payload) (\<lambda>(pl, _) r.
       let (x, r) = with_sender (conn_resume_servauth_pkok cr pl (rn_conn r)) r in (x, runner_resume r))"

definition runner_set_auth_methods :: "bool \<Rightarrow> bool \<Rightarrow> runner \<Rightarrow> unit ssh_result \<times> runner" where
  "runner_set_auth_methods pw pubkey r =
     (let (x, c) = conn_set_auth_methods pw pubkey (rn_conn r) in (x, r\<lparr>rn_conn := c\<rparr>))"

definition runner_auth_methods :: "runner \<Rightarrow> (bool \<times> bool) ssh_result" where
  "runner_auth_methods r =
     and_then (conn_server (rn_conn r)) (\<lambda>sa. Inr (sa_method_password sa, sa_method_pubkey sa))"

definition enable_password_auth :: "bool \<Rightarrow> runner \<Rightarrow> unit ssh_result \<times> runner" where
  "enable_password_auth enabled =
     st_bind (rn_get runner_auth_methods) (\<lambda>(_, pubkey). runner_set_auth_methods enabled pubkey)"

definition enable_pubkey_auth :: "bool \<Rightarrow> runner \<Rightarrow> unit ssh_result \<times> runner" where
  "enable_pubkey_auth enabled =
     st_bind (rn_get runner_auth_methods) (\<lambda>(pw, _). runner_set_auth_methods pw enabled)"

text \<open>
  \<open>allow\<close> of the three authentication events: only a public key request may be a query without a
  signature, which is answered without letting the user in. \<open>reject\<close>, also when the event is dropped.
\<close>

definition password_auth_allow :: "crypto \<Rightarrow> runner \<Rightarrow> unit ssh_result \<times> runner" where
  "password_auth_allow cr = runner_resume_servauth cr True"

definition first_auth_allow :: "crypto \<Rightarrow> runner \<Rightarrow> unit ssh_result \<times> runner" where
  "first_auth_allow cr = runner_resume_servauth cr True"

definition pubkey_auth_allow :: "crypto \<Rightarrow> bool \<Rightarrow> runner \<Rightarrow> unit ssh_result \<times> runner" where
  "pubkey_auth_allow cr real_sig =
     (if real_sig then runner_resume_servauth cr True else runner_resume_servauth_pkok cr)"

definition auth_reject :: "crypto \<Rightarrow> runner \<Rightarrow> unit ssh_result \<times> runner" where
  "auth_reject cr = runner_resume_servauth cr False"

definition runner_resume_chanopen :: "crypto \<Rightarrow> chan_num \<Rightarrow> chan_fail option \<Rightarrow> runner \<Rightarrow> unit ssh_result \<times> runner" where
  "runner_resume_chanopen cr num fail r = with_channels (resume_open cr num fail) (runner_resume r)"

definition open_session_accept :: "crypto \<Rightarrow> chan_num \<Rightarrow> runner \<Rightarrow> chan_num ssh_result \<times> runner" where
  "open_session_accept cr num =
     st_bind (runner_resume_chanopen cr num None) (\<lambda>_. rn_get (\<lambda>_. Inr num))"

definition open_session_reject :: "crypto \<Rightarrow> chan_num \<Rightarrow> chan_fail \<Rightarrow> runner \<Rightarrow> unit ssh_result \<times> runner" where
  "open_session_reject cr num reason = runner_resume_chanopen cr num (Some reason)"

definition open_session_drop :: "crypto \<Rightarrow> chan_num \<Rightarrow> runner \<Rightarrow> runner" where
  "open_session_drop cr num r =
     snd (runner_resume_chanopen cr num (Some SSH_OPEN_ADMINISTRATIVELY_PROHIBITED) r)"

text \<open>The packet of a channel request that is being answered.\<close>

definition runner_chanreq_packet :: "runner \<Rightarrow> packet ssh_result" where
  "runner_chanreq_packet r = and_then (runner_payload r) (\<lambda>(pl, _). conn_packet pl (rn_conn r))"

definition runner_resume_chanreq :: "crypto \<Rightarrow> bool \<Rightarrow> runner \<Rightarrow> unit ssh_result \<times> runner" where
  "runner_resume_chanreq cr success =
     st_bind (rn_get runner_chanreq_packet) (\<lambda>p r.
       let (x, r) = with_sender (channels_resume_chanreq cr p success (cn_channels (rn_conn r))) r
       in (x, runner_resume r))"

definition runner_fetch_servcommand :: "runner \<Rightarrow> bytes ssh_result" where
  "runner_fetch_servcommand r = and_then (runner_chanreq_packet r) channels_fetch_servcommand"

definition runner_fetch_env_name :: "runner \<Rightarrow> bytes ssh_result" where
  "runner_fetch_env_name r = and_then (runner_chanreq_packet r) channels_fetch_env_name"

definition runner_fetch_env_value :: "runner \<Rightarrow> bytes ssh_result" where
  "runner_fetch_env_value r = and_then (runner_chanreq_packet r) channels_fetch_env_value"

subsection \<open>Channels\<close>

definition is_channel_send_eof :: "chan_num \<Rightarrow> runner \<Rightarrow> bool" where
  "is_channel_send_eof num r = have_sent_eof num (cn_channels (rn_conn r))"

definition is_channel_eof :: "chan_num \<Rightarrow> runner \<Rightarrow> bool" where
  "is_channel_eof num r \<longleftrightarrow> have_recv_eof num (cn_channels (rn_conn r)) \<or> rn_closed_input r"

definition is_channel_closed :: "chan_num \<Rightarrow> runner \<Rightarrow> bool" where
  "is_channel_closed num r \<longleftrightarrow> channels_is_closed num (cn_channels (rn_conn r)) \<or> rn_closed_input r"

definition is_write_channel_valid :: "chan_num \<Rightarrow> chan_data \<Rightarrow> runner \<Rightarrow> bool" where
  "is_write_channel_valid num dt r = channels_valid_send num dt (cn_channels (rn_conn r))"

definition is_channel_finished :: "chan_num \<Rightarrow> runner \<Rightarrow> bool" where
  "is_channel_finished num r = channels_is_finished num (cn_channels (rn_conn r))"

definition write_channel_ready :: "chan_num \<Rightarrow> chan_data \<Rightarrow> runner \<Rightarrow> nat option ssh_result" where
  "write_channel_ready num dt r =
     (if traf_out_closed (rn_out r) then Inr None
      else
        and_then (validate_send dt (runner_is_client r)) (\<lambda>_.
        if conn_is_kex_sending (rn_conn r) then Inr (Some 0)
        else if is_draining (rn_out r) then Inr (Some 0)
        else if have_deferred_packets (rn_out r) then Inr (Some 0)
        else
          let payload_space = traf_out_send_allowed (ts_keys (rn_send r)) (rn_out r) - packet_offset dt
          in Inr (map_option (min payload_space) (channels_send_allowed num (cn_channels (rn_conn r))))))"

definition runner_send_packet :: "crypto \<Rightarrow> packet \<Rightarrow> runner \<Rightarrow> unit ssh_result \<times> runner" where
  "runner_send_packet cr p = with_sender (ts_send cr p)"

definition write_channel :: "crypto \<Rightarrow> chan_num \<Rightarrow> chan_data \<Rightarrow> bytes \<Rightarrow> runner \<Rightarrow> nat ssh_result \<times> runner" where
  "write_channel cr num dt buf r =
     (if traf_out_closed (rn_out r) then (Inl ChannelEOF, r)
      else if is_channel_send_eof num r then (Inl ChannelEOF, r)
      else if buf = [] then (Inr 0, r)
      else
        (case write_channel_ready num dt r of
           Inl e \<Rightarrow> (Inl e, r)
         | Inr None \<Rightarrow> (Inl ChannelEOF, r)
         | Inr (Some l) \<Rightarrow>
             if l = 0 then (Inr 0, r)
             else
               let len = min l (length buf) in
               st_bind (with_channels (\<lambda>cs ts. let (x, cs) = send_data num dt (take len buf) cs in (x, cs, ts)))
                 (\<lambda>p.
               st_bind (runner_send_packet cr p) (\<lambda>_ r. (Inr len, runner_wake r))) r))"

definition finished_read_channel :: "crypto \<Rightarrow> chan_num \<Rightarrow> nat \<Rightarrow> runner \<Rightarrow> unit ssh_result \<times> runner" where
  "finished_read_channel cr num len =
     st_bind (with_channels (finished_read cr num len)) (\<lambda>_. rn_update runner_wake)"

text \<open>The end of \<open>read_channel\<close> and \<open>read_channel_either\<close>, with the data that was read.\<close>

definition read_completed ::
  "crypto \<Rightarrow> chan_num \<Rightarrow> bytes \<Rightarrow> nat option \<Rightarrow> runner \<Rightarrow> bytes ssh_result \<times> runner" where
  "read_completed cr num data complete =
     st_bind (case complete of Some x \<Rightarrow> finished_read_channel cr num x | None \<Rightarrow> rn_update id) (\<lambda>_.
     rn_get (\<lambda>r. if data = [] \<and> is_channel_eof num r then Inl ChannelEOF else Inr data))"

definition runner_read_channel ::
  "crypto \<Rightarrow> chan_num \<Rightarrow> chan_data \<Rightarrow> nat \<Rightarrow> runner \<Rightarrow> bytes ssh_result \<times> runner" where
  "runner_read_channel cr num dt room r =
     (case and_then (validate_receive dt (runner_is_client r)) (\<lambda>_. read_channel num dt room (rn_traf_in r)) of
        Inl e \<Rightarrow> (Inl e, r)
      | Inr (data, complete, ti) \<Rightarrow> read_completed cr num data complete (r\<lparr>rn_traf_in := ti\<rparr>))"

definition runner_read_channel_either ::
  "crypto \<Rightarrow> chan_num \<Rightarrow> nat \<Rightarrow> runner \<Rightarrow> (bytes \<times> chan_data) ssh_result \<times> runner" where
  "runner_read_channel_either cr num room r =
     (case read_channel_either num room (rn_traf_in r) of
        Inl e \<Rightarrow> (Inl e, r)
      | Inr (data, complete, dt, ti) \<Rightarrow>
          let (x, r) = read_completed cr num data complete (r\<lparr>rn_traf_in := ti\<rparr>)
          in (and_then x (\<lambda>d. Inr (d, dt)), r))"

definition runner_discard_read_channel :: "crypto \<Rightarrow> chan_num \<Rightarrow> runner \<Rightarrow> unit ssh_result \<times> runner" where
  "runner_discard_read_channel cr num r =
     (let (x, ti) = discard_read_channel num (rn_traf_in r)
      in finished_read_channel cr num x (r\<lparr>rn_traf_in := ti\<rparr>))"

definition runner_read_channel_ready :: "runner \<Rightarrow> (chan_num \<times> chan_data \<times> nat) option" where
  "runner_read_channel_ready r = read_channel_ready (rn_traf_in r)"

definition send_channel_eof :: "crypto \<Rightarrow> chan_num \<Rightarrow> runner \<Rightarrow> unit ssh_result \<times> runner" where
  "send_channel_eof cr num r =
     (if traf_out_closed (rn_out r) then (Inl ChannelEOF, r)
      else st_bind (with_channels (channels_send_eof cr num)) (\<lambda>_. rn_update runner_wake) r)"

definition channel_done :: "chan_num \<Rightarrow> runner \<Rightarrow> unit ssh_result \<times> runner" where
  "channel_done num =
     st_bind (with_channels (\<lambda>cs ts. let (x, cs) = channels_done num cs in (x, cs, ts))) (\<lambda>_.
     rn_update (\<lambda>r. runner_wake (r\<lparr>rn_traf_in := snd (discard_read_channel num (rn_traf_in r))\<rparr>)))"

text \<open>\<open>by_handle_mut\<close>, which panics for a channel that is not open yet.\<close>

definition on_handle :: "chan_num \<Rightarrow> (channel \<Rightarrow> channel) \<Rightarrow> runner \<Rightarrow> unit ssh_result \<times> runner" where
  "on_handle num f =
     with_channels (\<lambda>cs ts.
       case unwrap_result (get_chan num cs) of
         Inl e \<Rightarrow> (Inl e, cs, ts)
       | Inr ch \<Rightarrow> (Inr (), put_chan num (Some (f ch)) cs, ts))"

definition set_channel_read_waker :: "chan_num \<Rightarrow> chan_data \<Rightarrow> waker \<Rightarrow> runner \<Rightarrow> unit ssh_result \<times> runner" where
  "set_channel_read_waker num dt w r = on_handle num (set_read_waker dt (runner_is_client r) w) r"

definition set_channel_write_waker :: "chan_num \<Rightarrow> chan_data \<Rightarrow> waker \<Rightarrow> runner \<Rightarrow> unit ssh_result \<times> runner" where
  "set_channel_write_waker num dt w r = on_handle num (set_write_waker dt (runner_is_client r) w) r"

definition runner_term_window_change ::
  "crypto \<Rightarrow> chan_num \<Rightarrow> u32 \<times> u32 \<times> u32 \<times> u32 \<Rightarrow> runner \<Rightarrow> unit ssh_result \<times> runner" where
  "runner_term_window_change cr num winch r =
     (if runner_is_client r then with_sender (channels_term_window_change cr num winch (cn_channels (rn_conn r))) r
      else (Inl BadUsage, r))"

definition open_client_channel :: "crypto \<Rightarrow> channel_open_type \<Rightarrow> runner \<Rightarrow> chan_num ssh_result \<times> runner" where
  "open_client_channel cr ty =
     st_bind (with_channels (\<lambda>cs ts. let (x, cs) = channels_open ty cs in (x, cs, ts))) (\<lambda>(chan, p).
     st_bind (runner_send_packet cr p) (\<lambda>_ r. (Inr chan, runner_wake r)))"

definition open_client_session :: "crypto \<Rightarrow> runner \<Rightarrow> chan_num ssh_result \<times> runner" where
  "open_client_session cr = open_client_channel cr OpenSession"

type_synonym u16 = "16 word"

definition open_client_tcpip ::
  "crypto \<Rightarrow> string \<Rightarrow> u16 \<Rightarrow> string \<Rightarrow> u16 \<Rightarrow> runner \<Rightarrow> chan_num ssh_result \<times> runner" where
  "open_client_tcpip cr address port origin origin_port =
     open_client_channel cr
       (DirectTcpip (str_bytes address) (ucast port) (str_bytes origin) (ucast origin_port))"

end
