(* ===== verification/SSH_Traffic_Correct.thy ===== *)
theory SSH_Traffic_Correct
  imports SSH_Traffic
begin

section \<open>Correctness of traffic\<close>

text \<open>
  What \<open>SSH_Traffic\<close> guarantees. Input: the indices stay inside the buffer and nothing panics
  (\<open>fill_input_inv\<close>), how the network cuts the stream does not matter (\<open>fill_input_append\<close>), and
  channel data is delivered once and in order. Output: the bytes queued for the socket are the packets in
  the order they were sent, a packet that does not fit changes nothing visible, and while a key
  exchange is being sent only key exchange packets are.
  \<open>packet_delivered\<close> and \<open>stream_delivered\<close> put the two together: what one end sends, the other end gets.
\<close>

subsection \<open>Content that is taken out in pieces\<close>

text \<open>
  \<open>TrafOut\<close> is emptied by the socket and \<open>TrafIn\<close> by the application, both in pieces of any size.
\<close>

fun pieces :: "(nat \<Rightarrow> 's \<Rightarrow> (bytes \<times> 's) ssh_result) \<Rightarrow> nat list \<Rightarrow> 's \<Rightarrow> (bytes \<times> 's) ssh_result" where
  "pieces tk [] s = Inr ([], s)"
| "pieces tk (n # ns) s = and_then (tk n s) (\<lambda>(d, s). and_then (pieces tk ns s) (\<lambda>(ds, s). Inr (d @ ds, s)))"

locale drained =
  fixes content :: "'s \<Rightarrow> bytes"
    and ok :: "'s \<Rightarrow> bool"
    and tk :: "nat \<Rightarrow> 's \<Rightarrow> (bytes \<times> 's) ssh_result"
  assumes tk_law: "ok s \<Longrightarrow> \<exists>s'. tk n s = Inr (take n (content s), s') \<and> ok s' \<and> content s' = drop n (content s)"
begin

lemma pieces_prefix:
  "ok s \<Longrightarrow> \<exists>s'. pieces tk ns s = Inr (take (sum_list ns) (content s), s') \<and> ok s'
     \<and> content s' = drop (sum_list ns) (content s)"
proof (induction ns arbitrary: s)
  case (Cons n ns)
  from tk_law [OF Cons.prems, of n] obtain s1 where
    1: "tk n s = Inr (take n (content s), s1)" "ok s1" "content s1 = drop n (content s)" by blast
  from Cons.IH [OF 1(2)] obtain s2 where "pieces tk ns s1 = Inr (take (sum_list ns) (content s1), s2)" "ok s2"
    "content s2 = drop (sum_list ns) (content s1)" by blast
  with 1 show ?case by (simp add: take_add add.commute [of _ n])
qed simp

end

subsection \<open>Input stays in bounds\<close>

definition rx_inv :: "nat \<Rightarrow> traf_in \<Rightarrow> bool" where
  "rx_inv sb ti \<longleftrightarrow> 16 \<le> length (in_buf ti) \<and>
     (case rx ti of
        RxIdle \<Rightarrow> True
      | RxReadInitial idx \<Rightarrow> 0 < idx \<and> idx < sb
      | RxRead idx expect \<Rightarrow> sb \<le> idx \<and> idx < expect \<and> expect \<le> length (in_buf ti)
      | RxReadComplete _ \<Rightarrow> False
      | RxInPayload len _ \<Rightarrow> 5 + len \<le> length (in_buf ti)
      | RxInChannelData _ _ idx len \<Rightarrow> 5 \<le> idx \<and> idx < len \<and> len \<le> length (in_buf ti))"

lemma dec_key_first_block_keeps:
  assumes "dec_key_first_block cr k sq buf = Inr (n, k', buf')"
  shows "length buf' = length buf \<and> dec_size_block k' = dec_size_block k"
  using assms by (cases k) (auto simp: and_then_Inr_eq aes_apply_def Let_def)

lemma first_block_keeps:
  assumes "decrypt_first_block cr buf keys = (res, keys', buf')"
  shows "length buf' = length buf" "size_block_dec keys' = size_block_dec keys" "res \<noteq> Inl Panic"
proof -
  obtain res0 d b where r: "keys_recv_decrypt_first_block cr buf (seq_decrypt keys) (ks_dec keys) = (res0, d, b)"
    by (metis prod_cases3)
  have eq: "res = res0" "keys' = keys\<lparr>ks_dec := d\<rparr>" "buf' = b"
    using assms by (simp_all add: decrypt_first_block_def r)
  show "res \<noteq> Inl Panic"
    using decrypt_first_block_not_Panic [of cr buf "seq_decrypt keys" "ks_dec keys"] r eq(1) by simp
  have "length b = length buf \<and> dec_size_block (r_cipher d) = dec_size_block (r_cipher (ks_dec keys))"
    using r by (auto simp: keys_recv_decrypt_first_block_def Let_def split: if_splits sum.splits
        dest: dec_key_first_block_keeps)
  with eq show "length buf' = length buf" "size_block_dec keys' = size_block_dec keys"
    by (simp_all add: size_block_dec_def)
qed

lemma dec_key_decrypt_block:
  "dec_key_decrypt cr k sq dat mac = Inr (k', dat') \<Longrightarrow> dec_size_block k' = dec_size_block k"
  by (cases k) (auto simp: and_then_Inr_eq aes_apply_def Let_def)

lemma decrypt_keeps:
  assumes "decrypt cr buf keys = (res, keys', buf')"
  shows "res \<noteq> Inl Panic"
    and "res = Inr n \<Longrightarrow> length buf' = length buf \<and> size_block_dec keys' = size_block_dec keys
           \<and> 5 + n \<le> length buf"
proof -
  obtain res0 d b where r: "keys_recv_decrypt cr buf (seq_decrypt keys) (ks_dec keys) = (res0, d, b)"
    by (metis prod_cases3)
  have eq: "res = res0" "ks_dec keys' = d" "buf' = b"
    using assms by (auto simp: decrypt_def r Let_def split: sum.splits)
  show "res \<noteq> Inl Panic"
    using keys_recv_decrypt_not_Panic [of cr buf "seq_decrypt keys" "ks_dec keys"] r eq(1) by simp
  assume "res = Inr n"
  with r eq(1) have "keys_recv_decrypt cr buf (seq_decrypt keys) (ks_dec keys) = (Inr n, d, b)" by simp
  then show "length buf' = length buf \<and> size_block_dec keys' = size_block_dec keys \<and> 5 + n \<le> length buf"
    by (rule keys_recv_decrypt_Inr) (auto simp: eq size_block_dec_def dest: dec_key_decrypt_block)
qed

lemma size_block_dec_bounds: "0 < size_block_dec keys" "8 \<le> size_block_dec keys" "size_block_dec keys \<le> 16"
  using dec_size_block_cases [of "r_cipher (ks_dec keys)"] by (auto simp: size_block_dec_def)

text \<open>The four stages of \<open>fill_input\<close>.\<close>

lemma fill_initial_inv:
  assumes "rx_inv sb ti" "0 < sb" "sb \<le> 16"
  shows "\<exists>r ti'. fill_initial sb buf ti = Inr (r, ti') \<and> length r \<le> length buf
     \<and> length (in_buf ti') = length (in_buf ti)
     \<and> (rx_inv sb ti' \<or> (16 \<le> length (in_buf ti') \<and> rx ti' = RxReadInitial sb))"
proof (cases "rx ti")
  case RxIdle
  with assms show ?thesis
    by (cases "buf = []"; cases "sb \<le> length buf")
      (auto simp: fill_initial_def Let_def fill_at_def rx_inv_def)
next
  case (RxReadInitial idx)
  with assms show ?thesis
    by (cases "sb - idx \<le> length buf") (auto simp: fill_initial_def Let_def fill_at_def rx_inv_def)
qed (use assms in \<open>auto simp: fill_initial_def\<close>)

lemma fill_length_inv:
  assumes "rx_inv sb ti \<or> (16 \<le> length (in_buf ti) \<and> rx ti = RxReadInitial sb)"
    and "sb = size_block_dec keys"
  shows "case fill_length cr sb keys ti of
           Inl e \<Rightarrow> e \<noteq> Panic
         | Inr (keys', ti') \<Rightarrow> size_block_dec keys' = sb \<and> length (in_buf ti') = length (in_buf ti)
             \<and> (rx_inv sb ti' \<or> (\<exists>e. rx ti' = RxRead sb e \<and> sb \<le> e \<and> e \<le> length (in_buf ti')
                  \<and> 16 \<le> length (in_buf ti')))"
proof (cases "rx ti = RxReadInitial sb")
  case True
  with assms have big: "16 \<le> length (in_buf ti)" by (auto simp: rx_inv_def)
  note b = size_block_dec_bounds [of keys, folded assms(2)]
  have s: "slice (in_buf ti) 0 sb = Some (take sb (in_buf ti))"
    using big b by (simp add: slice_def)
  obtain res k w where d: "decrypt_first_block cr (take sb (in_buf ti)) keys = (res, k, w)"
    by (metis prod_cases3)
  have w: "length w = sb" "size_block_dec k = sb" "res \<noteq> Inl Panic"
    using first_block_keeps [OF d] assms(2) big b by auto
  show ?thesis
    using True big w b
    by (cases res) (auto simp: fill_length_def s panic_option_def d Let_def)
next
  case False
  with assms show ?thesis by (auto simp: fill_length_def rx_inv_def split: rx_state.split)
qed

lemma fill_rest_inv:
  assumes "rx_inv sb ti \<or> (\<exists>e. rx ti = RxRead sb e \<and> sb \<le> e \<and> e \<le> length (in_buf ti)
                  \<and> 16 \<le> length (in_buf ti))"
  shows "\<exists>r ti'. fill_rest buf ti = Inr (r, ti') \<and> length r \<le> length buf
    \<and> length (in_buf ti') = length (in_buf ti)
    \<and> (rx_inv sb ti' \<or> (\<exists>e. rx ti' = RxReadComplete e \<and> e \<le> length (in_buf ti') \<and> 16 \<le> length (in_buf ti')))"
proof (cases "rx ti")
  case (RxRead idx e)
  with assms have i: "sb \<le> idx" "idx \<le> e" "e \<le> length (in_buf ti)" "16 \<le> length (in_buf ti)"
    by (auto simp: rx_inv_def)
  with RxRead show ?thesis
    by (cases "e - idx \<le> length buf") (auto simp: fill_rest_def Let_def fill_at_def rx_inv_def)
qed (use assms in \<open>auto simp: fill_rest_def\<close>)

lemma fill_decrypt_inv:
  assumes "rx_inv sb ti \<or> (\<exists>e. rx ti = RxReadComplete e \<and> e \<le> length (in_buf ti) \<and> 16 \<le> length (in_buf ti))"
    and "sb = size_block_dec keys"
  shows "case fill_decrypt cr keys ti of
           Inl e \<Rightarrow> e \<noteq> Panic
         | Inr (keys', ti') \<Rightarrow> size_block_dec keys' = sb \<and> length (in_buf ti') = length (in_buf ti)
             \<and> rx_inv sb ti'"
proof (cases "rx ti")
  case (RxReadComplete e)
  with assms have e: "e \<le> length (in_buf ti)" "16 \<le> length (in_buf ti)" by (auto simp: rx_inv_def)
  obtain res k w where d: "decrypt cr (take e (in_buf ti)) keys = (res, k, w)"
    by (metis prod_cases3)
  show ?thesis
    using RxReadComplete e decrypt_keeps [OF d] assms(2)
    by (cases res) (auto simp: fill_decrypt_def slice_def panic_option_def d Let_def rx_inv_def)
qed (use assms in \<open>auto simp: fill_decrypt_def\<close>)

lemma fill_input_inv:
  assumes inv: "rx_inv (size_block_dec keys) ti"
  shows "case fill_input cr buf keys ti of
           Inl e \<Rightarrow> e \<noteq> Panic
         | Inr (n, keys', ti') \<Rightarrow> n \<le> length buf \<and> rx_inv (size_block_dec keys') ti'
             \<and> length (in_buf ti') = length (in_buf ti) \<and> size_block_dec keys' = size_block_dec keys"
proof -
  define sb where "sb = size_block_dec keys"
  note b = size_block_dec_bounds [of keys, folded sb_def]
  obtain r1 t1 where 1: "fill_initial sb buf ti = Inr (r1, t1)" "length r1 \<le> length buf"
    "length (in_buf t1) = length (in_buf ti)"
    "rx_inv sb t1 \<or> (16 \<le> length (in_buf t1) \<and> rx t1 = RxReadInitial sb)"
    using fill_initial_inv [OF inv [folded sb_def] b(1,3), of buf] by blast
  note 2 = fill_length_inv [OF 1(4) sb_def, of cr]
  show ?thesis
  proof (cases "fill_length cr sb keys t1")
    case (Inl e)
    with 1 2 show ?thesis by (simp add: fill_input_def flip: sb_def)
  next
    case (Inr kt)
    obtain k2' t2 where kt: "kt = (k2', t2)" by (cases kt)
    have t2: "size_block_dec k2' = sb" "length (in_buf t2) = length (in_buf t1)"
      "rx_inv sb t2 \<or> (\<exists>e. rx t2 = RxRead sb e \<and> sb \<le> e \<and> e \<le> length (in_buf t2) \<and> 16 \<le> length (in_buf t2))"
      using 2 unfolding Inr kt sum.case prod.case by blast+
    obtain r3 t3 where 3: "fill_rest r1 t2 = Inr (r3, t3)" "length r3 \<le> length r1"
      "length (in_buf t3) = length (in_buf t2)"
      "rx_inv sb t3 \<or> (\<exists>e. rx t3 = RxReadComplete e \<and> e \<le> length (in_buf t3) \<and> 16 \<le> length (in_buf t3))"
      using fill_rest_inv [OF t2(3), of r1] by blast
    from fill_decrypt_inv [OF 3(4) t2(1) [symmetric], of cr] show ?thesis
      using 1 Inr kt t2 3
      by (cases "fill_decrypt cr k2' t3") (auto simp: fill_input_def simp flip: sb_def)
  qed
qed


subsection \<open>The network may cut the stream anywhere\<close>

text \<open>\<open>fill_input\<close> of what is left, after some bytes have been taken.\<close>

definition then_fill ::
  "crypto \<Rightarrow> bytes \<Rightarrow> (nat \<times> key_state \<times> traf_in) ssh_result \<Rightarrow> (nat \<times> key_state \<times> traf_in) ssh_result" where
  "then_fill cr buf res = and_then res (\<lambda>(n, keys, ti).
     and_then (fill_input cr buf keys ti) (\<lambda>(m, keys, ti). Inr (n + m, keys, ti)))"

lemma fill_input_waiting:
  "\<not> is_input_ready_rx (rx ti) \<Longrightarrow> (\<forall>n. rx ti \<noteq> RxReadComplete n) \<Longrightarrow> fill_input cr buf keys ti = Inr (0, keys, ti)"
  by (cases "rx ti") (simp_all add: fill_input_def fill_initial_def fill_length_def fill_rest_def fill_decrypt_def)

lemma fill_input_Nil: "rx ti = RxIdle \<Longrightarrow> fill_input cr [] keys ti = Inr (0, keys, ti)"
  by (simp add: fill_input_def fill_initial_def fill_length_def fill_rest_def fill_decrypt_def)

lemma fill_input_Read_part:
  assumes "rx ti = RxRead idx e" "idx + length a < e" "e \<le> length (in_buf ti)"
  shows "fill_input cr a keys ti =
    Inr (length a, keys, ti\<lparr>in_buf := overwrite (in_buf ti) idx a, rx := RxRead (idx + length a) e\<rparr>)"
  using assms
  by (simp add: fill_input_def fill_initial_def fill_length_def fill_rest_def fill_decrypt_def fill_at_def Let_def)

lemma fill_input_Read_full:
  assumes "rx ti = RxRead idx e" "e - idx \<le> length a" "idx \<le> e" "e \<le> length (in_buf ti)"
  shows "fill_input cr a keys ti =
    and_then (fill_decrypt cr keys (ti\<lparr>in_buf := overwrite (in_buf ti) idx (take (e - idx) a), rx := RxReadComplete e\<rparr>))
      (\<lambda>(keys, ti). Inr (e - idx, keys, ti))"
  using assms by (simp add: fill_input_def fill_initial_def fill_length_def fill_rest_def fill_at_def Let_def)

lemma fill_decrypt_done:
  "rx ti = RxReadComplete e \<Longrightarrow> fill_decrypt cr keys ti = Inr (keys', ti') \<Longrightarrow> \<exists>n sq. rx ti' = RxInPayload n sq"
  by (auto simp: fill_decrypt_def and_then_Inr_eq Let_def case_prod_beta)

lemma then_fill_done:
  assumes "rx ti = RxReadComplete e"
  shows "then_fill cr b (and_then (fill_decrypt cr keys ti) (\<lambda>(keys, ti). Inr (k, keys, ti)))
    = and_then (fill_decrypt cr keys ti) (\<lambda>(keys, ti). Inr (k, keys, ti))"
proof (cases "fill_decrypt cr keys ti")
  case (Inr kt)
  with fill_decrypt_done [OF assms] obtain n sq where "rx (snd kt) = RxInPayload n sq"
    by (metis prod.collapse)
  then have "fill_input cr b (fst kt) (snd kt) = Inr (0, fst kt, snd kt)"
    by (intro fill_input_waiting) simp_all
  with Inr show ?thesis by (simp add: then_fill_def case_prod_beta)
qed (simp add: then_fill_def)

lemma fill_input_append_Read:
  assumes "rx ti = RxRead idx e" "idx \<le> e" "e \<le> length (in_buf ti)"
  shows "fill_input cr (a @ b) keys ti = then_fill cr b (fill_input cr a keys ti)"
proof (cases "idx + length a < e")
  case False
  with assms show ?thesis
    by (simp add: fill_input_Read_full then_fill_done)
next
  case a: True
  let ?ti = "ti\<lparr>in_buf := overwrite (in_buf ti) idx a, rx := RxRead (idx + length a) e\<rparr>"
  show ?thesis
  proof (cases "idx + length a + length b < e")
    case True
    with a assms show ?thesis
      by (simp add: fill_input_Read_part then_fill_def overwrite_overwrite add.assoc)
  next
    case False
    with a assms show ?thesis
      by (simp add: fill_input_Read_part fill_input_Read_full then_fill_def overwrite_overwrite
          and_then_assoc case_prod_beta')
  qed
qed


lemma fill_input_Initial_part:
  assumes "rx ti = RxReadInitial idx" "idx + length a < size_block_dec keys"
    and "size_block_dec keys \<le> length (in_buf ti)"
  shows "fill_input cr a keys ti =
    Inr (length a, keys, ti\<lparr>in_buf := overwrite (in_buf ti) idx a, rx := RxReadInitial (idx + length a)\<rparr>)"
  using assms
  by (simp add: fill_input_def fill_initial_def fill_length_def fill_rest_def fill_decrypt_def fill_at_def Let_def)

lemma fill_length_Inr:
  assumes "rx ti = RxReadInitial sb" "fill_length cr sb keys ti = Inr (keys', ti')"
  shows "\<exists>e. rx ti' = RxRead sb e \<and> sb \<le> e \<and> e \<le> length (in_buf ti')"
  using assms by (auto simp: fill_length_def and_then_Inr_eq Let_def case_prod_beta split: if_splits)

lemma fill_input_count: "fill_input cr a keys ti = Inr (n, keys', ti') \<Longrightarrow> n \<le> length a"
  by (auto simp: fill_input_def and_then_Inr_eq Let_def)

lemma fill_input_Initial_full:
  assumes "rx ti = RxReadInitial idx" "size_block_dec keys - idx \<le> length a" "idx \<le> size_block_dec keys"
    and "size_block_dec keys \<le> length (in_buf ti)"
  defines "need \<equiv> size_block_dec keys - idx"
  shows "fill_input cr a keys ti =
    and_then (fill_length cr (size_block_dec keys)
        (keys) (ti\<lparr>in_buf := overwrite (in_buf ti) idx (take need a), rx := RxReadInitial (size_block_dec keys)\<rparr>))
      (\<lambda>(keys, ti). and_then (fill_input cr (drop need a) keys ti) (\<lambda>(m, keys, ti). Inr (need + m, keys, ti)))"
proof -
  let ?sb = "size_block_dec keys"
  let ?ti = "ti\<lparr>in_buf := overwrite (in_buf ti) idx (take need a), rx := RxReadInitial ?sb\<rparr>"
  have 1: "fill_initial ?sb a ti = Inr (drop need a, ?ti)"
    using assms by (simp add: fill_initial_def fill_at_def Let_def)
  show ?thesis
  proof (cases "fill_length cr ?sb keys ?ti")
    case (Inl e)
    with 1 show ?thesis by (simp add: fill_input_def)
  next
    case (Inr kt)
    obtain k t where kt: "kt = (k, t)" by (cases kt)
    with Inr fill_length_Inr [of ?ti ?sb] obtain e where e: "rx t = RxRead ?sb e" "?sb \<le> e" "e \<le> length (in_buf t)"
      by fastforce
    have r: "fill_rest (drop need a) t = Inr (r, t') \<Longrightarrow> length r \<le> length a - need" for r t'
      using e by (auto simp: fill_rest_def Let_def and_then_Inr_eq)
    have "fill_input cr a keys ti = and_then (fill_rest (drop need a) t) (\<lambda>(r, ti).
        and_then (fill_decrypt cr k ti) (\<lambda>(keys, ti). Inr (length a - length r, keys, ti)))"
      using 1 Inr kt by (simp add: fill_input_def)
    moreover have "fill_input cr (drop need a) k t = and_then (fill_rest (drop need a) t) (\<lambda>(r, ti).
        and_then (fill_decrypt cr k ti) (\<lambda>(keys, ti). Inr (length a - need - length r, keys, ti)))"
      using e by (simp add: fill_input_def fill_initial_def fill_length_def)
    ultimately show ?thesis
      using Inr kt r assms(2)
      by (cases "fill_rest (drop need a) t") (auto simp: and_then_assoc case_prod_beta' need_def)
  qed
qed

lemma fill_input_append_Initial:
  assumes "rx ti = RxReadInitial idx" "idx \<le> size_block_dec keys" "size_block_dec keys \<le> length (in_buf ti)"
  shows "fill_input cr (a @ b) keys ti = then_fill cr b (fill_input cr a keys ti)"
proof (cases "idx + length a < size_block_dec keys")
  case a: True
  let ?ti = "ti\<lparr>in_buf := overwrite (in_buf ti) idx a, rx := RxReadInitial (idx + length a)\<rparr>"
  show ?thesis
  proof (cases "idx + length a + length b < size_block_dec keys")
    case True
    with a assms show ?thesis
      by (simp add: fill_input_Initial_part then_fill_def overwrite_overwrite add.assoc)
  next
    case False
    with a assms show ?thesis
      by (simp add: fill_input_Initial_part fill_input_Initial_full then_fill_def overwrite_overwrite
          and_then_assoc case_prod_beta' add.assoc)
  qed
next
  case False
  let ?sb = "size_block_dec keys" and ?need = "size_block_dec keys - idx"
  let ?ti = "ti\<lparr>in_buf := overwrite (in_buf ti) idx (take ?need a), rx := RxReadInitial ?sb\<rparr>"
  have "fill_input cr (drop ?need a @ b) k t = then_fill cr b (fill_input cr (drop ?need a) k t)"
    if "fill_length cr ?sb keys ?ti = Inr (k, t)" for k t
    using fill_length_Inr [OF _ that] fill_input_append_Read [of t ?sb] by fastforce
  with False assms show ?thesis
    by (cases "fill_length cr ?sb keys ?ti")
       (auto simp: fill_input_Initial_full then_fill_def and_then_assoc case_prod_beta' add.assoc)
qed

text \<open>Reading the whole stream at once or in two pieces gives the same.\<close>

lemma fill_input_append:
  assumes "rx_inv (size_block_dec keys) ti"
  shows "fill_input cr (a @ b) keys ti = then_fill cr b (fill_input cr a keys ti)"
proof (cases "rx ti")
  case RxIdle
  have eq: "fill_input cr v keys ti = fill_input cr v keys (ti\<lparr>rx := RxReadInitial 0\<rparr>)" if "v \<noteq> []" for v
    using that RxIdle by (simp add: fill_input_def fill_initial_def fill_at_def Let_def)
  show ?thesis
  proof (cases "a = []")
    case True
    then show ?thesis
      using RxIdle by (cases "fill_input cr b keys ti") (auto simp: then_fill_def fill_input_Nil)
  next
    case False
    with eq [of a] eq [of "a @ b"] fill_input_append_Initial [of "ti\<lparr>rx := RxReadInitial 0\<rparr>" 0 keys cr a b]
    show ?thesis using assms size_block_dec_bounds [of keys] by (simp add: rx_inv_def)
  qed
next
  case (RxReadInitial idx)
  then show ?thesis
    using assms size_block_dec_bounds [of keys]
    by (intro fill_input_append_Initial [of ti idx]) (auto simp: rx_inv_def)
next
  case (RxRead idx e)
  then show ?thesis using assms by (intro fill_input_append_Read) (auto simp: rx_inv_def)
qed (use assms in \<open>auto simp: rx_inv_def then_fill_def fill_input_waiting\<close>)


subsection \<open>Channel data is delivered in order\<close>

text \<open>The data that has not been read yet.\<close>

definition unread :: "traf_in \<Rightarrow> bytes" where
  "unread ti = (case rx ti of
     RxInChannelData _ _ idx len \<Rightarrow> take (len - idx) (drop idx (in_buf ti)) | _ \<Rightarrow> [])"

definition reading :: "chan_num \<Rightarrow> chan_data \<Rightarrow> traf_in \<Rightarrow> bool" where
  "reading chan dt ti \<longleftrightarrow> (case rx ti of
     RxInChannelData c e idx len \<Rightarrow> c = chan \<and> e = dt \<and> idx < len \<and> len \<le> length (in_buf ti)
   | RxIdle \<Rightarrow> True | _ \<Rightarrow> False)"

definition read_piece :: "chan_num \<Rightarrow> chan_data \<Rightarrow> nat \<Rightarrow> traf_in \<Rightarrow> (bytes \<times> traf_in) ssh_result" where
  "read_piece chan dt n ti = and_then (read_channel chan dt n ti) (\<lambda>(d, _, ti). Inr (d, ti))"

lemma read_channel_law:
  assumes "reading chan dt ti"
  shows "\<exists>ti'. read_piece chan dt n ti = Inr (take n (unread ti), ti')
     \<and> reading chan dt ti' \<and> unread ti' = drop n (unread ti)"
proof (cases "rx ti")
  case (RxInChannelData c e idx len)
  with assms have i: "c = chan" "e = dt" "idx < len" "len \<le> length (in_buf ti)" by (simp_all add: reading_def)
  then show ?thesis
    using RxInChannelData
    by (cases "len - idx \<le> n")
       (auto simp: read_piece_def read_channel_def Let_def panic_option_def slice_def unread_def reading_def min_def
         drop_take add.commute)
qed (use assms in \<open>auto simp: read_piece_def reading_def read_channel_def unread_def\<close>)

interpretation app_read: drained unread "reading chan dt" "read_piece chan dt" for chan dt
  by unfold_locales (rule read_channel_law)

text \<open>
  What \<open>read_channel\<close> reports as the length of the completed packet is the position where the data ended
  in the buffer, not the number of bytes that were delivered.
\<close>

lemma read_channel_reports_end:
  assumes "rx ti = RxInPayload len sq" "set_read_channel_data di ti = Inr (x, ti1)"
    and "5 + packet_offset (di_dt di) + di_len di \<le> length (in_buf ti)" "0 < di_len di" "di_len di \<le> room"
    and "read_channel (di_num di) (di_dt di) room ti1 = Inr (d, complete, ti2)"
  shows "length d = di_len di" "complete = Some (5 + packet_offset (di_dt di) + di_len di)"
  using assms
  by (auto simp: set_read_channel_data_def Let_def read_channel_def panic_option_def slice_def framing_consts
      split: if_splits)

subsection \<open>Output\<close>

definition tx_inv :: "traf_out \<Rightarrow> bool" where
  "tx_inv out \<longleftrightarrow> length (deferred_packets out) \<le> DEFER_COUNT \<and>
     (case tx out of TxWrite idx len \<Rightarrow> idx < len \<and> len \<le> length (out_buf out) | _ \<Rightarrow> True)"

text \<open>The bytes that are ready for the socket.\<close>

definition pending :: "traf_out \<Rightarrow> bytes" where
  "pending out = (case tx out of TxWrite idx len \<Rightarrow> take (len - idx) (drop idx (out_buf out)) | _ \<Rightarrow> [])"

lemma pending_update [simp]:
  "pending (out\<lparr>sending_kex := k\<rparr>) = pending out" "pending (out\<lparr>deferred_packets := q\<rparr>) = pending out"
  "tx_inv (out\<lparr>sending_kex := k\<rparr>) = tx_inv out"
  by (cases "tx out"; simp add: pending_def tx_inv_def)+

lemma tx_inv_buf: "tx_inv out \<Longrightarrow> length b = length (out_buf out) \<Longrightarrow> tx_inv (out\<lparr>out_buf := b\<rparr>)"
  by (cases "tx out") (simp_all add: tx_inv_def)

lemma output_buf_pending: "tx_inv out \<Longrightarrow> output_buf out = Inr (pending out)"
  by (auto simp: tx_inv_def output_buf_def pending_def panic_option_def slice_def split: tx_state.split)

lemma consume_output_pending:
  "tx_inv out \<Longrightarrow> pending (consume_output n out) = drop n (pending out) \<and> tx_inv (consume_output n out)"
proof (cases "tx out")
  case (TxWrite idx len)
  assume "tx_inv out"
  with TxWrite show ?thesis
    by (cases "len - idx \<le> n")
       (auto simp: tx_inv_def consume_output_def pending_def Let_def min_def drop_take add.commute)
qed (auto simp: consume_output_def pending_def)

definition output_piece :: "nat \<Rightarrow> traf_out \<Rightarrow> (bytes \<times> traf_out) ssh_result" where
  "output_piece n out = and_then (output_buf out) (\<lambda>b. Inr (take n b, consume_output n out))"

interpretation socket: drained pending tx_inv output_piece
  by unfold_locales (simp add: output_piece_def output_buf_pending consume_output_pending)


text \<open>\<open>track_send_packet\<close> only touches \<open>sending_kex\<close>.\<close>

lemma track_send_packet_eq:
  "\<exists>k. snd (track_send_packet p keys out) = out\<lparr>sending_kex := k\<rparr>"
  by (cases p) (auto simp: track_send_packet_def intro: exI [of _ "sending_kex out"])

lemma encrypt_NoRoom:
  "encrypt cr n buf keys = (Inl NoRoom, keys', buf') \<Longrightarrow> crypto_ok cr \<Longrightarrow> keys_send_ok (ks_enc keys) \<Longrightarrow>
     5 + n \<le> length buf \<Longrightarrow> keys' = keys \<and> buf' = buf"
proof -
  assume e: "encrypt cr n buf keys = (Inl NoRoom, keys', buf')" and ok: "crypto_ok cr" "keys_send_ok (ks_enc keys)"
    and n: "5 + n \<le> length buf"
  obtain e0 k calls b where
    e0: "keys_send_encrypt cr n buf (seq_encrypt keys) (rng_calls keys) (ks_enc keys) = (e0, k, calls, b)"
    by (metis prod_cases4)
  have r: "e0 = Inl NoRoom" "keys' = keys\<lparr>ks_enc := k, rng_calls := calls\<rparr>" "buf' = b"
    using e by (auto simp: encrypt_def e0 Let_def split: if_splits)
  have "k = ks_enc keys \<and> calls = rng_calls keys \<and> b = buf"
  proof (cases "frame_len (ks_enc keys) n + integ_size_out (s_integ (ks_enc keys)) \<le> length buf")
    case True
    show ?thesis
    proof (cases "getrandom cr (rng_calls keys) (calc_encrypt_pad (ks_enc keys) n)")
      case None
      with True e0 r(1) show ?thesis
        by (simp add: keys_send_encrypt_def framing_consts fill_random_def Let_def)
    next
      case (Some pad)
      from keys_send_encrypt_fits [OF ok n True Some, of "seq_encrypt keys"] e0 r(1) show ?thesis by auto
    qed
  qed (use e0 keys_send_encrypt_NoRoom in force)
  with r show ?thesis by simp
qed

lemma encrypt_length:
  assumes "encrypt cr n buf keys = (Inr tot, keys', buf')" "crypto_ok cr" "keys_send_ok (ks_enc keys)"
  shows "length buf' = length buf" "9 + n \<le> tot" "tot \<le> length buf" "keys_send_ok (ks_enc keys')"
proof -
  obtain e0 k calls b where
    e0: "keys_send_encrypt cr n buf (seq_encrypt keys) (rng_calls keys) (ks_enc keys) = (e0, k, calls, b)"
    by (metis prod_cases4)
  have r: "e0 = Inr tot" "ks_enc keys' = k" "buf' = b"
    using assms(1) by (auto simp: encrypt_def e0 Let_def split: if_splits)
  from keys_send_encrypt_Inr [OF e0 [unfolded r(1)]] obtain pad where
    f: "frame_len (ks_enc keys) n + integ_size_out (s_integ (ks_enc keys)) \<le> length buf"
    "getrandom cr (rng_calls keys) (calc_encrypt_pad (ks_enc keys) n) = Some pad" .
  from keys_send_encrypt_fits [OF assms(2,3) _ f, of "seq_encrypt keys"] f(1) e0 r
    calc_encrypt_pad(1) [of "ks_enc keys" n]
  show "length buf' = length buf" "9 + n \<le> tot" "tot \<le> length buf" "keys_send_ok (ks_enc keys')"
    by (auto simp: keys_send_ok_def)
qed

text \<open>
  Sending a packet: it is queued behind what is pending, or nothing visible changes when it does not fit.
\<close>

lemma send_packet_inner_sent:
  assumes ok: "crypto_ok cr" "keys_send_ok (ks_enc keys)" "tx_inv out" "tx out \<noteq> TxClosed"
    and e: "send_packet_inner cr p keys out = (Inr (), keys', out')"
  obtains wbuf wbuf' tot where "encrypt cr (length (emitted (enc_packet p))) wbuf keys = (Inr tot, keys', wbuf')"
    "take (length (emitted (enc_packet p))) (drop 5 wbuf) = emitted (enc_packet p)"
    "failure (enc_packet p) = None" "pending out' = pending out @ take tot wbuf'" "tx_inv out'"
    "tot \<le> length wbuf'" "deferred_packets out' = deferred_packets out" "length (out_buf out') = length (out_buf out)"
    "tx out' \<noteq> TxClosed" "tot \<le> length (out_buf out)"
proof -
  obtain tr out1 where t: "track_send_packet p keys out = (tr, out1)" by fastforce
  with track_send_packet_eq [of p keys out] obtain kx where o1: "out1 = out\<lparr>sending_kex := kx\<rparr>" by auto
  obtain idx len where pos: "tx_position (tx out) = Some (idx, len)"
    using ok(4) by (cases "tx out") auto
  have il: "idx \<le> len" "len \<le> length (out_buf out)" "pending out = take (len - idx) (drop idx (out_buf out))"
    using ok(3) pos by (cases "tx out"; simp add: tx_inv_def pending_def)+
  define wb where "wb = drop len (out_buf out)"
  have s: "slice (out_buf out) len (length (out_buf out)) = Some wb"
    using il(2) by (simp add: slice_def wb_def)
  have tr: "tr = Inr ()" using e t by (cases tr) (auto simp: send_packet_inner_def)
  have big: "5 \<le> length wb"
    using e t tr pos s by (auto simp: send_packet_inner_def o1 framing_consts split: if_splits)
  obtain n body where w: "write_ssh (drop 5 wb) (enc_packet p) = Inr (n, body)"
    using e t tr pos s big by (cases "write_ssh (drop 5 wb) (enc_packet p)")
      (auto simp: send_packet_inner_def o1 framing_consts)
  define wb1 where "wb1 = take 5 wb @ body"
  obtain res k2' wb2 where enc: "encrypt cr n wb1 keys = (res, k2', wb2)" by (metis prod_cases3)
  have n: "n = length (emitted (enc_packet p))" "body = emitted (enc_packet p) @ drop n (drop 5 wb)"
    "failure (enc_packet p) = None" "n \<le> length wb - 5"
    using w by (auto simp: write_ssh_eq overwrite_def split: if_splits option.splits)
  obtain tot where tot: "res = Inr tot" "keys' = k2'"
    "out' = out1\<lparr>out_buf := take len (out_buf out) @ wb2, tx := TxWrite idx (len + tot)\<rparr>"
    using e t tr pos s big w enc by (cases res) (auto simp: send_packet_inner_def o1 framing_consts wb1_def)
  have l1: "length wb1 = length wb" using n(2,4) big by (simp add: wb1_def n(1))
  note len2 = encrypt_length [OF enc [unfolded tot(1)] ok(1,2)]
  have "take n (drop 5 wb1) = emitted (enc_packet p)" using big n by (simp add: wb1_def)
  moreover have "pending out' = pending out @ take tot wb2"
    using il len2(1,3) l1 by (simp add: pending_def tot(3) drop_take)
  moreover have "tx_inv out'"
    using ok(3) il len2 l1 by (simp add: tx_inv_def tot(3) o1 wb_def)
  ultimately show ?thesis
    using that [OF enc [unfolded tot(1) n(1), folded tot(2)]] n len2 l1 il(2)
    by (simp add: tot(3) o1 wb_def)
qed


lemma send_packet_inner_NoRoom:
  assumes ok: "crypto_ok cr" "keys_send_ok (ks_enc keys)" "tx_inv out"
    and e: "send_packet_inner cr p keys out = (Inl NoRoom, keys', out')"
  shows "keys' = keys" "pending out' = pending out" "tx out' = tx out" "tx_inv out'"
    "deferred_packets out' = deferred_packets out" "length (out_buf out') = length (out_buf out)"
proof -
  obtain tr out1 where t: "track_send_packet p keys out = (tr, out1)" by fastforce
  with track_send_packet_eq [of p keys out] obtain kx where o1: "out1 = out\<lparr>sending_kex := kx\<rparr>" by auto
  have tr: "tr = Inr ()" using e t by (auto simp: send_packet_inner_def track_send_packet_def split: if_splits)
  obtain idx len where pos: "tx_position (tx out) = Some (idx, len)"
    using e t tr by (cases "tx out") (auto simp: send_packet_inner_def o1)
  have il: "idx \<le> len" "len \<le> length (out_buf out)" "pending out = take (len - idx) (drop idx (out_buf out))"
    using ok(3) pos by (cases "tx out"; simp add: tx_inv_def pending_def)+
  define wb where "wb = drop len (out_buf out)"
  have s: "slice (out_buf out) len (length (out_buf out)) = Some wb"
    using il(2) by (simp add: slice_def wb_def)
  have "keys' = keys \<and> (out' = out1 \<or> (\<exists>wb1. length wb1 = length wb \<and> out' = out1\<lparr>out_buf := take len (out_buf out) @ wb1\<rparr>))"
  proof (cases "5 \<le> length wb")
    case big: True
    show ?thesis
    proof (cases "write_ssh (drop 5 wb) (enc_packet p)")
      case (Inl er)
      with e t tr pos s big show ?thesis by (simp add: send_packet_inner_def o1 framing_consts)
    next
      case (Inr r)
      obtain n body where r: "r = (n, body)" by (cases r)
      define wb1 where "wb1 = take 5 wb @ body"
      obtain res k2' wb2 where enc: "encrypt cr n wb1 keys = (res, k2', wb2)" by (metis prod_cases3)
      have n: "length body = length wb - 5" "n \<le> length wb - 5"
        using Inr r by (auto simp: write_ssh_eq overwrite_def split: if_splits option.splits)
      have res: "res = Inl NoRoom" "keys' = k2'" "out' = out1\<lparr>out_buf := take len (out_buf out) @ wb2\<rparr>"
        using e t tr pos s big Inr r enc
        by (cases res; simp add: send_packet_inner_def o1 framing_consts wb1_def)+
      from encrypt_NoRoom [OF enc [unfolded res(1)] ok(1,2)] n big have "k2' = keys" "wb2 = wb1"
        by (simp_all add: wb1_def)
      moreover have "length wb1 = length wb" using n big by (simp add: wb1_def)
      ultimately show ?thesis using res by blast
    qed
  qed (use e t tr pos s in \<open>simp add: send_packet_inner_def o1 framing_consts\<close>)
  moreover have "pending (out1\<lparr>out_buf := take len (out_buf out) @ w\<rparr>) = pending out" for w
    using il pos by (cases "tx out") (auto simp: pending_def o1 take_append drop_take)
  moreover have "length (take len (out_buf out) @ w) = length (out_buf out)" if "length w = length wb" for w
    using that il(2) by (simp add: wb_def)
  ultimately show "keys' = keys" "pending out' = pending out" "tx out' = tx out" "tx_inv out'"
    "deferred_packets out' = deferred_packets out" "length (out_buf out') = length (out_buf out)"
    using ok(3) by (auto simp: o1 intro!: tx_inv_buf)
qed

lemma emitted_packet_pos: "failure (enc_packet p) = None \<Longrightarrow> 0 < length (emitted (enc_packet p))"
  by (simp add: enc_packet_def enc_simps)

text \<open>A payload within \<open>send_allowed\<close> has room.\<close>

lemma send_allowed_room:
  assumes ok: "crypto_ok cr" "keys_send_ok (ks_enc keys)" "tx_inv out" "failure (enc_packet p) = None"
    and allowed: "length (emitted (enc_packet p)) \<le> traf_out_send_allowed keys out"
  shows "fst (send_packet_inner cr p keys out) \<noteq> Inl NoRoom"
proof
  assume nr: "fst (send_packet_inner cr p keys out) = Inl NoRoom"
  let ?n = "length (emitted (enc_packet p))"
  obtain tr out1 where t: "track_send_packet p keys out = (tr, out1)" by fastforce
  with track_send_packet_eq [of p keys out] obtain kx where o1: "out1 = out\<lparr>sending_kex := kx\<rparr>" by auto
  have tr: "tr = Inr ()" using nr t by (auto simp: send_packet_inner_def track_send_packet_def split: if_splits)
  obtain idx len where pos: "tx_position (tx out) = Some (idx, len)"
    using nr t tr by (cases "tx out") (auto simp: send_packet_inner_def o1)
  have il: "len \<le> length (out_buf out)" using ok(3) pos by (cases "tx out"; simp add: tx_inv_def)
  define wb where "wb = drop len (out_buf out)"
  have s: "slice (out_buf out) len (length (out_buf out)) = Some wb" using il by (simp add: slice_def wb_def)
  have "?n \<le> keys_send_max_enc_payload (ks_enc keys) (length wb)"
    using allowed emitted_packet_pos [OF ok(4)] pos
    by (cases "tx out") (auto simp: traf_out_send_allowed_def max_enc_payload_def wb_def split: if_splits)
  with max_payload_exact [OF emitted_packet_pos [OF ok(4)]]
  have fits: "frame_len (ks_enc keys) ?n + integ_size_out (s_integ (ks_enc keys)) \<le> length wb" by blast
  define wb1 where "wb1 = take 5 wb @ overwrite (drop 5 wb) 0 (emitted (enc_packet p))"
  have w: "write_ssh (drop 5 wb) (enc_packet p) = Inr (?n, overwrite (drop 5 wb) 0 (emitted (enc_packet p)))"
    using fits ok(4) by (simp add: write_ssh_eq)
  have len: "length wb1 = length wb" using fits by (simp add: wb1_def)
  obtain res k2' wb2 where enc: "encrypt cr ?n wb1 keys = (res, k2', wb2)" by (metis prod_cases3)
  have res: "res = Inl NoRoom"
    using nr t tr pos s w enc fits by (cases res) (auto simp: send_packet_inner_def o1 framing_consts wb1_def)
  show False
  proof (cases "getrandom cr (rng_calls keys) (calc_encrypt_pad (ks_enc keys) ?n)")
    case None
    with fits len enc res show False
      by (auto simp: encrypt_def keys_send_encrypt_def framing_consts fill_random_def Let_def split: if_splits)
  next
    case (Some pad)
    from keys_send_encrypt_fits [OF ok(1,2) _ fits [folded len] Some, of "seq_encrypt keys"] fits len enc res
    show False by (auto simp: encrypt_def Let_def split: if_splits)
  qed
qed

subsection \<open>Key exchange is not interleaved\<close>

text \<open>
  From sending \<open>KexInit\<close> to sending \<open>NewKeys\<close>, \<open>send_packet\<close> puts nothing into the output but
  packets of the key exchange: another packet is queued or refused.
\<close>

lemma send_packet_during_kex:
  assumes "sending_kex out" "packet_category p \<noteq> CatKex" "send_packet cr p keys out = (res, keys', out')"
  shows "keys' = keys" "out' = out\<lparr>deferred_packets := deferred_packets out'\<rparr>"
    "(\<exists>dp. deferred_try_from p = Inr dp \<and> deferred_packets out' = dp # deferred_packets out)
      \<or> (deferred_packets out' = deferred_packets out \<and> (\<exists>u. res = Inl (BusySend (message_num p) u)))"
  using assms
  by (cases "deferred_try_from p"; auto simp: send_packet_def Let_def split: if_splits)+

text \<open>Nothing of the later protocol phases leaves in the clear.\<close>

lemma no_cleartext:
  assumes "packet_category p \<in> {CatAuth, CatSess}" "is_send_cleartext keys"
  shows "send_packet_inner cr p keys out = (Inl Bug, keys, out)"
  using assms by (auto simp: send_packet_inner_def track_send_packet_def)

lemma deferred_packet_keeps:
  "deferred_try_from p = Inr d \<Longrightarrow> message_num (packet_from_deferred d) = message_num p"
  by (cases p) auto

subsection \<open>From one end to the other\<close>

text \<open>A receiver that is idle takes exactly the bytes of one packet and has its payload.\<close>

lemma receive_packet:
  assumes cr: "crypto_ok cr" and st: "in_step s r" and enc: "encrypt cr n buf s = (Inr tot, s', buf')"
    and buf: "tot < 2 ^ 32" "tot \<le> length (in_buf ti)" "16 \<le> length (in_buf ti)" and idle: "rx ti = RxIdle"
    and len: "tot \<le> length buf'"
  obtains r' ti' where "\<And>rest. fill_input cr (take tot buf' @ rest) r ti = Inr (tot, r', ti')"
    "payload ti' = Inr (Some (take n (drop 5 buf), seq_decrypt r))" "in_step s' r'" "n \<le> tot"
    "rx ti' = RxInPayload n (seq_decrypt r)" "length (in_buf ti') = length (in_buf ti)"
proof -
  let ?sb = "size_block_dec r" and ?w = "take tot buf'"
  obtain r1 w1 r2 pkt where d: "?sb \<le> tot" "length w1 = ?sb"
    "decrypt_first_block cr (take ?sb buf') r = (Inr tot, r1, w1)"
    "decrypt cr (w1 @ drop ?sb ?w) r1 = (Inr n, r2, pkt)"
    "take n (drop 5 pkt) = take n (drop 5 buf)" "in_step s' r2"
    by (rule encrypt_then_decrypt [OF cr st buf(1) enc])
  note b = size_block_dec_bounds [of r]
  have pk: "length pkt = tot" "5 + n \<le> tot"
    using decrypt_keeps(2) [OF d(4) refl] d(1,2) len by auto
  have sq: "seq_decrypt r1 = seq_decrypt r"
    using d(3) by (auto simp: decrypt_first_block_def split: prod.splits)
  let ?B = "in_buf ti"
  let ?t1 = "ti\<lparr>in_buf := overwrite ?B 0 (take ?sb buf'), rx := RxReadInitial ?sb\<rparr>"
  let ?t2 = "ti\<lparr>in_buf := overwrite ?B 0 w1, rx := RxRead ?sb tot\<rparr>"
  let ?t3 = "ti\<lparr>in_buf := overwrite ?B 0 (w1 @ drop ?sb ?w), rx := RxReadComplete tot\<rparr>"
  let ?t4 = "ti\<lparr>in_buf := overwrite ?B 0 pkt, rx := RxInPayload n (seq_decrypt r)\<rparr>"
  have lsb: "length (take ?sb buf') = ?sb" using d(1) len by simp
  have oo: "overwrite (overwrite ?B 0 x) 0 y = overwrite ?B 0 y" if "length x \<le> length y" "length y \<le> length ?B" for x y
    using that by (simp add: overwrite_def)
  have s1: "fill_length cr ?sb r ?t1 = Inr (r1, ?t2)"
    using d(2,3) lsb b buf d(1) slice_overwrite [of 0 "take ?sb buf'" ?B] oo [of "take ?sb buf'" w1]
    by (simp add: fill_length_def panic_option_def)
  have s2: "fill_decrypt cr r1 ?t3 = Inr (r2, ?t4)"
    using d(2,4) buf len d(1) pk sq slice_overwrite [of 0 "w1 @ drop ?sb ?w" ?B] oo [of "w1 @ drop ?sb ?w" pkt]
    by (simp add: fill_decrypt_def panic_option_def recv_seq_def)
  have fi: "fill_input cr (?w @ rest) r ti = Inr (tot, r2, ?t4)" for rest
  proof -
    have "fill_input cr (?w @ rest) r ti = fill_input cr (?w @ rest) r (ti\<lparr>rx := RxReadInitial 0\<rparr>)"
      using idle len d(1) b by (auto simp: fill_input_def fill_initial_def fill_at_def Let_def)
    then have "fill_input cr (?w @ rest) r ti = and_then (fill_length cr ?sb r ?t1) (\<lambda>(keys, ti).
         and_then (fill_input cr (drop ?sb ?w @ rest) keys ti) (\<lambda>(m, keys, ti). Inr (?sb + m, keys, ti)))"
      using len d(1) b buf by (simp add: fill_input_Initial_full [of _ 0])
    moreover have "fill_input cr (drop ?sb ?w @ rest) r1 ?t2 = Inr (tot - ?sb, r2, ?t4)"
      using s2 d(1,2) len buf overwrite_overwrite [of 0 w1 "drop ?sb ?w" ?B]
      by (subst fill_input_Read_full [of _ ?sb tot]) simp_all
    ultimately show ?thesis using s1 d(1) by simp
  qed
  have "payload ?t4 = Inr (Some (take n (drop 5 buf), seq_decrypt r))"
    using pk buf d(5) by (simp add: payload_def panic_option_def slice_def overwrite_def framing_consts)
  with that [OF fi] d(6) pk buf show ?thesis by simp
qed

lemma packet_delivered:
  assumes cr: "crypto_ok cr" and st: "in_step s r" and out: "tx_inv out" "tx out \<noteq> TxClosed"
    and wf: "wf_packet (ctx\<lparr>seen_unknown := False\<rparr>) p"
    and sent: "send_packet_inner cr p s out = (Inr (), s', out')"
    and idle: "rx ti = RxIdle" "16 \<le> length (in_buf ti)" "length (out_buf out) \<le> length (in_buf ti)"
    and small: "length (out_buf out) < 2 ^ 32"
  shows "\<exists>pkt r' ti' b. pending out' = pending out @ pkt
     \<and> (\<forall>rest. fill_input cr (pkt @ rest) r ti = Inr (length pkt, r', ti'))
     \<and> payload ti' = Inr (Some (b, seq_decrypt r)) \<and> packet_from_bytes b ctx = Inr (received p)
     \<and> in_step s' r' \<and> tx_inv out' \<and> tx out' \<noteq> TxClosed \<and> length (out_buf out') = length (out_buf out)
     \<and> (\<exists>n. rx ti' = RxInPayload n (seq_decrypt r)) \<and> length (in_buf ti') = length (in_buf ti)"
proof -
  have ok: "keys_send_ok (ks_enc s)" using st by (simp add: in_step_def paired_def)
  obtain wb wb' tot where w: "encrypt cr (length (emitted (enc_packet p))) wb s = (Inr tot, s', wb')"
    "take (length (emitted (enc_packet p))) (drop 5 wb) = emitted (enc_packet p)"
    "pending out' = pending out @ take tot wb'" "tx_inv out'" "tot \<le> length wb'" "tot \<le> length (out_buf out)"
    "tx out' \<noteq> TxClosed" "length (out_buf out') = length (out_buf out)"
    by (rule send_packet_inner_sent [OF cr ok out sent])
  have tot: "tot < 2 ^ 32" "tot \<le> length (in_buf ti)" using w(6) idle(3) small by simp_all
  obtain r' ti' where r: "\<And>rest. fill_input cr (take tot wb' @ rest) r ti = Inr (tot, r', ti')"
    "payload ti' = Inr (Some (emitted (enc_packet p), seq_decrypt r))" "in_step s' r'"
    "rx ti' = RxInPayload (length (emitted (enc_packet p))) (seq_decrypt r)"
    "length (in_buf ti') = length (in_buf ti)"
    by (rule receive_packet [OF cr st w(1) tot idle(2,1) w(5)]) (simp add: w(2))
  then show ?thesis
    using packet_sent [OF wf] w by (intro exI [of _ "take tot wb'"]) auto
qed


text \<open>A run of packets queued for sending, and the packets a receiver takes from a stream.\<close>

inductive sends :: "crypto \<Rightarrow> key_state \<Rightarrow> traf_out \<Rightarrow> packet list \<Rightarrow> key_state \<Rightarrow> traf_out \<Rightarrow> bool" for cr where
  sends_none: "sends cr s out [] s out"
| sends_one: "send_packet_inner cr p s out = (Inr (), s1, out1) \<Longrightarrow> sends cr s1 out1 ps s2 out2 \<Longrightarrow>
    sends cr s out (p # ps) s2 out2"

inductive receives ::
  "crypto \<Rightarrow> parse_context \<Rightarrow> key_state \<Rightarrow> traf_in \<Rightarrow> bytes \<Rightarrow> packet list \<Rightarrow> key_state \<Rightarrow> traf_in \<Rightarrow> bool" for cr ctx where
  receives_none: "receives cr ctx r ti [] [] r ti"
| receives_one: "fill_input cr (w @ rest) r ti = Inr (length w, r1, ti1) \<Longrightarrow> payload ti1 = Inr (Some (b, sq)) \<Longrightarrow>
    packet_from_bytes b ctx = Inr p \<Longrightarrow> receives cr ctx r1 (done_payload ti1) rest ps r2 ti2 \<Longrightarrow>
    receives cr ctx r ti (w @ rest) (p # ps) r2 ti2"

lemma stream_delivered:
  assumes "sends cr s out ps s' out'" "crypto_ok cr" "in_step s r" "tx_inv out" "tx out \<noteq> TxClosed"
    and "\<forall>p \<in> set ps. wf_packet (ctx\<lparr>seen_unknown := False\<rparr>) p"
    and "rx ti = RxIdle" "16 \<le> length (in_buf ti)" "length (out_buf out) \<le> length (in_buf ti)"
    and "length (out_buf out) < 2 ^ 32"
  shows "\<exists>w r' ti'. pending out' = pending out @ w \<and> receives cr ctx r ti w (map received ps) r' ti' \<and> in_step s' r'"
  using assms
proof (induction arbitrary: r ti rule: sends.induct)
  case (sends_none s out)
  then show ?case by (auto intro: receives_none)
next
  case (sends_one p s out s1 out1 ps s2 out2)
  have wf: "wf_packet (ctx\<lparr>seen_unknown := False\<rparr>) p" using sends_one.prems(5) by simp
  from packet_delivered [OF sends_one.prems(1-4) wf sends_one.hyps(1) sends_one.prems(6-9)]
  obtain pkt r1 ti1 b n where p1: "pending out1 = pending out @ pkt" "in_step s1 r1" "tx_inv out1"
    "tx out1 \<noteq> TxClosed" "length (out_buf out1) = length (out_buf out)"
    "length (in_buf ti1) = length (in_buf ti)" "rx ti1 = RxInPayload n (seq_decrypt r)"
    "\<And>rest. fill_input cr (pkt @ rest) r ti = Inr (length pkt, r1, ti1)"
    "payload ti1 = Inr (Some (b, seq_decrypt r))" "packet_from_bytes b ctx = Inr (received p)"
    by blast
  have "rx (done_payload ti1) = RxIdle" "length (in_buf (done_payload ti1)) = length (in_buf ti)"
    using p1(6,7) by (auto simp: done_payload_def)
  from sends_one.IH [OF sends_one.prems(1) p1(2-4) _ this(1)] p1(5) this(2) sends_one.prems obtain w r2 ti2 where
    w: "pending out2 = pending out1 @ w" "receives cr ctx r1 (done_payload ti1) w (map received ps) r2 ti2" "in_step s2 r2"
    by auto
  from receives_one [OF p1(8-10) w(2)] w(1,3) p1(1) show ?case by auto
qed

end
