(* ===== verification/SSH_Send_Correct.thy ===== *)
theory SSH_Send_Correct
  imports SSH_Traffic_Correct
begin

section \<open>The sender, for the components that use it\<close>

text \<open>
  The invariant of \<open>TrafSend\<close> (\<open>ts_inv\<close>) holds after every attempt to send, whatever its outcome, and no
  attempt panics: the components above send packets without looking at the output buffer.
\<close>

lemma encrypt_outcome:
  assumes ok: "crypto_ok cr" "keys_send_ok (ks_enc keys)" "5 + n \<le> length buf"
    and e: "encrypt cr n buf keys = (r, keys', buf')"
  shows "length buf' = length buf \<and> keys_send_ok (ks_enc keys') \<and> r \<noteq> Inl Panic"
proof (cases "frame_len (ks_enc keys) n + integ_size_out (s_integ (ks_enc keys)) \<le> length buf")
  case fits: True
  show ?thesis
  proof (cases "getrandom cr (rng_calls keys) (calc_encrypt_pad (ks_enc keys) n)")
    case None
    with fits e ok show ?thesis
      by (auto simp: encrypt_def keys_send_encrypt_def framing_consts fill_random_def Let_def overwrite_def)
  next
    case (Some pad)
    from keys_send_encrypt_fits [OF ok fits Some, of "seq_encrypt keys"]
    obtain tot k' b where
      k: "keys_send_encrypt cr n buf (seq_encrypt keys) (rng_calls keys) (ks_enc keys) =
        (Inr tot, (ks_enc keys)\<lparr>s_cipher := k'\<rparr>, rng_calls keys + 1, b)"
      "keys_ok k' (s_integ (ks_enc keys))"
      by blast
    then have "r = Inr tot" using e by (simp add: encrypt_def Let_def)
    with e encrypt_length [of cr n buf keys tot keys' buf'] ok show ?thesis by simp
  qed
next
  case False
  then show ?thesis
    using e ok by (auto simp: encrypt_def keys_send_encrypt_NoRoom Let_def)
qed

lemma send_packet_inner_outcome:
  assumes ok: "crypto_ok cr" "keys_send_ok (ks_enc keys)" "tx_inv out"
    and e: "send_packet_inner cr p keys out = (r, keys', out')"
  shows "tx_inv out' \<and> keys_send_ok (ks_enc keys') \<and> r \<noteq> Inl Panic
    \<and> deferred_packets out' = deferred_packets out \<and> length (out_buf out') = length (out_buf out)"
proof -
  obtain tr out1 where t: "track_send_packet p keys out = (tr, out1)" by fastforce
  with track_send_packet_eq [of p keys out] obtain kx where o1: "out1 = out\<lparr>sending_kex := kx\<rparr>" by auto
  have trb: "tr = Inr () \<or> tr = Inl Bug" using t by (auto simp: track_send_packet_def split: if_splits)
  show ?thesis
  proof (cases "tr = Inr () \<and> tx out \<noteq> TxClosed")
    case False
    then show ?thesis using e t trb ok o1 by (auto simp: send_packet_inner_def)
  next
    case True
    then have tr: "tr = Inr ()" by simp
    obtain idx len where pos: "tx_position (tx out) = Some (idx, len)"
      using True by (cases "tx out") auto
    have il: "idx \<le> len" "len \<le> length (out_buf out)"
      using ok(3) pos by (cases "tx out"; simp add: tx_inv_def)+
    define wb where "wb = drop len (out_buf out)"
    have s: "slice (out_buf out) len (length (out_buf out)) = Some wb"
      using il(2) by (simp add: slice_def wb_def)
    show ?thesis
    proof (cases "5 \<le> length wb \<and> (\<exists>q. write_ssh (drop 5 wb) (enc_packet p) = Inr q)")
      case False
      then show ?thesis
        using e t tr pos s ok o1
        by (auto simp: send_packet_inner_def framing_consts write_ssh_eq split: if_splits option.splits)
    next
      case big: True
      then obtain n body where w: "write_ssh (drop 5 wb) (enc_packet p) = Inr (n, body)" by auto
      define wb1 where "wb1 = take 5 wb @ body"
      obtain res k2' wb2 where enc: "encrypt cr n wb1 keys = (res, k2', wb2)" by (metis prod_cases3)
      have n: "length wb1 = length wb" "5 + n \<le> length wb1"
        using w big by (auto simp: wb1_def write_ssh_eq overwrite_def split: if_splits option.splits)
      note eo = encrypt_outcome [OF ok(1,2) n(2) enc]
      have lb: "length (take len (out_buf out) @ wb2) = length (out_buf out)"
        using eo n(1) il(2) by (simp add: wb_def)
      show ?thesis
      proof (cases res)
        case (Inl er)
        then have "out' = out1\<lparr>out_buf := take len (out_buf out) @ wb2\<rparr>" "r = Inl er" "keys' = k2'"
          using e t tr pos s big w enc o1 by (auto simp: send_packet_inner_def framing_consts wb1_def)
        then show ?thesis
          using Inl eo lb ok(3) o1 tx_inv_buf [of out1 "take len (out_buf out) @ wb2"] by simp
      next
        case (Inr tot)
        note len = encrypt_length [OF enc [unfolded Inr] ok(1,2)]
        have "out' = out1\<lparr>out_buf := take len (out_buf out) @ wb2, tx := TxWrite idx (len + tot)\<rparr>" "r = Inr ()"
          "keys' = k2'"
          using e t tr pos s big w enc Inr o1 by (auto simp: send_packet_inner_def framing_consts wb1_def)
        then show ?thesis
          using eo lb len il n(1) ok(3) o1 by (simp add: tx_inv_def wb_def)
      qed
    qed
  qed
qed

lemma send_packet_outcome:
  assumes ok: "crypto_ok cr" "keys_send_ok (ks_enc keys)" "tx_inv out"
    and e: "send_packet cr p keys out = (r, keys', out')"
  shows "tx_inv out' \<and> keys_send_ok (ks_enc keys') \<and> r \<notin> {Inl Panic, Inl NoRoom}"
proof -
  define defer_p where "defer_p = (\<lambda>(keys :: key_state) (out :: traf_out). case deferred_try_from p of
      Inl _ \<Rightarrow> (Inl (BusySend (message_num p) True), keys, out)
    | Inr dp \<Rightarrow> if length (deferred_packets out) < DEFER_COUNT
                then (Inr (), keys, out\<lparr>deferred_packets := dp # deferred_packets out\<rparr>)
                else (Inl (BusySend (message_num p) False), keys, out))"
  have d: "tx_inv o' \<and> k' = k \<and> q \<notin> {Inl Panic, Inl NoRoom}"
    if "tx_inv o1" "defer_p k o1 = (q, k', o')" for q k k' o1 o'
    using that by (auto simp: defer_p_def tx_inv_def split: sum.splits if_splits tx_state.splits)
  show ?thesis
  proof (cases "packet_category p = CatKex \<or> (deferred_packets out = [] \<and> \<not> sending_kex out)")
    case True
    obtain r1 k1' o1 where i: "send_packet_inner cr p keys out = (r1, k1', o1)" by (metis prod_cases3)
    note io = send_packet_inner_outcome [OF ok i]
    show ?thesis
    proof (cases "r1 = Inl NoRoom")
      case nr: True
      then have "defer_p k1' o1 = (r, keys', out')" using e True i by (simp add: send_packet_def defer_p_def Let_def)
      from d [OF _ this] io show ?thesis by simp
    next
      case False
      then have "(r, keys', out') = (r1, k1', o1)"
        using e True i by (simp add: send_packet_def Let_def split: sum.splits ssh_error.splits)
      with io False show ?thesis by simp
    qed
  next
    case False
    then have "defer_p keys out = (r, keys', out')" using e by (auto simp: send_packet_def defer_p_def Let_def)
    from d [OF ok(3) this] ok show ?thesis by simp
  qed
qed

definition ts_inv :: "traf_send \<Rightarrow> bool" where
  "ts_inv ts \<longleftrightarrow> tx_inv (ts_out ts) \<and> keys_send_ok (ks_enc (ts_keys ts))"

lemma ts_send_outcome:
  assumes "ts_send cr p ts = (r, ts')" "crypto_ok cr" "ts_inv ts"
  shows "ts_inv ts'" "r \<noteq> Inl Panic" "r \<noteq> Inl NoRoom"
proof -
  obtain r1 k o1 where s: "send_packet cr p (ts_keys ts) (ts_out ts) = (r1, k, o1)" by (metis prod_cases3)
  from send_packet_outcome [OF assms(2) _ _ s] assms s
  show "ts_inv ts'" "r \<noteq> Inl Panic" "r \<noteq> Inl NoRoom" by (auto simp: ts_inv_def ts_send_def)
qed

text \<open>What a successful send does to the flags of the output.\<close>

definition sending_after :: "packet \<Rightarrow> bool \<Rightarrow> bool" where
  "sending_after p b = (case p of KexInit _ \<Rightarrow> True | NewKeys \<Rightarrow> False | _ \<Rightarrow> b)"

lemma track_send_packet_after:
  "track_send_packet p keys out =
     (if packet_category p \<notin> {CatAll, CatKex} \<and> is_send_cleartext keys then (Inl Bug, out)
      else (Inr (), out\<lparr>sending_kex := sending_after p (sending_kex out)\<rparr>))"
  by (cases p) (simp_all add: track_send_packet_def sending_after_def)

definition same_recv :: "key_state \<Rightarrow> key_state \<Rightarrow> bool" where
  "same_recv k k' \<longleftrightarrow> strict_kex k' = strict_kex k \<and> ks_dec k' = ks_dec k \<and> seq_decrypt k' = seq_decrypt k"

lemma encrypt_same_recv: "encrypt cr n buf k = (res, k', buf') \<Longrightarrow> same_recv k k'"
  by (auto simp: encrypt_def Let_def same_recv_def split: prod.splits if_splits)

lemma send_packet_inner_flags:
  assumes "send_packet_inner cr p keys out = (r, keys', out')"
  shows "drain out' = drain out" "same_recv keys keys'"
    "sending_kex out' = sending_after p (sending_kex out) \<or> r \<noteq> Inr () \<and> sending_kex out' = sending_kex out"
proof -
  obtain tr out1 where t: "track_send_packet p keys out = (tr, out1)" by fastforce
  have t1: "drain out1 = drain out"
    "sending_kex out1 = sending_after p (sending_kex out) \<or> tr \<noteq> Inr () \<and> sending_kex out1 = sending_kex out"
    using t by (auto simp: track_send_packet_after split: if_splits)
  have g: "sending_kex out' = sending_kex out1 \<and> drain out' = drain out1 \<and> (r = Inr () \<longrightarrow> tr = Inr ()) \<and> same_recv keys keys'"
  proof (cases tr)
    case (Inl e)
    then show ?thesis using assms t by (auto simp: send_packet_inner_def same_recv_def)
  next
    case (Inr u)
    have refl: "same_recv keys keys" by (simp add: same_recv_def)
    show ?thesis
      using assms t Inr refl encrypt_same_recv
      by (auto simp: send_packet_inner_def Let_def split: option.splits prod.splits if_splits sum.splits)
  qed
  show "drain out' = drain out" "same_recv keys keys'"
    "sending_kex out' = sending_after p (sending_kex out) \<or> r \<noteq> Inr () \<and> sending_kex out' = sending_kex out"
    using t1 g by auto
qed

lemma send_packet_cases:
  assumes "send_packet cr p keys out = (r, keys', out')"
  obtains (sent) "send_packet_inner cr p keys out = (r, keys', out')" "r \<noteq> Inl NoRoom"
  | (full) out1 dp where "send_packet_inner cr p keys out = (Inl NoRoom, keys', out1)" "deferred_try_from p = Inr dp"
      "r = Inr ()" "out' = out1\<lparr>deferred_packets := dp # deferred_packets out1\<rparr>"
  | (busy) b where "send_packet_inner cr p keys out = (Inl NoRoom, keys', out')" "r = Inl (BusySend (message_num p) b)"
  | (deferred) dp where "deferred_try_from p = Inr dp" "packet_category p \<noteq> CatKex" "r = Inr ()" "keys' = keys"
      "out' = out\<lparr>deferred_packets := dp # deferred_packets out\<rparr>"
  | (refused) b where "packet_category p \<noteq> CatKex" "r = Inl (BusySend (message_num p) b)" "keys' = keys" "out' = out"
proof (cases "packet_category p = CatKex \<or> (deferred_packets out = [] \<and> \<not> sending_kex out)")
  case True
  obtain r1 k1' o1 where i: "send_packet_inner cr p keys out = (r1, k1', o1)" by (metis prod_cases3)
  show ?thesis
  proof (cases "r1 = Inl NoRoom")
    case nr: True
    with True i assms show ?thesis
      using full busy by (auto simp: send_packet_def Let_def split: sum.splits if_splits)
  next
    case False
    then have "(r, keys', out') = (r1, k1', o1)"
      using assms True i by (simp add: send_packet_def Let_def split: sum.splits ssh_error.splits)
    with i False sent show ?thesis by simp
  qed
next
  case False
  with assms show ?thesis
    using deferred refused by (auto simp: send_packet_def Let_def split: sum.splits if_splits)
qed

lemma deferred_sending_after: "deferred_try_from p = Inr dp \<Longrightarrow> sending_after p b = b"
  by (cases p) (auto simp: sending_after_def)

lemma ts_send_flags:
  assumes "ts_send cr p ts = (r, ts')"
  shows "drain (ts_out ts') = drain (ts_out ts)" "same_recv (ts_keys ts) (ts_keys ts')"
    "r = Inr () \<Longrightarrow> sending_kex (ts_out ts') = sending_after p (sending_kex (ts_out ts))"
proof -
  obtain r1 k o1 where s: "send_packet cr p (ts_keys ts) (ts_out ts) = (r1, k, o1)" by (metis prod_cases3)
  have "drain o1 = drain (ts_out ts) \<and> same_recv (ts_keys ts) k
    \<and> (r1 = Inr () \<longrightarrow> sending_kex o1 = sending_after p (sending_kex (ts_out ts)))"
    using s
  proof (cases rule: send_packet_cases)
    case sent
    from send_packet_inner_flags [OF sent(1)] show ?thesis by auto
  next
    case (full out1 dp)
    from send_packet_inner_flags [OF full(1)] full show ?thesis by (auto simp: deferred_sending_after)
  next
    case (busy b)
    from send_packet_inner_flags [OF busy(1)] busy show ?thesis by auto
  qed (auto simp: same_recv_def deferred_sending_after)
  with assms s show "drain (ts_out ts') = drain (ts_out ts)" "same_recv (ts_keys ts) (ts_keys ts')"
    "r = Inr () \<Longrightarrow> sending_kex (ts_out ts') = sending_after p (sending_kex (ts_out ts))"
    by (auto simp: ts_send_def)
qed

subsection \<open>Operations built from sends\<close>

text \<open>\<open>safe I m\<close>: the operation \<open>m\<close> keeps the invariant \<open>I\<close>, whatever its outcome, and does not panic.\<close>

definition safe :: "('s \<Rightarrow> bool) \<Rightarrow> ('s \<Rightarrow> 'a ssh_result \<times> 's) \<Rightarrow> bool" where
  "safe I m \<longleftrightarrow> (\<forall>s r s'. I s \<longrightarrow> m s = (r, s') \<longrightarrow> I s' \<and> r \<noteq> Inl Panic)"

named_theorems safe_intros

lemma safeD: "safe I m \<Longrightarrow> I s \<Longrightarrow> m s = (r, s') \<Longrightarrow> I s' \<and> r \<noteq> Inl Panic"
  by (simp add: safe_def)

lemma safe_lift [safe_intros]: "r \<noteq> Inl Panic \<Longrightarrow> safe I (st_lift r)"
  by (simp add: safe_def st_lift_def)

lemma safe_bind_strong:
  assumes "safe I m" "\<And>a s s'. I s \<Longrightarrow> m s = (Inr a, s') \<Longrightarrow> safe I (f a)"
  shows "safe I (st_bind m f)"
  unfolding safe_def
proof (intro allI impI)
  fix s r s''
  assume i: "I s" and b: "st_bind m f s = (r, s'')"
  from b show "I s'' \<and> r \<noteq> Inl Panic"
  proof (cases rule: st_bind_cases)
    case (err e)
    with assms(1) i show ?thesis by (auto dest: safeD)
  next
    case (ok a s')
    then show ?thesis using safeD [OF assms(1) i ok(1)] assms(2) [OF i ok(1)] by (auto dest: safeD)
  qed
qed

lemma safe_bind [safe_intros]: "safe I m \<Longrightarrow> (\<And>a. safe I (f a)) \<Longrightarrow> safe I (st_bind m f)"
  by (rule safe_bind_strong)

lemma safe_if [safe_intros]: "(b \<Longrightarrow> safe I m) \<Longrightarrow> (\<not> b \<Longrightarrow> safe I m') \<Longrightarrow> safe I (if b then m else m')"
  by simp

lemma safe_case_prod [safe_intros]: "(\<And>a b. safe I (f a b)) \<Longrightarrow> safe I (case p of (a, b) \<Rightarrow> f a b)"
  by (cases p) simp

lemma safe_send [safe_intros]: "crypto_ok cr \<Longrightarrow> safe ts_inv (ts_send cr p)"
  using ts_send_outcome by (auto simp: safe_def)

lemma safe_fill_random [safe_intros]: "safe ts_inv (ts_fill_random cr n)"
  by (auto simp: safe_def ts_fill_random_def ts_inv_def fill_random_def ok_or_Inl_eq)

lemma ts_inv_updates:
  "ts_inv ts \<Longrightarrow> ts_inv (ts_set_drain_output d ts)" "ts_inv ts \<Longrightarrow> ts_inv (ts_enable_strict_kex ts)"
  "ts_inv ts \<Longrightarrow> ts_inv (ts_rekey_recv kr ts)" "ts_inv ts \<Longrightarrow> keys_send_ok ks \<Longrightarrow> ts_inv (ts_rekey_send ks ts)"
  by (cases "tx (ts_out ts)"; simp add: ts_inv_def ts_set_drain_output_def set_drain_output_def ts_enable_strict_kex_def
      enable_strict_kex_def ts_rekey_recv_def rekey_recv_def ts_rekey_send_def rekey_send_def tx_inv_def)+

subsection \<open>The interface for components that send\<close>

text \<open>
  Authentication, channels and requests send plain packets: anything but \<open>KexInit\<close> and \<open>NewKeys\<close>, which
  start and end a key exchange. They rely on one law of the sender: such a send keeps what the key exchange
  knows about the output, whatever its outcome, and does not panic.
\<close>

definition plain :: "packet \<Rightarrow> bool" where
  "plain p = (case p of KexInit _ \<Rightarrow> False | NewKeys \<Rightarrow> False | _ \<Rightarrow> True)"

lemma plain_sending_after: "plain p \<Longrightarrow> sending_after p b = b"
  by (cases p) (simp_all add: plain_def sending_after_def)

locale plain_sender =
  fixes cr :: crypto and I :: "traf_send \<Rightarrow> bool"
  assumes send: "plain p \<Longrightarrow> I ts \<Longrightarrow> ts_send cr p ts = (r, ts') \<Longrightarrow> I ts' \<and> r \<noteq> Inl Panic"
begin

lemma safe_plain: "plain p \<Longrightarrow> safe I (ts_send cr p)"
  using send by (auto simp: safe_def)

end

text \<open>What a plain send keeps of a sender \<open>ts0\<close>: the flags of the output and everything about receiving.\<close>

definition calm :: "crypto \<Rightarrow> traf_send \<Rightarrow> traf_send \<Rightarrow> bool" where
  "calm cr ts0 ts \<longleftrightarrow> crypto_ok cr \<and> ts_inv ts \<and> drain (ts_out ts) = drain (ts_out ts0)
     \<and> sending_kex (ts_out ts) = sending_kex (ts_out ts0) \<and> same_recv (ts_keys ts0) (ts_keys ts)"

lemma same_recv_refl [simp]: "same_recv k k"
  by (simp add: same_recv_def)

lemma same_recv_trans: "same_recv a b \<Longrightarrow> same_recv b c \<Longrightarrow> same_recv a c"
  by (simp add: same_recv_def)

lemma calm_refl: "crypto_ok cr \<Longrightarrow> ts_inv ts \<Longrightarrow> calm cr ts ts"
  by (simp add: calm_def)

lemma ts_send_plain_flags:
  assumes "ts_send cr p ts = (r, ts')" "plain p"
  shows "sending_kex (ts_out ts') = sending_kex (ts_out ts)"
proof -
  obtain r1 k o1 where s: "send_packet cr p (ts_keys ts) (ts_out ts) = (r1, k, o1)" by (metis prod_cases3)
  have "sending_kex o1 = sending_kex (ts_out ts)"
    using s
  proof (cases rule: send_packet_cases)
    case sent
    from send_packet_inner_flags(3) [OF sent(1)] show ?thesis by (auto simp: plain_sending_after [OF assms(2)])
  next
    case (full out1 dp)
    from send_packet_inner_flags(3) [OF full(1)] full show ?thesis by (auto simp: plain_sending_after [OF assms(2)])
  next
    case (busy b)
    from send_packet_inner_flags(3) [OF busy(1)] show ?thesis by (auto simp: plain_sending_after [OF assms(2)])
  qed simp_all
  with assms(1) s show ?thesis by (auto simp: ts_send_def)
qed

interpretation calm: plain_sender cr "calm cr ts0" for cr ts0
proof
  fix p ts r ts'
  assume "plain p" "calm cr ts0 ts" "ts_send cr p ts = (r, ts')"
  then show "calm cr ts0 ts' \<and> r \<noteq> Inl Panic"
    using ts_send_outcome(1,2) ts_send_flags(1) ts_send_flags(2) ts_send_plain_flags same_recv_trans
    unfolding calm_def by metis
qed

end
