(* ===== verification/SSH_Channel_Correct.thy ===== *)
theory SSH_Channel_Correct
  imports SSH_Channel SSH_Send_Correct
begin

section \<open>Correctness of channels\<close>

text \<open>
  The invariant of the channel table (\<open>chans_inv\<close>) holds initially and every operation keeps it:
  a channel sits in the slot of its number, its sending side is known exactly when it is past opening, and
  the windows stay in range. From it follow the absence of panics, the flow control bound on sent data,
  and which operations can free a slot.
\<close>

subsection \<open>The invariant\<close>

definition chan_ok :: "channel \<Rightarrow> bool" where
  "chan_ok ch \<longleftrightarrow>
     (ch_send ch = None \<longleftrightarrow> ch_state ch \<in> {Opening, PendingDone})
     \<and> (sent_eof ch \<or> sent_close ch \<longrightarrow> ch_send ch \<noteq> None)
     \<and> (app_done ch \<longrightarrow> ch_state ch \<notin> {InOpen, Opening})
     \<and> full_window ch = DEFAULT_WINDOW
     \<and> cd_window (ch_recv ch) = DEFAULT_WINDOW \<and> cd_max_packet (ch_recv ch) = DEFAULT_MAX_PACKET
     \<and> pending_adjust ch \<le> usize_max
     \<and> (\<forall>d. ch_send ch = Some d \<longrightarrow> cd_window d \<le> usize_max \<and> cd_max_packet d \<le> u32_max)"

definition chans_inv :: "channels \<Rightarrow> bool" where
  "chans_inv cs \<longleftrightarrow> length (chs cs) = MAX_CHANNELS
     \<and> (\<forall>i < MAX_CHANNELS. \<forall>ch. chs cs ! i = Some ch \<longrightarrow> unat (channel_num ch) = i \<and> chan_ok ch)"

lemma unat_u32_le [simp]: "unat (w :: u32) \<le> usize_max" "unat (w :: u32) \<le> u32_max"
  using unat_u32_less [of w] unfolding usize_max_def u32_max_def by (linarith | simp)+

lemma nth_list_update_if: "j < length xs \<Longrightarrow> xs[i := x] ! j = (if i = j then x else xs ! j)"
  by (cases "i < length xs") auto

lemma unat_u32_eq_iff: "unat (a :: u32) = unat b \<longleftrightarrow> a = b"
  by (metis unsigned_word_eqI)

lemma chans_inv_new: "chans_inv (channels_new c)"
  by (simp add: chans_inv_def channels_new_def)

lemma get_any_Inr: "get_any num cs = Inr ch \<longleftrightarrow> unat num < length (chs cs) \<and> chs cs ! unat num = Some ch"
  by (simp add: get_any_def)

lemma get_any_Inl: "get_any num cs = Inl e \<Longrightarrow> e = BadChannel num"
  by (auto simp: get_any_def split: if_splits)

lemma get_chan_Inr:
  "get_chan num cs = Inr ch \<longleftrightarrow> get_any num cs = Inr ch \<and> ch_state ch \<notin> {InOpen, Opening}"
  by (auto simp: get_chan_def and_then_Inr_eq split: if_splits)

lemma get_chan_Inl: "get_chan num cs = Inl e \<Longrightarrow> e = BadChannel num"
  by (auto simp: get_chan_def and_then_Inl_eq dest: get_any_Inl split: if_splits)

lemma chans_inv_get:
  assumes "chans_inv cs" "get_any num cs = Inr ch"
  shows "chan_ok ch" "channel_num ch = num" "unat num < MAX_CHANNELS"
  using assms by (auto simp: chans_inv_def get_any_Inr simp flip: unat_u32_eq_iff)

lemma chans_inv_put:
  assumes "chans_inv cs" "chan_ok ch" "channel_num ch = num"
  shows "chans_inv (put_chan num (Some ch) cs)"
  using assms by (auto simp: chans_inv_def put_chan_def nth_list_update_if split: if_splits)

lemma chans_inv_put_None: "chans_inv cs \<Longrightarrow> chans_inv (put_chan num None cs)"
  by (auto simp: chans_inv_def put_chan_def nth_list_update_if split: if_splits)

lemma get_any_put:
  "unat num < length (chs cs) \<Longrightarrow>
     get_any num' (put_chan num (Some ch) cs) = (if num' = num then Inr ch else get_any num' cs)"
  by (auto simp: get_any_def put_chan_def nth_list_update_if unat_u32_eq_iff)

subsection \<open>Slots\<close>

lemma find_Some_iff_first:
  "List.find P [0..<n] = Some i \<longleftrightarrow> i < n \<and> P i \<and> (\<forall>j < i. \<not> P j)"
  by (auto simp: find_Some_iff)

lemma unused_chan_Inr:
  assumes "unused_chan cs = Inr num" "length (chs cs) = MAX_CHANNELS"
  shows "unat num < MAX_CHANNELS" "chs cs ! unat num = None" "\<forall>j < unat num. chs cs ! j \<noteq> None"
proof -
  from assms(1) obtain i where i: "i < length (chs cs)" "chs cs ! i = None" "\<forall>j < i. chs cs ! j \<noteq> None"
    "num = word_of_nat i"
    by (auto simp: unused_chan_def find_Some_iff_first)
  then have "unat num = i"
    using assms(2) by (simp add: MAX_CHANNELS_def unat_of_nat_u32)
  with i assms(2) show "unat num < MAX_CHANNELS" "chs cs ! unat num = None" "\<forall>j < unat num. chs cs ! j \<noteq> None"
    by simp_all
qed

lemma unused_chan_Inl: "unused_chan cs = Inl e \<longleftrightarrow> e = NoChannels \<and> None \<notin> set (chs cs)"
  by (auto simp: unused_chan_def find_None_iff in_set_conv_nth)

lemma channel_new_num [simp]: "channel_num (channel_new num ty) = num"
  by (simp add: channel_num_def channel_new_def)

lemma channel_num_upd [simp]:
  "channel_num (ch\<lparr>ch_state := a\<rparr>) = channel_num ch" "channel_num (ch\<lparr>sent_eof := b\<rparr>) = channel_num ch"
  "channel_num (ch\<lparr>sent_close := b\<rparr>) = channel_num ch" "channel_num (ch\<lparr>ch_send := s\<rparr>) = channel_num ch"
  "channel_num (ch\<lparr>pending_adjust := n\<rparr>) = channel_num ch" "channel_num (ch\<lparr>open_confirmed := b\<rparr>) = channel_num ch"
  "channel_num (ch\<lparr>app_done := b\<rparr>) = channel_num ch"
  by (simp_all add: channel_num_def)

lemma channel_new_ok: "chan_ok (channel_new num ty)"
  by (simp add: chan_ok_def channel_new_def usize_max_def)

lemma channels_open_inv:
  assumes "chans_inv cs" "channels_open ty cs = (r, cs')"
  shows "chans_inv cs'"
proof (cases "unused_chan cs")
  case (Inr num)
  then have "cs' = cs \<or> (\<exists>cty. cs' = put_chan num (Some (channel_new num cty)) cs)"
    using assms(2) by (cases "chan_type_from ty") (auto simp: channels_open_def Let_def)
  then show ?thesis
    using assms(1) channel_new_ok chans_inv_put by auto
qed (use assms in \<open>auto simp: channels_open_def\<close>)

lemma reserve_chan_inv:
  assumes "chans_inv cs" "reserve_chan a b c ty cs = (r, cs')"
  shows "chans_inv cs'"
proof (cases "unused_chan cs")
  case (Inr num)
  show ?thesis
  proof (cases "chan_type_from ty")
    case cty: (Inr cty)
    have "cs' = put_chan num (Some ((channel_new num cty)\<lparr>ch_send :=
        Some \<lparr>cd_num = a, cd_max_packet = unat c, cd_window = unat b\<rparr>, ch_state := InOpen\<rparr>)) cs"
      using assms(2) Inr cty by (simp add: reserve_chan_def Let_def)
    then show ?thesis
      using assms(1) by (auto intro!: chans_inv_put simp: chan_ok_def channel_new_def channel_num_def)
  qed (use assms Inr in \<open>auto simp: reserve_chan_def\<close>)
qed (use assms in \<open>auto simp: reserve_chan_def\<close>)

subsection \<open>One channel\<close>

text \<open>The wakers and the log have no part in the invariant.\<close>

lemma log_woken_simps [simp]:
  "ch_ty (log_woken ws ch) = ch_ty ch" "ch_state (log_woken ws ch) = ch_state ch"
  "sent_eof (log_woken ws ch) = sent_eof ch" "sent_close (log_woken ws ch) = sent_close ch"
  "ch_recv (log_woken ws ch) = ch_recv ch" "ch_send (log_woken ws ch) = ch_send ch"
  "pending_adjust (log_woken ws ch) = pending_adjust ch" "full_window (log_woken ws ch) = full_window ch"
  "open_confirmed (log_woken ws ch) = open_confirmed ch" "app_done (log_woken ws ch) = app_done ch"
  by (simp_all add: log_woken_def)

lemma wake_waker_simps [simp]:
  "chan_ok (wake_read_waker ch) = chan_ok ch" "channel_num (wake_read_waker ch) = channel_num ch"
  "chan_ok (wake_write_waker ch) = chan_ok ch" "channel_num (wake_write_waker ch) = channel_num ch"
  "chan_ok (wake_ext_waker ch) = chan_ok ch" "channel_num (wake_ext_waker ch) = channel_num ch"
  "ch_send (wake_read_waker ch) = ch_send ch" "sent_eof (wake_read_waker ch) = sent_eof ch"
  "sent_close (wake_read_waker ch) = sent_close ch" "ch_state (wake_read_waker ch) = ch_state ch"
  "ch_send (wake_write_waker ch) = ch_send ch" "sent_eof (wake_write_waker ch) = sent_eof ch"
  "sent_close (wake_write_waker ch) = sent_close ch" "ch_state (wake_write_waker ch) = ch_state ch"
  "ch_send (wake_ext_waker ch) = ch_send ch" "sent_eof (wake_ext_waker ch) = sent_eof ch"
  "sent_close (wake_ext_waker ch) = sent_close ch" "ch_state (wake_ext_waker ch) = ch_state ch"
  by (simp_all add: wake_read_waker_def wake_write_waker_def wake_ext_waker_def chan_ok_def channel_num_def)

lemma wake_simps [simp]:
  "chan_ok (wake_read dt c ch) = chan_ok ch" "channel_num (wake_read dt c ch) = channel_num ch"
  "ch_send (wake_read dt c ch) = ch_send ch" "sent_eof (wake_read dt c ch) = sent_eof ch"
  "sent_close (wake_read dt c ch) = sent_close ch" "ch_state (wake_read dt c ch) = ch_state ch"
  "chan_ok (wake_write c ch) = chan_ok ch" "channel_num (wake_write c ch) = channel_num ch"
  "ch_send (wake_write c ch) = ch_send ch" "sent_eof (wake_write c ch) = sent_eof ch"
  "sent_close (wake_write c ch) = sent_close ch" "ch_state (wake_write c ch) = ch_state ch"
  by (cases dt; simp add: wake_write_def Let_def)+

text \<open>A channel with a sending side may change between the states that have one.\<close>

lemma chan_ok_state:
  "chan_ok ch \<Longrightarrow> ch_send ch \<noteq> None \<Longrightarrow> a \<in> {ChNormal, RecvEof, RecvClose} \<Longrightarrow> chan_ok (ch\<lparr>ch_state := a\<rparr>)"
  by (auto simp: chan_ok_def)

lemma send_num_cases:
  obtains (none) "ch_send ch = None" "send_num ch = Inl Bug"
  | (some) d where "ch_send ch = Some d" "send_num ch = Inr (cd_num d)"
  by (cases "ch_send ch") (auto simp: send_num_def trap_option_def)

text \<open>
  What an operation on a channel may do: keep the invariant and the number, and move between states that
  have a sending side.
\<close>

definition chan_step_ok :: "channel \<Rightarrow> channel \<Rightarrow> bool" where
  "chan_step_ok ch ch' \<longleftrightarrow> channel_num ch' = channel_num ch \<and> (chan_ok ch \<longrightarrow> chan_ok ch')"

lemma channel_send_eof_ok:
  assumes "channel_send_eof cr ch ts = (r, ch', ts')"
  shows "chan_step_ok ch ch'" "ch_send ch' = ch_send ch" "ch_state ch' = ch_state ch"
    "r = Inr () \<Longrightarrow> sent_eof ch'"
  using assms
  by (cases ch rule: send_num_cases;
      auto simp: channel_send_eof_def chan_step_ok_def chan_ok_def split: if_splits prod.splits sum.splits)+

lemma send_eof_ok_sends:
  assumes "channel_send_eof cr ch ts = (Inr (), ch', ts')" "chan_ok ch"
  shows "ch_send ch \<noteq> None"
  using assms
  by (cases ch rule: send_num_cases) (auto simp: channel_send_eof_def chan_ok_def split: if_splits)

lemma handle_eof_ok:
  assumes "handle_eof cr c ch ts = (r, ch', ts')"
  shows "chan_step_ok ch ch'" "ch_send ch' = ch_send ch" "r = Inr () \<Longrightarrow> sent_eof ch' \<and> ch_state ch' = RecvEof"
proof -
  obtain r1 ch1 ts1 where e: "channel_send_eof cr ch ts = (r1, ch1, ts1)" by (metis prod_cases3)
  note ok = channel_send_eof_ok [OF e]
  have ch': "ch' = (if r1 = Inr () then (if c then wake_read Stderr c (wake_read Normal c ch1)
      else wake_read Normal c ch1)\<lparr>ch_state := RecvEof\<rparr> else ch1)" "r = r1"
    using assms e by (auto simp: handle_eof_def Let_def split: sum.splits)
  show "ch_send ch' = ch_send ch" using ch' ok(2) by simp
  show "r = Inr () \<Longrightarrow> sent_eof ch' \<and> ch_state ch' = RecvEof" using ch' ok(4) by simp
  show "chan_step_ok ch ch'"
  proof (cases "r1 = Inr ()")
    case True
    then have "chan_ok ch \<Longrightarrow> ch_send ch1 \<noteq> None" using send_eof_ok_sends e ok(2) by metis
    with True ok(1) ch' show ?thesis
      by (auto simp: chan_step_ok_def intro: chan_ok_state)
  qed (use ch' ok(1) in simp)
qed

lemma handle_close_cases:
  assumes "handle_close cr c ch ts = (r, ch', ts')"
  obtains (fail) e where "r = Inl e" "ch' = ch"
  | (close) ch1 where "r = Inr ()" "ch1 = ch \<or> ch1 = ch\<lparr>sent_close := True\<rparr> \<and> ch_send ch \<noteq> None" "sent_close ch1"
      "ch' = (wake_write c (if c then wake_read Stderr c (wake_read Normal c ch1) else wake_read Normal c ch1))
        \<lparr>ch_state := RecvClose\<rparr>"
proof (cases "sent_close ch")
  case True
  with assms show ?thesis by (intro close [of ch]) (auto simp: handle_close_def Let_def)
next
  case False
  show ?thesis
  proof (cases ch rule: send_num_cases)
    case none
    with assms False show ?thesis by (intro fail [of Bug]) (auto simp: handle_close_def)
  next
    case (some d)
    obtain r1 ts1 where t: "ts_send cr (ChannelClose (cd_num d)) ts = (r1, ts1)" by fastforce
    show ?thesis
    proof (cases r1)
      case (Inl e)
      with assms False some t show ?thesis by (intro fail [of e]) (auto simp: handle_close_def)
    next
      case (Inr u)
      with assms False some t show ?thesis
        by (intro close [of "ch\<lparr>sent_close := True\<rparr>"]) (auto simp: handle_close_def Let_def)
    qed
  qed
qed

lemma handle_close_ok:
  assumes "handle_close cr c ch ts = (r, ch', ts')"
  shows "chan_step_ok ch ch'" "ch_send ch' = ch_send ch" "r = Inr () \<Longrightarrow> sent_close ch' \<and> ch_state ch' = RecvClose"
proof -
  from assms show "ch_send ch' = ch_send ch" by (cases rule: handle_close_cases) auto
  from assms show "r = Inr () \<Longrightarrow> sent_close ch' \<and> ch_state ch' = RecvClose"
    by (cases rule: handle_close_cases) auto
  from assms show "chan_step_ok ch ch'"
  proof (cases rule: handle_close_cases)
    case (close ch1)
    have "chan_ok ch \<Longrightarrow> chan_ok ch1 \<and> ch_send ch1 \<noteq> None" "channel_num ch1 = channel_num ch"
      using close(2,3) by (auto simp: chan_ok_def)
    then show ?thesis using close(4) by (auto simp: chan_step_ok_def intro!: chan_ok_state)
  qed (simp add: chan_step_ok_def)
qed

lemma check_send_window_adjust_ok:
  assumes "check_send_window_adjust cr ch ts = (ch', ts')"
  shows "chan_step_ok ch ch'" "ch_send ch' = ch_send ch" "ch_state ch' = ch_state ch" "ch_ty ch' = ch_ty ch"
    "app_done ch' = app_done ch"
  using assms
  by (auto simp: check_send_window_adjust_def chan_step_ok_def chan_ok_def
      split: if_splits option.splits prod.splits sum.splits)

lemma finished_input_ok: "chan_step_ok ch (finished_input n ch)"
  by (auto simp: chan_step_ok_def finished_input_def chan_ok_def usize_sat_add_le)

lemma window_ok: "chan_ok ch \<Longrightarrow> ch_send ch = Some sd \<Longrightarrow> w \<le> usize_max \<Longrightarrow>
  chan_ok (ch\<lparr>ch_send := Some (sd\<lparr>cd_window := w\<rparr>)\<rparr>)"
  by (auto simp: chan_ok_def)

lemma open_confirmed_ok: "chan_ok (ch\<lparr>open_confirmed := b\<rparr>) = chan_ok ch"
  by (simp add: chan_ok_def)

subsection \<open>Every operation keeps the invariant\<close>

lemma chans_inv_put_step:
  assumes "chans_inv cs" "get_any num cs = Inr ch" "chan_step_ok ch ch'"
  shows "chans_inv (put_chan num (Some ch') cs)"
  using chans_inv_put assms chans_inv_get [OF assms(1,2)] by (auto simp: chan_step_ok_def)

lemma app_done_ok: "ch_state ch \<notin> {InOpen, Opening} \<Longrightarrow> chan_step_ok ch (ch\<lparr>app_done := True\<rparr>)"
  by (auto simp: chan_step_ok_def chan_ok_def)

lemma channels_done_inv: "chans_inv cs \<Longrightarrow> channels_done num cs = (r, cs') \<Longrightarrow> chans_inv cs'"
  by (auto simp: channels_done_def get_chan_Inr app_done_ok split: sum.splits intro!: chans_inv_put_step)

lemma channels_remove_inv:
  assumes "chans_inv cs" "channels_remove num cs = (r, cs')"
    and "\<And>ch. get_any num cs = Inr ch \<Longrightarrow> ch_send ch = None"
  shows "chans_inv cs'"
proof (cases "get_any num cs")
  case (Inr ch)
  then have "chan_step_ok ch (ch\<lparr>ch_state := PendingDone\<rparr>)"
    using assms(3) [OF Inr] by (auto simp: chan_step_ok_def chan_ok_def)
  then show ?thesis
    using assms(1,2) Inr
    by (auto simp: channels_remove_def chans_inv_put_None chans_inv_put_step split: if_splits)
qed (use assms in \<open>auto simp: channels_remove_def\<close>)

lemma send_data_inv: "chans_inv cs \<Longrightarrow> send_data num dt d cs = (r, cs') \<Longrightarrow> chans_inv cs'"
proof -
  have "chan_step_ok ch (ch\<lparr>ch_send := Some (sd\<lparr>cd_window := cd_window sd - n\<rparr>)\<rparr>)" if "ch_send ch = Some sd" for ch sd n
    using that by (auto simp: chan_step_ok_def chan_ok_def)
  then show "chans_inv cs \<Longrightarrow> send_data num dt d cs = (r, cs') \<Longrightarrow> chans_inv cs'"
    by (auto simp: send_data_def get_chan_Inr split: sum.splits option.splits if_splits intro: chans_inv_put_step)
qed

lemma finished_read_inv:
  assumes "chans_inv cs" "finished_read cr num n cs ts = (r, cs', ts')"
  shows "chans_inv cs'"
proof (cases "get_chan num cs")
  case (Inr ch)
  obtain ch' ts1 where w: "check_send_window_adjust cr (finished_input n ch) ts = (ch', ts1)" by fastforce
  have "chan_step_ok ch ch'"
    using check_send_window_adjust_ok(1) [OF w] finished_input_ok [of ch n] by (simp add: chan_step_ok_def)
  then show ?thesis
    using assms Inr w by (auto simp: finished_read_def get_chan_Inr chans_inv_put_step)
qed (use assms in \<open>auto simp: finished_read_def\<close>)

lemma channels_send_eof_inv:
  assumes "chans_inv cs" "channels_send_eof cr num cs ts = (r, cs', ts')"
  shows "chans_inv cs'"
  using assms channel_send_eof_ok(1)
  by (auto simp: channels_send_eof_def get_chan_Inr split: sum.splits prod.splits intro: chans_inv_put_step)

lemma channels_progress_loop_ok:
  "channels_progress_loop cr l ts = (ev, l', ts') \<Longrightarrow>
     list_all2 (rel_option (\<lambda>ch ch'. chan_step_ok ch ch' \<and> ch_send ch' = ch_send ch \<and> ch_state ch' = ch_state ch)) l l'"
proof (induction cr l ts arbitrary: ev l' ts' rule: channels_progress_loop.induct)
  case (3 cr ch cs ts)
  obtain ch1 ts1 where w: "check_send_window_adjust cr ch ts = (ch1, ts1)" by fastforce
  note ok = check_send_window_adjust_ok [OF w]
  obtain ev2 cs2 ts2 where l: "channels_progress_loop cr cs ts1 = (ev2, cs2, ts2)" by (metis prod_cases3)
  have refl: "list_all2 (rel_option (\<lambda>ch ch'. chan_step_ok ch ch' \<and> ch_send ch' = ch_send ch \<and> ch_state ch' = ch_state ch)) cs cs"
    by (simp add: list_all2_refl option.rel_refl chan_step_ok_def)
  have "chan_step_ok ch (ch1\<lparr>open_confirmed := False\<rparr>)"
    using ok(1) by (simp add: chan_step_ok_def open_confirmed_ok)
  then show ?case
    using 3 w l ok(2,3) refl by (auto split: if_splits)
qed (auto split: prod.splits)

lemma chans_inv_rel:
  assumes "chans_inv cs" "list_all2 (rel_option (\<lambda>ch ch'. chan_step_ok ch ch' \<and> Q ch ch')) (chs cs) l"
  shows "chans_inv (cs\<lparr>chs := l\<rparr>)"
proof -
  have "unat (channel_num ch') = i \<and> chan_ok ch'" if "i < MAX_CHANNELS" "l ! i = Some ch'" for i ch'
  proof -
    have "rel_option (\<lambda>ch ch'. chan_step_ok ch ch' \<and> Q ch ch') (chs cs ! i) (l ! i)"
      using assms(1) that(1) list_all2_nthD [OF assms(2)] by (simp add: chans_inv_def)
    with that obtain ch where "chs cs ! i = Some ch" "chan_step_ok ch ch'"
      by (auto simp: option_rel_Some2)
    with that assms(1) show ?thesis by (auto simp: chans_inv_def chan_step_ok_def)
  qed
  then show ?thesis using assms by (simp add: chans_inv_def list_all2_lengthD)
qed

lemma channels_progress_inv:
  "chans_inv cs \<Longrightarrow> channels_progress cr cs ts = (ev, cs', ts') \<Longrightarrow> chans_inv cs'"
  using channels_progress_loop_ok chans_inv_rel
  by (fastforce simp: channels_progress_def split: prod.splits)

lemma channels_wake_inv:
  "chans_inv cs \<Longrightarrow> chans_inv (channels_wake_read num dt c cs)"
  "chans_inv cs \<Longrightarrow> chans_inv (channels_wake_write c cs)"
proof -
  show "chans_inv cs \<Longrightarrow> chans_inv (channels_wake_read num dt c cs)"
    by (auto simp: channels_wake_read_def get_chan_Inr chan_step_ok_def split: sum.splits intro!: chans_inv_put_step)
  show "chans_inv cs \<Longrightarrow> chans_inv (channels_wake_write c cs)"
    unfolding channels_wake_write_def
    by (rule chans_inv_rel [where Q = "\<lambda>_ _. True"])
       (simp_all add: list_all2_map2 list_all2_refl option.rel_map option.rel_refl chan_step_ok_def)
qed

lemma dispatch_open_inv:
  "chans_inv cs \<Longrightarrow> dispatch_open cr a b c ty cs ts = (r, cs', ts') \<Longrightarrow> chans_inv cs'"
  using reserve_chan_inv
  by (auto simp: dispatch_open_def dispatch_open_inner_def
      split: channel_open_type.splits prod.splits sum.splits dispatch_open_error.splits if_splits)

lemma dispatch_on_chan_inv:
  assumes "chans_inv cs" "dispatch_on_chan num f cs ts = (r, cs', ts')"
    and "\<And>ch r ch' ts'. f ch ts = (r, ch', ts') \<Longrightarrow> chan_step_ok ch ch'"
  shows "chans_inv cs'"
proof (cases "get_chan num cs")
  case (Inr ch)
  obtain r1 ch1 ts1 where f: "f ch ts = (r1, ch1, ts1)" by (metis prod_cases3)
  then have "chan_step_ok ch ch1" by (rule assms(3))
  then show ?thesis
    using assms(1,2) Inr f by (auto simp: dispatch_on_chan_def get_chan_Inr chans_inv_put_step split: sum.splits)
qed (use assms in \<open>auto simp: dispatch_on_chan_def\<close>)

lemma dispatch_open_confirmation_inv:
  "chans_inv cs \<Longrightarrow> dispatch_open_confirmation a b c d cs = (r, cs') \<Longrightarrow> chans_inv cs'"
  by (auto simp: dispatch_open_confirmation_def chan_step_ok_def chan_ok_def
      split: sum.splits chan_state.splits if_splits intro!: chans_inv_put_step)

lemma dispatch_open_failure_inv:
  "chans_inv cs \<Longrightarrow> dispatch_open_failure num cs = (r, cs') \<Longrightarrow> chans_inv cs'"
  by (auto simp: dispatch_open_failure_def split: sum.splits if_splits prod.splits
      elim!: channels_remove_inv [rotated])

lemma dispatch_window_adjust_inv:
  "chans_inv cs \<Longrightarrow> dispatch_window_adjust num adj cs = (r, cs') \<Longrightarrow> chans_inv cs'"
  by (auto simp: dispatch_window_adjust_def get_chan_Inr chan_step_ok_def Let_def window_ok usize_sat_add_le
      split: sum.splits option.splits intro!: chans_inv_put_step)

lemma dispatch_data_ext_inv:
  "chans_inv cs \<Longrightarrow> dispatch_data_ext num code d cs = (r, cs') \<Longrightarrow> chans_inv cs'"
  by (auto simp: dispatch_data_ext_def get_chan_Inr finished_input_ok split: sum.splits if_splits
      intro!: chans_inv_put_step)

lemma let_pair_eq [simp]:
  "(case x of (r, cs) \<Rightarrow> (r, cs, ts)) = (r', cs', ts') \<longleftrightarrow> x = (r', cs') \<and> ts' = ts"
  by (cases x) auto

lemma channels_dispatch_inv:
  assumes "chans_inv cs" "channels_dispatch cr p cs ts = (r, cs', ts')"
  shows "chans_inv cs'"
proof -
  obtain r1 cs1 ts1 where i: "channels_dispatch_inner cr p cs ts = (r1, cs1, ts1)" by (metis prod_cases3)
  then have "cs' = cs1"
    using assms(2) by (auto simp: channels_dispatch_def split: sum.splits ssh_error.splits)
  moreover have "chans_inv cs1"
  proof (cases p)
    case (ChannelEof num)
    then show ?thesis using i assms(1) handle_eof_ok(1) by (auto intro: dispatch_on_chan_inv)
  next
    case (ChannelClose num)
    then show ?thesis using i assms(1) handle_close_ok(1) by (auto intro: dispatch_on_chan_inv)
  next
    case (ChannelRequest num want_reply rq)
    then show ?thesis
      using i assms(1) by (cases "get_chan num cs") (simp_all split: prod.splits)
  qed (use assms(1) i in \<open>auto intro: dispatch_open_inv dispatch_open_confirmation_inv dispatch_open_failure_inv
      dispatch_window_adjust_inv dispatch_data_ext_inv\<close>)
  ultimately show ?thesis by simp
qed

lemma resume_open_inv:
  assumes "chans_inv cs" "resume_open cr num fail cs ts = (r, cs', ts')"
    and "\<And>ch. get_any num cs = Inr ch \<Longrightarrow> ch_state ch = InOpen"
  shows "chans_inv cs'"
proof (cases "get_any num cs")
  case (Inr ch)
  have "ch_send ch \<noteq> None" "ch_state ch = InOpen"
    using chans_inv_get(1) [OF assms(1) Inr] assms(3) [OF Inr] by (auto simp: chan_ok_def)
  then have "chan_step_ok ch (ch\<lparr>ch_state := ChNormal\<rparr>)" by (auto simp: chan_step_ok_def chan_ok_def)
  then show ?thesis
    using assms(1,2) Inr
    by (auto simp: resume_open_def remove_any_def open_done_def Let_def chans_inv_put_None chans_inv_put_step
        split: option.splits sum.splits prod.splits if_splits)
qed (use assms in \<open>auto simp: resume_open_def\<close>)

subsection \<open>The channel table as a state machine\<close>

text \<open>
  The steps a connection makes on the table. The answer to an open request (\<open>resume_open\<close>) is only asked
  for a channel that waits for it.
\<close>

inductive chans_step :: "crypto \<Rightarrow> channels \<Rightarrow> channels \<Rightarrow> bool" for cr where
  step_open: "chans_step cr cs (snd (channels_open ty cs))"
| step_done: "chans_step cr cs (snd (channels_done num cs))"
| step_send_data: "chans_step cr cs (snd (send_data num dt d cs))"
| step_finished_read: "chans_step cr cs (fst (snd (finished_read cr num n cs ts)))"
| step_send_eof: "chans_step cr cs (fst (snd (channels_send_eof cr num cs ts)))"
| step_progress: "chans_step cr cs (fst (snd (channels_progress cr cs ts)))"
| step_wake_read: "chans_step cr cs (channels_wake_read num dt c cs)"
| step_wake_write: "chans_step cr cs (channels_wake_write c cs)"
| step_dispatch: "chans_step cr cs (fst (snd (channels_dispatch cr p cs ts)))"
| step_resume_open: "get_any num cs = Inr ch \<Longrightarrow>
    ch_state ch = InOpen \<Longrightarrow> chans_step cr cs (fst (snd (resume_open cr num fail cs ts)))"

lemma triple_collapse: "x = (fst x, fst (snd x), snd (snd x))"
  by simp

lemmas ops_inv =
  channels_open_inv [OF _ prod.collapse [symmetric]] channels_done_inv [OF _ prod.collapse [symmetric]]
  send_data_inv [OF _ prod.collapse [symmetric]] finished_read_inv [OF _ triple_collapse]
  channels_send_eof_inv [OF _ triple_collapse] channels_progress_inv [OF _ triple_collapse]
  channels_wake_inv channels_dispatch_inv [OF _ triple_collapse]

lemma chans_step_inv: "chans_step cr cs cs' \<Longrightarrow> chans_inv cs \<Longrightarrow> chans_inv cs'"
proof (induction rule: chans_step.induct)
  case (step_resume_open num cs ch fail ts)
  then show ?case by (intro resume_open_inv [OF _ triple_collapse]) auto
qed (erule ops_inv)+

abbreviation chans_reach :: "crypto \<Rightarrow> bool \<Rightarrow> channels \<Rightarrow> bool" where
  "chans_reach cr is_client \<equiv> (chans_step cr)\<^sup>*\<^sup>* (channels_new is_client)"

lemma chans_reach_inv: "chans_reach cr c cs \<Longrightarrow> chans_inv cs"
  by (induction rule: rtranclp_induct) (auto intro: chans_inv_new chans_step_inv)

subsection \<open>A confirmed channel stays in the table\<close>

text \<open>
  A channel is established once both sides have agreed to open it. \<open>kept num k cs cs'\<close>: if \<open>num\<close> is
  established then it stays so, and the window for sending on it grows by at most \<open>k\<close>.
\<close>

definition established :: "chan_num \<Rightarrow> channels \<Rightarrow> bool" where
  "established num cs \<longleftrightarrow> (\<exists>ch. get_any num cs = Inr ch \<and> ch_send ch \<noteq> None \<and> ch_state ch \<noteq> InOpen)"

definition chan_window :: "chan_num \<Rightarrow> channels \<Rightarrow> nat" where
  "chan_window num cs =
     (case get_any num cs of
        Inl _ \<Rightarrow> 0
      | Inr ch \<Rightarrow> (case ch_send ch of None \<Rightarrow> 0 | Some sd \<Rightarrow> cd_window sd))"

definition kept :: "chan_num \<Rightarrow> nat \<Rightarrow> channels \<Rightarrow> channels \<Rightarrow> bool" where
  "kept num k cs cs' \<longleftrightarrow>
     (established num cs \<longrightarrow> established num cs' \<and> chan_window num cs' \<le> chan_window num cs + k)"

lemma kept_refl [simp]: "kept num k cs cs"
  by (simp add: kept_def)

lemma kept_put:
  assumes "get_any n cs = Inr ch0"
    and "n = num \<Longrightarrow> ch_send ch0 \<noteq> None \<Longrightarrow> ch_state ch0 \<noteq> InOpen \<Longrightarrow>
      ch_send ch1 \<noteq> None \<and> ch_state ch1 \<noteq> InOpen \<and>
      cd_window (the (ch_send ch1)) \<le> cd_window (the (ch_send ch0)) + k"
  shows "kept num k cs (put_chan n (Some ch1) cs)"
proof (cases "n = num")
  case True
  then have "get_any num (put_chan n (Some ch1) cs) = Inr ch1"
    using assms(1) by (simp add: get_any_Inr get_any_put)
  with True assms show ?thesis
    by (auto simp: kept_def established_def chan_window_def split: option.splits)
next
  case False
  with assms(1) show ?thesis
    by (auto simp: kept_def established_def chan_window_def get_any_Inr get_any_put)
qed

lemma kept_put_same:
  assumes "get_any n cs = Inr ch0" "ch_send ch1 = ch_send ch0" "ch_state ch1 = InOpen \<Longrightarrow> ch_state ch0 = InOpen"
  shows "kept num k cs (put_chan n (Some ch1) cs)"
  using assms by (intro kept_put) auto

lemma established_not_None: "established num cs \<Longrightarrow> unat num < length (chs cs) \<and> chs cs ! unat num \<noteq> None"
  by (auto simp: established_def get_any_Inr)

lemma kept_other:
  assumes "\<not> established n cs" "unat n < length (chs cs)"
  shows "kept num k cs (put_chan n c cs)"
  using assms
  by (cases "n = num")
     (auto simp: kept_def established_def chan_window_def get_any_def put_chan_def nth_list_update_if unat_u32_eq_iff)

lemma unused_not_established: "chans_inv cs \<Longrightarrow> unused_chan cs = Inr n \<Longrightarrow> \<not> established n cs \<and> unat n < length (chs cs)"
  using established_not_None [of n cs] unused_chan_Inr [of cs n] by (auto simp: chans_inv_def)

lemma kept_open: "chans_inv cs \<Longrightarrow> kept num k cs (snd (channels_open ty cs))"
  by (auto simp: channels_open_def Let_def kept_other unused_not_established split: sum.splits)

lemma kept_reserve: "chans_inv cs \<Longrightarrow> kept num k cs (snd (reserve_chan a b c ty cs))"
  by (auto simp: reserve_chan_def Let_def kept_other unused_not_established split: sum.splits)

lemma get_chan_any: "get_chan num cs = Inr ch \<Longrightarrow> get_any num cs = Inr ch"
  by (simp add: get_chan_Inr)

lemma kept_done: "kept num k cs (snd (channels_done n cs))"
  by (auto simp: channels_done_def get_chan_Inr split: sum.splits intro!: kept_put_same)

lemma kept_send_data: "kept num k cs (snd (send_data n dt d cs))"
  by (auto simp: send_data_def get_chan_Inr split: sum.splits option.splits if_splits intro!: kept_put)

lemma kept_finished_read: "kept num k cs (fst (snd (finished_read cr n len cs ts)))"
proof (cases "get_chan n cs")
  case (Inr ch)
  obtain ch' ts1 where w: "check_send_window_adjust cr (finished_input len ch) ts = (ch', ts1)" by (metis surj_pair)
  from check_send_window_adjust_ok(2,3) [OF w] have "ch_send ch' = ch_send ch" "ch_state ch' = ch_state ch"
    by (simp_all add: finished_input_def)
  with Inr w show ?thesis by (auto simp: finished_read_def intro!: kept_put_same dest: get_chan_any)
qed (simp add: finished_read_def)

lemma kept_send_eof: "kept num k cs (fst (snd (channels_send_eof cr n cs ts)))"
proof (cases "get_chan n cs")
  case (Inr ch)
  obtain r ch' ts1 where w: "channel_send_eof cr ch ts = (r, ch', ts1)" by (metis prod_cases3)
  with Inr channel_send_eof_ok(2,3) [OF w] show ?thesis
    by (auto simp: channels_send_eof_def intro!: kept_put_same dest: get_chan_any)
qed (simp add: channels_send_eof_def)

lemma kept_rel:
  assumes "list_all2 (rel_option (\<lambda>ch ch'. ch_send ch' = ch_send ch \<and> ch_state ch' = ch_state ch)) (chs cs) l"
  shows "kept num k cs (cs\<lparr>chs := l\<rparr>)"
proof -
  have "length l = length (chs cs)" using assms by (simp add: list_all2_lengthD)
  moreover have "unat num < length (chs cs) \<Longrightarrow>
      rel_option (\<lambda>ch ch'. ch_send ch' = ch_send ch \<and> ch_state ch' = ch_state ch) (chs cs ! unat num) (l ! unat num)"
    by (rule list_all2_nthD [OF assms])
  ultimately show ?thesis
    by (auto simp: kept_def established_def chan_window_def get_any_def option_rel_Some1 split: if_splits)
qed

lemma kept_progress: "kept num k cs (fst (snd (channels_progress cr cs ts)))"
proof -
  obtain ev l ts' where p: "channels_progress_loop cr (chs cs) ts = (ev, l, ts')" by (metis prod_cases3)
  have "list_all2 (rel_option (\<lambda>ch ch'. ch_send ch' = ch_send ch \<and> ch_state ch' = ch_state ch)) (chs cs) l"
    using channels_progress_loop_ok [OF p]
    by (rule list_all2_mono) (auto elim: option.rel_mono_strong)
  with p show ?thesis by (auto simp: channels_progress_def kept_rel)
qed

lemma kept_wake:
  "kept num k cs (channels_wake_read n dt c cs)" "kept num k cs (channels_wake_write c cs)"
proof -
  show "kept num k cs (channels_wake_read n dt c cs)"
    by (auto simp: channels_wake_read_def get_chan_Inr split: sum.splits intro!: kept_put_same)
  show "kept num k cs (channels_wake_write c cs)"
    unfolding channels_wake_write_def
    by (rule kept_rel) (simp add: list_all2_map2 list_all2_refl option.rel_map option.rel_refl)
qed

text \<open>The credit that a packet from the peer gives for sending.\<close>

fun window_credit :: "chan_num \<Rightarrow> packet \<Rightarrow> nat" where
  "window_credit num (ChannelWindowAdjust n adj) = (if n = num then unat adj else 0)"
| "window_credit num _ = 0"

lemma kept_on_chan:
  assumes "\<And>ch ts r ch' ts'. f ch ts = (r, ch', ts') \<Longrightarrow> ch_send ch' = ch_send ch \<and> (ch_state ch' = InOpen \<longrightarrow> ch_state ch = InOpen)"
  shows "kept num k cs (fst (snd (dispatch_on_chan n f cs ts)))"
proof (cases "get_chan n cs")
  case (Inr ch)
  obtain r ch' ts1 where w: "f ch ts = (r, ch', ts1)" by (metis prod_cases3)
  with Inr assms [OF w] show ?thesis
    by (cases r) (auto simp: dispatch_on_chan_def intro!: kept_put_same dest: get_chan_any)
qed (simp add: dispatch_on_chan_def)

lemma handle_eof_state:
  "handle_eof cr c ch ts = (r, ch', ts') \<Longrightarrow>
     ch_send ch' = ch_send ch \<and> (ch_state ch' = InOpen \<longrightarrow> ch_state ch = InOpen)"
proof -
  assume e: "handle_eof cr c ch ts = (r, ch', ts')"
  obtain r1 ch1 ts1 where s: "channel_send_eof cr ch ts = (r1, ch1, ts1)" by (metis prod_cases3)
  note ok = channel_send_eof_ok(2,3) [OF s]
  have "ch_state ch' = RecvEof \<or> ch' = ch1"
    using e s by (auto simp: handle_eof_def Let_def split: sum.splits)
  with ok handle_eof_ok(2) [OF e] show ?thesis by auto
qed

lemma handle_close_state:
  "handle_close cr c ch ts = (r, ch', ts') \<Longrightarrow>
     ch_send ch' = ch_send ch \<and> (ch_state ch' = InOpen \<longrightarrow> ch_state ch = InOpen)"
  by (erule handle_close_cases) auto

lemma chan_ok_Opening: "chan_ok ch \<Longrightarrow> ch_state ch = Opening \<Longrightarrow> ch_send ch = None"
  by (simp add: chan_ok_def)

lemma kept_dispatch_inner:
  assumes "chans_inv cs"
  shows "kept num (window_credit num p) cs (fst (snd (channels_dispatch_inner cr p cs ts)))"
proof (cases p)
  case (ChannelOpen a b c ty)
  have "kept num 0 cs (snd (dispatch_open_inner a b c ty cs))"
    using kept_reserve [OF assms, of num 0 a b c ty]
    by (auto simp: dispatch_open_inner_def split: channel_open_type.splits prod.splits sum.splits)
  then show ?thesis
    by (auto simp: ChannelOpen dispatch_open_def split: prod.splits sum.splits dispatch_open_error.splits)
next
  case (ChannelOpenConfirmation n a b c)
  have "kept num 0 cs (snd (dispatch_open_confirmation n a b c cs))"
    using chan_ok_Opening [OF chans_inv_get(1) [OF assms]]
    by (auto simp: dispatch_open_confirmation_def split: sum.splits chan_state.splits if_splits
        intro!: kept_put)
  then show ?thesis by (auto simp: ChannelOpenConfirmation split: prod.splits)
next
  case (ChannelOpenFailure n a b c)
  have "kept num 0 cs (snd (dispatch_open_failure n cs))"
    by (auto simp: dispatch_open_failure_def channels_remove_def get_any_Inr established_def
        split: sum.splits if_splits prod.splits intro!: kept_other kept_put)
  then show ?thesis by (auto simp: ChannelOpenFailure split: prod.splits)
next
  case (ChannelWindowAdjust n adj)
  have "kept num (window_credit num p) cs (snd (dispatch_window_adjust n adj cs))"
    by (auto simp: ChannelWindowAdjust dispatch_window_adjust_def Let_def usize_sat_add_def dest: get_chan_any
        split: sum.splits option.splits intro!: kept_put)
  then show ?thesis by (auto simp: ChannelWindowAdjust split: prod.splits)
next
  case (ChannelDataExt n code d)
  have "kept num 0 cs (snd (dispatch_data_ext n code d cs))"
    by (auto simp: dispatch_data_ext_def finished_input_def dest: get_chan_any split: sum.splits if_splits
        intro!: kept_put_same)
  then show ?thesis by (auto simp: ChannelDataExt split: prod.splits)
next
  case (ChannelEof n)
  have "kept num 0 cs (fst (snd (dispatch_on_chan n (handle_eof cr (chs_is_client cs)) cs ts)))"
    by (rule kept_on_chan) (rule handle_eof_state)
  then show ?thesis by (simp add: ChannelEof)
next
  case (ChannelClose n)
  have "kept num 0 cs (fst (snd (dispatch_on_chan n (handle_close cr (chs_is_client cs)) cs ts)))"
    by (rule kept_on_chan) (rule handle_close_state)
  then show ?thesis by (simp add: ChannelClose)
qed (auto split: sum.splits prod.splits)

lemma kept_dispatch:
  "chans_inv cs \<Longrightarrow> kept num (window_credit num p) cs (fst (snd (channels_dispatch cr p cs ts)))"
  using kept_dispatch_inner [of cs num p cr ts]
  by (auto simp: channels_dispatch_def split: prod.splits sum.splits ssh_error.splits)

lemma kept_resume_open:
  assumes "get_any n cs = Inr ch" "ch_state ch = InOpen"
  shows "kept num k cs (fst (snd (resume_open cr n fail cs ts)))"
proof -
  have "\<not> established n cs" "unat n < length (chs cs)"
    using assms by (auto simp: established_def get_any_Inr)
  note ko = kept_other [OF this]
  show ?thesis
    using assms ko
    by (auto simp: resume_open_def remove_any_def open_done_def Let_def split: option.splits sum.splits prod.splits)
qed

text \<open>No step frees an established channel, also not one that both sides have closed.\<close>

lemma step_established:
  assumes "chans_step cr cs cs'" "chans_inv cs" "established num cs"
  shows "established num cs'"
proof -
  have "\<exists>k. kept num k cs cs'"
    using assms(1,2)
    by (induction rule: chans_step.induct)
       (blast intro: kept_open kept_done kept_send_data kept_finished_read kept_send_eof kept_progress kept_wake
          kept_dispatch kept_resume_open)+
  with assms(3) show ?thesis by (auto simp: kept_def)
qed

lemma steps_established:
  "(chans_step cr)\<^sup>*\<^sup>* cs cs' \<Longrightarrow> chans_inv cs \<Longrightarrow> established num cs \<Longrightarrow> established num cs' \<and> chans_inv cs'"
  by (induction rule: rtranclp_induct) (auto intro: step_established chans_step_inv)

subsection \<open>Flow control\<close>

text \<open>
  Data that the application sends on a channel, interleaved with packets from the peer: how much is sent.
\<close>

datatype flow_op = FlowSend chan_data bytes | FlowPacket packet

fun run_flow :: "crypto \<Rightarrow> chan_num \<Rightarrow> flow_op list \<Rightarrow> channels \<Rightarrow> traf_send \<Rightarrow> nat \<times> channels \<times> traf_send" where
  "run_flow cr num [] cs ts = (0, cs, ts)"
| "run_flow cr num (FlowSend dt d # ops) cs ts =
     (let (r, cs) = send_data num dt d cs;
          (n, cs, ts) = run_flow cr num ops cs ts
      in (case r of Inr _ \<Rightarrow> length d + n | Inl _ \<Rightarrow> n, cs, ts))"
| "run_flow cr num (FlowPacket p # ops) cs ts =
     (let (_, cs, ts) = channels_dispatch cr p cs ts in run_flow cr num ops cs ts)"

fun flow_credit :: "chan_num \<Rightarrow> flow_op \<Rightarrow> nat" where
  "flow_credit num (FlowSend _ _) = 0"
| "flow_credit num (FlowPacket p) = window_credit num p"

lemma send_data_window:
  assumes "send_data num dt d cs = (Inr p, cs')"
  shows "length d + chan_window num cs' = chan_window num cs"
proof -
  obtain ch sd where ch: "get_chan num cs = Inr ch" "ch_send ch = Some sd" "length d \<le> cd_window sd"
    "cs' = put_chan num (Some (ch\<lparr>ch_send := Some (sd\<lparr>cd_window := cd_window sd - length d\<rparr>)\<rparr>)) cs"
    using assms by (auto simp: send_data_def split: sum.splits option.splits if_splits)
  have any: "get_any num cs = Inr ch" using ch(1) by (rule get_chan_any)
  then have "unat num < length (chs cs)" by (simp add: get_any_Inr)
  with any ch(2-4) show ?thesis by (simp add: chan_window_def get_any_put)
qed

lemma run_flow_window:
  assumes "chans_inv cs" "established num cs" "run_flow cr num ops cs ts = (n, cs', ts')"
  shows "n + chan_window num cs' \<le> chan_window num cs + sum_list (map (flow_credit num) ops)"
  using assms
proof (induction cr num ops cs ts arbitrary: n cs' ts' rule: run_flow.induct)
  case (2 cr num dt d ops cs ts)
  obtain r cs1 where s: "send_data num dt d cs = (r, cs1)" by fastforce
  obtain m cs2 ts2 where f: "run_flow cr num ops cs1 ts = (m, cs2, ts2)" by (metis prod_cases3)
  have k: "kept num 0 cs cs1" using kept_send_data [of num 0 cs num dt d] s by simp
  then have e: "established num cs1" "chan_window num cs1 \<le> chan_window num cs"
    using 2 by (auto simp: kept_def)
  have i: "chans_inv cs1" by (rule send_data_inv [OF 2(2) s])
  have r: "(case r of Inr _ \<Rightarrow> length d | Inl _ \<Rightarrow> 0) + chan_window num cs1 \<le> chan_window num cs"
    using s e(2) send_data_window [of num dt d cs _ cs1] by (cases r) auto
  from 2(1) [OF s [symmetric] refl i e(1) f] 2(4) s f r show ?case by (cases r) auto
next
  case (3 cr num p ops cs ts)
  obtain r cs1 ts1 where s: "channels_dispatch cr p cs ts = (r, cs1, ts1)" by (metis prod_cases3)
  have k: "kept num (window_credit num p) cs cs1" using kept_dispatch [OF 3(2), of num p cr ts] s by simp
  then have e: "established num cs1" "chan_window num cs1 \<le> chan_window num cs + window_credit num p"
    using 3 by (auto simp: kept_def)
  have i: "chans_inv cs1" by (rule channels_dispatch_inv [OF 3(2) s])
  from 3(1) [OF s [symmetric] refl refl i e(1)] 3(4) s e(2) show ?case by simp
qed simp

subsection \<open>End of file and close are sent once\<close>

lemma channel_send_eof_once:
  assumes "channel_send_eof cr ch ts = (Inr (), ch', ts')"
  shows "channel_send_eof cr ch' us = (Inr (), ch', us)"
proof -
  have "sent_eof ch'" using assms by (rule channel_send_eof_ok(4)) simp
  then show ?thesis by (simp add: channel_send_eof_def)
qed

subsection \<open>What the channels send\<close>

text \<open>
  Every operation on channels sends plain packets only: it keeps an invariant of the sender that those keep,
  and it does not panic.
\<close>

lemma send_num_not_Panic: "send_num ch \<noteq> Inl Panic"
  by (cases ch rule: send_num_cases) auto

lemma dispatch_open_inner_safe:
  assumes "dispatch_open_inner a b c ty cs = (r, cs')"
  shows "r \<noteq> Inl (DoError Panic)"
proof (cases "ty = OpenSession \<and> \<not> chs_is_client cs")
  case True
  obtain r1 cs1 where s: "reserve_chan a b c ty cs = (r1, cs1)" by fastforce
  have "r1 \<noteq> Inl Panic"
    using s by (auto simp: reserve_chan_def Let_def True chan_type_from.simps unused_chan_Inl split: sum.splits)
  with assms True s show ?thesis
    by (cases r1) (auto simp: dispatch_open_inner_def elim: dispatch_open_error_from.elims)
qed (use assms in \<open>auto simp: dispatch_open_inner_def split: channel_open_type.splits\<close>)

lemma plain_channel_packets [simp]:
  "plain (ChannelEof n)" "plain (ChannelClose n)" "plain (ChannelOpenFailure n a desc lang)" "plain (ChannelFailure n)"
  "plain (ChannelSuccess n)" "plain (ChannelWindowAdjust n a)" "plain (ChannelRequest n w rq)"
  "plain (ChannelOpenConfirmation n a x y)" "plain (ChannelOpen n a x ty)" "plain (ChannelData n d)"
  "plain (ChannelDataExt n code d)" "plain (Unimplemented sq)" "plain RequestFailure"
  by (simp_all add: plain_def)

context plain_sender
begin

lemma channel_send_eof_safe:
  assumes "channel_send_eof cr ch ts = (r, ch', ts')" "I ts"
  shows "I ts' \<and> r \<noteq> Inl Panic"
proof (cases "sent_eof ch \<or> (\<exists>e. send_num ch = Inl e)")
  case True
  with assms send_num_not_Panic [of ch] show ?thesis by (auto simp: channel_send_eof_def split: if_splits)
next
  case False
  then obtain n where n: "send_num ch = Inr n" by (cases "send_num ch") auto
  obtain r1 ts1 where t: "ts_send cr (ChannelEof n) ts = (r1, ts1)" by fastforce
  from send [OF _ assms(2) t] False n t assms(1) show ?thesis
    by (cases r1) (auto simp: channel_send_eof_def)
qed

lemma handle_eof_safe:
  assumes "handle_eof cr c ch ts = (r, ch', ts')" "I ts"
  shows "I ts' \<and> r \<noteq> Inl Panic"
proof -
  obtain r1 ch1 ts1 where s: "channel_send_eof cr ch ts = (r1, ch1, ts1)" by (metis prod_cases3)
  from channel_send_eof_safe [OF s assms(2)] assms(1) s
  show ?thesis by (auto simp: handle_eof_def Let_def split: sum.splits)
qed

lemma handle_close_safe:
  assumes "handle_close cr c ch ts = (r, ch', ts')" "I ts"
  shows "I ts' \<and> r \<noteq> Inl Panic"
proof (cases "sent_close ch \<or> (\<exists>e. send_num ch = Inl e)")
  case True
  with assms send_num_not_Panic [of ch] show ?thesis
    by (auto simp: handle_close_def Let_def split: if_splits)
next
  case False
  then obtain n where n: "send_num ch = Inr n" by (cases "send_num ch") auto
  obtain r1 ts1 where t: "ts_send cr (ChannelClose n) ts = (r1, ts1)" by fastforce
  from send [OF _ assms(2) t] False n t assms(1) show ?thesis
    by (cases r1) (auto simp: handle_close_def Let_def)
qed

lemma dispatch_on_chan_safe:
  assumes "dispatch_on_chan n f cs ts = (r, cs', ts')"
    and "\<And>ch r ch' ts'. f ch ts = (r, ch', ts') \<Longrightarrow> I ts' \<and> r \<noteq> Inl Panic" "I ts"
  shows "I ts' \<and> r \<noteq> Inl Panic"
proof (cases "get_chan n cs")
  case (Inr ch)
  obtain r1 ch1 ts1 where f: "f ch ts = (r1, ch1, ts1)" by (metis prod_cases3)
  from assms(2) [OF f] assms(1) Inr f show ?thesis
    by (cases r1) (auto simp: dispatch_on_chan_def)
next
  case (Inl e)
  with assms get_chan_Inl [OF Inl] show ?thesis by (auto simp: dispatch_on_chan_def)
qed

lemma dispatch_open_safe:
  assumes "dispatch_open cr a b c ty cs ts = (r, cs', ts')" "I ts"
  shows "I ts' \<and> r \<noteq> Inl Panic"
proof -
  obtain r1 cs1 where i: "dispatch_open_inner a b c ty cs = (r1, cs1)" by fastforce
  note np = dispatch_open_inner_safe [OF i]
  show ?thesis
  proof (cases "\<exists>f. r1 = Inl (DoFailure f)")
    case True
    then obtain f where f: "r1 = Inl (DoFailure f)" ..
    obtain r2 ts2 where t: "ts_send cr (ChannelOpenFailure a (chan_fail_u32 f) [] '''') ts = (r2, ts2)" by fastforce
    from send [OF _ assms(2) t] i f t assms(1) show ?thesis
      by (cases r2) (auto simp: dispatch_open_def)
  next
    case False
    with np i assms show ?thesis
      by (cases r1) (auto simp: dispatch_open_def split: dispatch_open_error.splits)
  qed
qed

lemma dispatch_request_safe:
  assumes "dispatch_request cr w rq c ch ts = (r, ts')" "I ts"
  shows "I ts' \<and> r \<noteq> Inl Panic"
proof -
  have "I (snd (ts_send cr (ChannelFailure n) ts))" for n
    using send [OF _ assms(2) prod.collapse [symmetric]] by simp
  with assms show ?thesis
    by (auto simp: dispatch_request_def Let_def split: if_splits sum.splits ssh_error.splits)
qed

lemma channels_dispatch_safe:
  assumes "channels_dispatch cr p cs ts = (r, cs', ts')" "I ts"
  shows "I ts' \<and> r \<noteq> Inl Panic"
proof -
  obtain r1 cs1 ts1 where i: "channels_dispatch_inner cr p cs ts = (r1, cs1, ts1)" by (metis prod_cases3)
  have "I ts1 \<and> r1 \<noteq> Inl Panic"
  proof (cases p)
    case (ChannelOpen a b c ty)
    with i assms show ?thesis by (auto dest: dispatch_open_safe)
  next
    case (ChannelEof n)
    then have "dispatch_on_chan n (handle_eof cr (chs_is_client cs)) cs ts = (r1, cs1, ts1)" using i by simp
    then show ?thesis by (rule dispatch_on_chan_safe) (use assms handle_eof_safe in blast)+
  next
    case (ChannelClose n)
    then have "dispatch_on_chan n (handle_close cr (chs_is_client cs)) cs ts = (r1, cs1, ts1)" using i by simp
    then show ?thesis by (rule dispatch_on_chan_safe) (use assms handle_close_safe in blast)+
  next
    case (ChannelRequest n w rq)
    show ?thesis
    proof (cases "get_chan n cs")
      case (Inr ch)
      obtain r2 ts2 where d: "dispatch_request cr w rq (chs_is_client cs) ch ts = (r2, ts2)" by fastforce
      from dispatch_request_safe [OF d assms(2)] d Inr i ChannelRequest show ?thesis by auto
    qed (use i ChannelRequest assms in auto)
  qed (use i assms(2) in \<open>auto simp: dispatch_open_confirmation_def dispatch_open_failure_def
      dispatch_window_adjust_def dispatch_data_def dispatch_data_ext_def channels_remove_def and_then_Inl_eq Let_def
      dest!: get_any_Inl get_chan_Inl
      split: sum.splits chan_state.splits if_splits option.splits\<close>)
  with assms(1) i show ?thesis
    by (auto simp: channels_dispatch_def split: sum.splits ssh_error.splits)
qed

lemma window_adjust_keeps:
  assumes "check_send_window_adjust cr ch ts = (ch', ts')" "I ts"
  shows "I ts'"
proof (cases "pending_adjust ch > full_window ch div 2 \<and> ch_send ch \<noteq> None")
  case True
  then obtain sd where s: "ch_send ch = Some sd" by auto
  obtain r ts1 where t: "ts_send cr (ChannelWindowAdjust (cd_num sd) (word_of_nat (pending_adjust ch))) ts = (r, ts1)"
    by fastforce
  from send [OF _ assms(2) t] s t assms(1) True show ?thesis
    by (cases r) (auto simp: check_send_window_adjust_def)
qed (use assms in \<open>auto simp: check_send_window_adjust_def split: option.splits if_splits\<close>)

lemma finished_read_safe:
  assumes "finished_read cr num n cs ts = (r, cs', ts')" "I ts"
  shows "I ts' \<and> r \<noteq> Inl Panic"
proof (cases "get_chan num cs")
  case (Inr ch)
  obtain ch' ts1 where w: "check_send_window_adjust cr (finished_input n ch) ts = (ch', ts1)" by fastforce
  from window_adjust_keeps [OF w assms(2)] assms(1) Inr w show ?thesis by (auto simp: finished_read_def)
qed (use assms in \<open>auto simp: finished_read_def dest!: get_chan_Inl\<close>)

lemma channels_send_eof_safe:
  assumes "channels_send_eof cr num cs ts = (r, cs', ts')" "I ts"
  shows "I ts' \<and> r \<noteq> Inl Panic"
proof (cases "get_chan num cs")
  case (Inr ch)
  obtain r1 ch' ts1 where w: "channel_send_eof cr ch ts = (r1, ch', ts1)" by (metis prod_cases3)
  from channel_send_eof_safe [OF w assms(2)] assms(1) Inr w show ?thesis by (auto simp: channels_send_eof_def)
qed (use assms in \<open>auto simp: channels_send_eof_def dest!: get_chan_Inl\<close>)

lemma progress_loop_keeps:
  "channels_progress_loop cr l ts = (ev, l', ts') \<Longrightarrow> I ts \<Longrightarrow> I ts'"
proof (induction l arbitrary: ev l' ts ts')
  case (Cons c l)
  show ?case
  proof (cases c)
    case None
    obtain ev2 l2 ts2 where n: "channels_progress_loop cr l ts = (ev2, l2, ts2)" by (metis prod_cases3)
    from Cons.IH [OF n Cons.prems(2)] Cons.prems(1) None n show ?thesis by simp
  next
    case (Some ch)
    obtain ch1 ts1 where w: "check_send_window_adjust cr ch ts = (ch1, ts1)" by fastforce
    note i1 = window_adjust_keeps [OF w Cons.prems(2)]
    obtain ev2 l2 ts2 where n: "channels_progress_loop cr l ts1 = (ev2, l2, ts2)" by (metis prod_cases3)
    from Cons.IH [OF n i1] Cons.prems(1) Some w n i1 show ?thesis by (auto split: if_splits)
  qed
qed simp

lemma channels_progress_keeps:
  "channels_progress cr cs ts = (ev, cs', ts') \<Longrightarrow> I ts \<Longrightarrow> I ts'"
  by (auto simp: channels_progress_def split: prod.splits dest: progress_loop_keeps)

lemma resume_open_safe:
  assumes "resume_open cr num fail cs ts = (r, cs', ts')" "I ts"
  shows "I ts' \<and> r \<noteq> Inl Panic"
proof (cases "get_any num cs")
  case (Inr ch)
  then have n: "unat num < length (chs cs)" by (simp add: get_any_Inr)
  show ?thesis
  proof (cases fail)
    case None
    show ?thesis
    proof (cases "open_done ch")
      case (Pair po ch')
      show ?thesis
      proof (cases po)
        case (Inr p)
        obtain r1 ts1 where t: "ts_send cr p ts = (r1, ts1)" by fastforce
        have "plain p" using Pair Inr by (auto simp: open_done_def Let_def and_then_Inr_eq)
        from send [OF this assms(2) t] t Pair Inr None \<open>get_any num cs = Inr ch\<close> assms(1) show ?thesis
          by (auto simp: resume_open_def)
      next
        case (Inl e)
        then have "e \<noteq> Panic" using Pair send_num_not_Panic by (auto simp: open_done_def Let_def and_then_Inl_eq)
        then show ?thesis using Pair Inl None \<open>get_any num cs = Inr ch\<close> assms by (auto simp: resume_open_def)
      qed
    qed
  next
    case (Some f)
    show ?thesis
    proof (cases "send_num ch")
      case sn: (Inr m)
      obtain r1 ts1 where t: "ts_send cr (ChannelOpenFailure m (chan_fail_u32 f) [] '''') ts = (r1, ts1)" by fastforce
      from send [OF _ assms(2) t] t sn Some Inr n assms(1) show ?thesis
        by (auto simp: resume_open_def remove_any_def)
    next
      case (Inl e)
      then show ?thesis using Some Inr assms send_num_not_Panic [of ch] by (auto simp: resume_open_def)
    qed
  qed
qed (use assms in \<open>auto simp: resume_open_def dest!: get_any_Inl\<close>)

lemma safe_fail: "e \<noteq> Panic \<Longrightarrow> safe I (Pair (Inl e))"
  by (simp add: safe_def)

lemma req_send_safe: "safe I (req_send cr rq ch)"
proof (cases "send_num ch")
  case (Inr n)
  then have "req_send cr rq ch = ts_send cr (ChannelRequest n False (req_type_from rq))"
    by (intro ext) (simp add: req_send_def)
  then show ?thesis by (simp add: safe_plain)
next
  case (Inl e)
  then have "req_send cr rq ch = Pair (Inl e)" by (intro ext) (simp add: req_send_def)
  then show ?thesis using Inl send_num_not_Panic [of ch] by (auto intro: safe_fail)
qed

lemma resume_chanreq_safe: "safe I (channels_resume_chanreq cr p success cs)"
proof (cases "\<exists>num w rq. p = ChannelRequest num w rq")
  case True
  then obtain num w rq where p: "p = ChannelRequest num w rq" by blast
  show ?thesis
  proof (cases "get_chan num cs")
    case (Inr ch)
    show ?thesis
    proof (cases "send_num ch")
      case n: (Inr n)
      have "safe I (ts_send cr (if success then ChannelSuccess n else ChannelFailure n))" by (simp add: safe_plain)
      then show ?thesis using Inr n by (auto simp: p safe_def)
    qed (use Inr send_num_not_Panic [of ch] in \<open>auto simp: p safe_def\<close>)
  qed (auto simp: p safe_def dest: get_chan_Inl)
qed (cases p; auto simp: safe_def)

lemma term_requests_safe:
  "safe I (channels_term_window_change cr num winch cs)" "safe I (channels_term_break cr num l cs)"
  using req_send_safe
  by (auto simp: safe_def channels_term_window_change_def channels_term_break_def split: sum.splits chan_type.splits
      prod.splits dest: get_chan_Inl)

end

end
