(* ===== verification/SSH_Kex_Correct.thy ===== *)
theory SSH_Kex_Correct
  imports SSH_Kex SSH_Send_Correct
begin

section \<open>Correctness of the key exchange\<close>

text \<open>
  The two ends of an exchange agree: on the algorithms (\<open>negotiation_agrees\<close>), on the shared secret and
  the exchange hash (\<open>secrets_agree\<close>), and on the keys of each direction (\<open>keys_paired\<close>); neither the
  configuration nor the derivation of keys panics. The state machine keeps its invariant \<open>kex_inv\<close>.
\<close>

subsection \<open>Keys\<close>

lemma length_compute_key:
  assumes "crypto_ok cr" "len \<le> outlen" "outlen \<le> 64"
  obtains k where "compute_key cr ko letter len outlen sid = Inr k" "length k = len"
proof -
  have "length (sha256 cr m) = 32" for m using assms(1) by (simp add: crypto_ok_def)
  then have "\<exists>k. compute_key cr ko letter len outlen sid = Inr k \<and> length k = len"
    using assms(2,3) by (auto simp: compute_key_def Let_def SHA256_SIZE_def)
  with that show ?thesis by blast
qed

text \<open>The MAC of a cipher: its own, or the negotiated one.\<close>

definition integ_fits :: "cipher \<Rightarrow> integ \<Rightarrow> bool" where
  "integ_fits c i \<longleftrightarrow> (case cipher_integ c of Some j \<Rightarrow> i = j | None \<Rightarrow> i = IntegHmacSha256)"

definition algos_ok :: "algos \<Rightarrow> bool" where
  "algos_ok al \<longleftrightarrow> integ_fits (al_cipher_enc al) (al_integ_enc al) \<and> integ_fits (al_cipher_dec al) (al_integ_dec al)"

definition send_letters :: "bool \<Rightarrow> char \<times> char \<times> char" where
  "send_letters is_client =
     (if is_client then (CHR ''A'', CHR ''C'', CHR ''E'') else (CHR ''B'', CHR ''D'', CHR ''F''))"

text \<open>The keys of a direction, from its letters, cipher and MAC.\<close>

definition direction_keys ::
  "crypto \<Rightarrow> kex_output \<Rightarrow> bytes \<Rightarrow> char \<times> char \<times> char \<Rightarrow> cipher \<Rightarrow> integ \<Rightarrow> (bytes \<times> bytes \<times> bytes) ssh_result" where
  "direction_keys cr ko sid ls c i =
     (let (iv_l, k_l, i_l) = ls in
      and_then (compute_key cr ko iv_l (cipher_iv_len c) MAX_IV_LEN sid) (\<lambda>ci.
      and_then (compute_key cr ko k_l (cipher_key_len c) MAX_KEY_LEN sid) (\<lambda>ck.
      and_then (compute_key cr ko i_l (integ_key_len i) MAX_KEY_LEN sid) (\<lambda>ik.
      Inr (ci, ck, ik)))))"

lemma direction_keys_ok:
  assumes "crypto_ok cr"
  obtains ci ck ik where "direction_keys cr ko sid ls c i = Inr (ci, ck, ik)"
    "length ci = cipher_iv_len c" "length ck = cipher_key_len c" "length ik = integ_key_len i"
proof -
  obtain a b d where ls: "ls = (a, b, d)" by (cases ls)
  have c: "cipher_iv_len c \<le> 32" "cipher_key_len c \<le> 64" by (cases c; simp add: CHAPOLY_KEY_LEN_def)+
  have i: "integ_key_len i \<le> 64" by (cases i) auto
  obtain ci where ci: "compute_key cr ko a (cipher_iv_len c) 32 sid = Inr ci" "length ci = cipher_iv_len c"
    by (rule length_compute_key [OF assms c(1)]) auto
  obtain ck where ck: "compute_key cr ko b (cipher_key_len c) 64 sid = Inr ck" "length ck = cipher_key_len c"
    by (rule length_compute_key [OF assms c(2)]) auto
  obtain ik where ik: "compute_key cr ko d (integ_key_len i) 64 sid = Inr ik" "length ik = integ_key_len i"
    by (rule length_compute_key [OF assms i]) auto
  show ?thesis
    using that ci ck ik by (simp add: direction_keys_def ls MAX_IV_LEN_def MAX_KEY_LEN_def)
qed

lemma from_keys_ok:
  assumes "length ci = cipher_iv_len c" "length ck = cipher_key_len c" "length ik = integ_key_len i" "integ_fits c i"
  obtains e d j where "enc_key_from_cipher c ck ci = Inr e" "dec_key_from_cipher c ck ci = Inr d"
    "integ_key_from_integ i ik = Inr j" "paired_keys e d" "keys_ok e j"
  using assms that
  by (cases c; cases i)
     (auto simp: integ_fits_def chapoly_new_from_slice_def aes_new_from_slices_def trap_result_def)

text \<open>
  One end's sending keys and the other end's receiving keys come from the same letters, so they are paired
  when the ends agree on the output of the exchange, the session and the algorithms of the direction.
\<close>

lemma keys_new_direction:
  assumes "direction_keys cr ko sid (send_letters c) (al_cipher_enc al) (al_integ_enc al) = Inr (ci, ck, ik)"
    "enc_key_from_cipher (al_cipher_enc al) ck ci = Inr e" "integ_key_from_integ (al_integ_enc al) ik = Inr j"
  shows "keys_send_new cr c ko sid al = Inr \<lparr>s_cipher = e, s_integ = j\<rparr>"
  using assms
  by (auto simp: direction_keys_def send_letters_def keys_send_new_def and_then_Inr_eq unwrap_result_def
      split: if_splits)

lemma keys_recv_direction:
  assumes "direction_keys cr ko sid (send_letters (\<not> c)) (al_cipher_dec al) (al_integ_dec al) = Inr (ci, ck, ik)"
    "dec_key_from_cipher (al_cipher_dec al) ck ci = Inr d" "integ_key_from_integ (al_integ_dec al) ik = Inr j"
  shows "keys_recv_new cr c ko sid al = Inr \<lparr>r_cipher = d, r_integ = j\<rparr>"
  using assms
  by (auto simp: direction_keys_def send_letters_def keys_recv_new_def and_then_Inr_eq unwrap_result_def
      split: if_splits)

lemma keys_paired:
  assumes "crypto_ok cr" "algos_ok a"
    and "al_cipher_dec b = al_cipher_enc a" "al_integ_dec b = al_integ_enc a"
  obtains ks kr where "keys_send_new cr c ko sid a = Inr ks" "keys_recv_new cr (\<not> c) ko sid b = Inr kr" "paired ks kr"
proof -
  obtain ci ck ik where
    k: "direction_keys cr ko sid (send_letters c) (al_cipher_enc a) (al_integ_enc a) = Inr (ci, ck, ik)"
    "length ci = cipher_iv_len (al_cipher_enc a)" "length ck = cipher_key_len (al_cipher_enc a)"
    "length ik = integ_key_len (al_integ_enc a)"
    by (rule direction_keys_ok [OF assms(1)])
  obtain e d j where f: "enc_key_from_cipher (al_cipher_enc a) ck ci = Inr e"
    "dec_key_from_cipher (al_cipher_enc a) ck ci = Inr d" "integ_key_from_integ (al_integ_enc a) ik = Inr j"
    "paired_keys e d" "keys_ok e j"
    using from_keys_ok [OF k(2-4)] assms(2) by (auto simp: algos_ok_def)
  have "keys_send_new cr c ko sid a = Inr \<lparr>s_cipher = e, s_integ = j\<rparr>"
    using keys_new_direction [OF k(1) f(1,3)] .
  moreover have "keys_recv_new cr (\<not> c) ko sid b = Inr \<lparr>r_cipher = d, r_integ = j\<rparr>"
    by (rule keys_recv_direction) (use k(1) f(2,3) assms(3,4) in auto)
  ultimately show ?thesis
    using that f(4,5) by (simp add: paired_def keys_send_ok_def)
qed

lemma keys_send_new_ok:
  assumes "crypto_ok cr" "algos_ok a"
  obtains ks where "keys_send_new cr c ko sid a = Inr ks" "keys_send_ok ks"
  using keys_paired [OF assms, of "a\<lparr>al_cipher_dec := al_cipher_enc a, al_integ_dec := al_integ_enc a\<rparr>" c ko sid] that
  by (auto simp: paired_def)

lemma keys_recv_new_ok:
  assumes "crypto_ok cr" "algos_ok a"
  obtains kr where "keys_recv_new cr c ko sid a = Inr kr"
  using keys_paired [OF assms(1), of "a\<lparr>al_cipher_enc := al_cipher_dec a, al_integ_enc := al_integ_dec a\<rparr>" a "\<not> c" ko sid]
    assms(2) that
  by (auto simp: algos_ok_def)

subsection \<open>Shared secrets\<close>

lemma hash_slice_eq: "hash_slice v h = h @ be32 (word_of_nat (length v)) @ v"
  by (simp add: hash_slice_def hash_ser_eq)

lemma kex_key_hash_ok: "\<exists>b. \<forall>h. kex_key_hash k h = Inr (h @ b)"
  by (cases k) (auto simp: hash_slice_eq hash_mpint_def hash_ser_eq)

lemma kex_output_new_ok:
  obtains ko where "kex_output_new cr k h = Inr ko" "\<exists>m. ko_h ko = sha256 cr m"
proof -
  obtain b where "\<forall>h. kex_key_hash k h = Inr (h @ b)" using kex_key_hash_ok by blast
  with that show ?thesis by (auto simp: kex_output_new_def kex_hash_finish_def)
qed

text \<open>A secret that has not been used.\<close>

definition fresh_curve :: "crypto \<Rightarrow> kex_curve25519 \<Rightarrow> bool" where
  "fresh_curve cr k \<longleftrightarrow> (\<exists>a. kc_ours k = Some a \<and> kc_pubkey k = x25519_public cr a)"

fun fresh_secret :: "crypto \<Rightarrow> shared_secret \<Rightarrow> bool" where
  "fresh_secret cr (KexCurve25519 k) \<longleftrightarrow> fresh_curve cr k"
| "fresh_secret cr (KexMlkemX25519 k) \<longleftrightarrow> fresh_curve cr (km_ecdh k)"

fun same_kind :: "shared_secret \<Rightarrow> shared_secret \<Rightarrow> bool" where
  "same_kind (KexCurve25519 _) (KexCurve25519 _) \<longleftrightarrow> True"
| "same_kind (KexMlkemX25519 _) (KexMlkemX25519 _) \<longleftrightarrow> True"
| "same_kind _ _ \<longleftrightarrow> False"

lemma raw_secret_fresh:
  assumes "fresh_curve cr k" "length theirs = 32"
  obtains a where "raw_secret cr theirs k = Inr (x25519_diffie_hellman cr a theirs, k\<lparr>kc_ours := None\<rparr>)"
    "kc_pubkey k = x25519_public cr a"
  using assms that by (auto simp: raw_secret_def fresh_curve_def trap_option_def)

text \<open>The result of the Diffie-Hellman half is the same for both ends.\<close>

lemma raw_secrets_agree:
  assumes "kex_crypto_ok cr" "fresh_curve cr c" "fresh_curve cr s"
  obtains sec where "raw_secret cr (kc_pubkey s) c = Inr (sec, c\<lparr>kc_ours := None\<rparr>)"
    "raw_secret cr (kc_pubkey c) s = Inr (sec, s\<lparr>kc_ours := None\<rparr>)"
  using assms that by (auto simp: raw_secret_def fresh_curve_def kex_crypto_ok_def trap_option_def)

lemma curve_agrees:
  assumes "kex_crypto_ok cr" "fresh_curve cr c" "fresh_curve cr s"
  obtains ko where "curve25519_secret cr (kc_pubkey s) h True c = Inr (ko, c\<lparr>kc_ours := None\<rparr>)"
    "curve25519_secret cr (kc_pubkey c) h False s = Inr (ko, s\<lparr>kc_ours := None\<rparr>)"
proof -
  obtain sec where "raw_secret cr (kc_pubkey s) c = Inr (sec, c\<lparr>kc_ours := None\<rparr>)"
    "raw_secret cr (kc_pubkey c) s = Inr (sec, s\<lparr>kc_ours := None\<rparr>)"
    by (rule raw_secrets_agree [OF assms])
  moreover obtain ko where "kex_output_new cr (KexKeyMpint sec) (hash_pubkeys (kc_pubkey c) (kc_pubkey s) h) = Inr ko"
    by (rule kex_output_new_ok)
  ultimately show ?thesis using that by (simp add: curve25519_secret_def Let_def)
qed

lemma mlkem_agrees:
  assumes ok: "kex_crypto_ok cr" "fresh_curve cr (km_ecdh c)" "fresh_curve cr (km_ecdh s)"
    and q_c: "init_pubkey_arr_client cr c ts0 = (Inr (q_c, c'), ts1)"
    and srv: "secret_encap_server cr q_c h s ts = (Inr (ko, q_s, s'), ts')"
  shows "\<exists>c''. secret_decap_client cr q_s h c' = Inr (ko, c'')"
proof -
  obtain seed where seed: "q_c = mlkem_encapsulation_key cr seed @ kc_pubkey (km_ecdh c)"
    "c' = c\<lparr>km_mlkem_seed := Some seed\<rparr>"
    using q_c by (auto simp: init_pubkey_arr_client_def st_bind_Inr_eq st_lift_def pubkey_client_def)
  define ek where "ek = mlkem_encapsulation_key cr seed"
  have ek: "length ek = 1184" "mlkem_key_valid cr ek"
    using ok(1) by (simp_all add: kex_crypto_ok_def ek_def)
  have split: "split_at_checked MLKEM768_PUBKEY_SIZE q_c = Some (ek, kc_pubkey (km_ecdh c))"
    using ek(1) by (simp add: seed(1) split_at_checked_def MLKEM768_PUBKEY_SIZE_def flip: ek_def)
  obtain m where m: "and_then (derive_secret cr (snd (mlkem_encapsulate cr ek m)) (kc_pubkey (km_ecdh c))
         (hash_pubkeys q_c (fst (mlkem_encapsulate cr ek m) @ kc_pubkey (km_ecdh s)) h) s)
       (\<lambda>(ko, k). Inr (ko, fst (mlkem_encapsulate cr ek m) @ kc_pubkey (km_ecdh s), k)) = Inr (ko, q_s, s')"
    using srv ek(2)
    by (auto simp: secret_encap_server_def st_bind_Inr_eq st_lift_def split ok_or_Inr_eq Let_def split_beta)
  define ct ss where "ct = fst (mlkem_encapsulate cr ek m)" and "ss = snd (mlkem_encapsulate cr ek m)"
  have kem: "length ct = 1088" "mlkem_decapsulate cr seed ct = ss"
    using ok(1) by (auto simp: kex_crypto_ok_def ct_def ss_def ek_def split_beta)
  obtain sec where sec: "raw_secret cr (kc_pubkey (km_ecdh s)) (km_ecdh c) = Inr (sec, (km_ecdh c)\<lparr>kc_ours := None\<rparr>)"
    "raw_secret cr (kc_pubkey (km_ecdh c)) (km_ecdh s) = Inr (sec, (km_ecdh s)\<lparr>kc_ours := None\<rparr>)"
    by (rule raw_secrets_agree [OF ok])
  have q_s: "q_s = ct @ kc_pubkey (km_ecdh s)"
    "kex_output_new cr (KexKeyString (sha256 cr (ss @ sec))) (hash_pubkeys q_c q_s h) = Inr ko"
    using m sec(2) by (auto simp: derive_secret_def and_then_Inr_eq simp flip: ct_def ss_def)
  have "split_at_checked MLKEM768_CIPHERTEXT_SIZE q_s = Some (ct, kc_pubkey (km_ecdh s))"
    using kem(1) by (simp add: q_s(1) split_at_checked_def MLKEM768_CIPHERTEXT_SIZE_def)
  with sec(1) kem(2) q_s(2) [unfolded seed(1)] show ?thesis
    by (simp add: secret_decap_client_def derive_secret_def seed(2) trap_option_def pubkey_client_def Let_def)
qed

lemma secrets_agree:
  assumes ok: "kex_crypto_ok cr" "fresh_secret cr c" "fresh_secret cr s" "same_kind c s"
    and q_c: "shared_secret_q_c cr c ts0 = (Inr (q_c, c'), ts1)"
    and srv: "server_secret cr q_c h s ts = (Inr (ko, q_s, s'), ts')"
  shows "\<exists>c''. client_secret cr q_s h c' = Inr (ko, c'')"
proof (cases c)
  case (KexCurve25519 kc)
  then obtain ks where s: "s = KexCurve25519 ks" using ok(4) by (cases s) auto
  obtain ko2 where k: "curve25519_secret cr (kc_pubkey ks) h True kc = Inr (ko2, kc\<lparr>kc_ours := None\<rparr>)"
    "curve25519_secret cr (kc_pubkey kc) h False ks = Inr (ko2, ks\<lparr>kc_ours := None\<rparr>)"
    using curve_agrees [OF ok(1), of kc ks h] ok(2,3) KexCurve25519 s by auto
  then show ?thesis
    using q_c srv KexCurve25519 s by (auto simp: st_lift_def)
next
  case (KexMlkemX25519 kc)
  then obtain ks where s: "s = KexMlkemX25519 ks" using ok(4) by (cases s) auto
  obtain kc' where c': "init_pubkey_arr_client cr kc ts0 = (Inr (q_c, kc'), ts1)" "c' = KexMlkemX25519 kc'"
    using q_c KexMlkemX25519 by (auto simp: st_bind_Inr_eq st_lift_def)
  obtain ks' where "secret_encap_server cr q_c h ks ts = (Inr (ko, q_s, ks'), ts')"
    using srv s by (auto simp: st_bind_Inr_eq st_lift_def)
  from mlkem_agrees [OF ok(1) _ _ c'(1) this] ok(2,3) KexMlkemX25519 s c'(2) show ?thesis by auto
qed

subsection \<open>Negotiation\<close>

definition conf_ok :: "algo_config \<Rightarrow> bool" where
  "conf_ok conf \<longleftrightarrow> (\<forall>l \<in> {ac_kexs conf, ac_hostsig conf, ac_ciphers conf, ac_macs conf, ac_comps conf}.
     l \<noteq> [] \<and> (\<forall>n \<in> set l. CHR '','' \<notin> set n))"

text \<open>The configuration of the program; no list overflows.\<close>

definition std_config :: "bool \<Rightarrow> algo_config" where
  "std_config c =
     \<lparr>ac_kexs = fixed_options_kex
        @ (if c then [SSH_NAME_EXT_INFO_C, SSH_NAME_STRICT_KEX_C] else [SSH_NAME_STRICT_KEX_S]) @ [SSH_NAME_KEXGUESS2],
      ac_hostsig = fixed_options_hostsig, ac_ciphers = fixed_options_cipher, ac_macs = fixed_options_mac,
      ac_comps = fixed_options_comp\<rparr>"

lemmas fixed_options_defs = fixed_options_kex_def fixed_options_hostsig_def fixed_options_cipher_def
  fixed_options_mac_def fixed_options_comp_def

lemma algo_config_new_eq: "algo_config_new c = Inr (std_config c)"
  by (simp add: algo_config_new_def std_config_def local_names_try_from_def local_names_push_def panic_option_def
      MAX_LOCAL_NAMES_def fixed_options_defs)

lemma std_config_ok: "conf_ok (std_config c)"
  by (simp add: conf_ok_def std_config_def fixed_options_defs ssh_name_defs)

definition sent_kexinit :: "bytes \<Rightarrow> algo_config \<Rightarrow> kex_init" where
  "sent_kexinit cookie conf = (case make_kexinit cookie conf of KexInit k \<Rightarrow> k)"

lemma sent_kexinit: "make_kexinit cookie conf = KexInit (sent_kexinit cookie conf)"
  by (simp add: sent_kexinit_def make_kexinit_def)

text \<open>The client's first choice that the server has, whichever end asks.\<close>

lemma match_algo_agrees:
  assumes "kex_crypto_ok cr" "cli \<noteq> []" "srv \<noteq> []" "\<forall>n \<in> set cli \<union> set srv. CHR '','' \<notin> set n"
  shows "match_algo cr True kind (StringNames (join_comma srv)) cli
       = match_algo cr False kind (StringNames (join_comma cli)) srv"
  using first_match_agrees [OF _ assms(2-4), of "ascii_split cr"] assms(1)
  by (simp add: match_algo_def kex_crypto_ok_def)

lemma algo_negotiation_Inr:
  assumes "algo_negotiation cr c p conf ts = (Inr a, ts')"
  obtains kex_method hostsig_method where
    "match_algo cr c ''kex'' (ki_kex p) (ac_kexs conf) = Inr kex_method" "kex_method \<notin> set marker_only_kexs"
    "shared_secret_from_name cr kex_method ts = (Inr (al_kex a), ts')"
    "match_algo cr c ''hostkey'' (ki_hostsig p) (ac_hostsig conf) = Inr hostsig_method"
    "sig_type_from_name hostsig_method = Inr (al_hostsig a)"
    "and_then (match_algo cr c ''encryption'' (if c then ki_cipher_c2s p else ki_cipher_s2c p) (ac_ciphers conf))
       cipher_from_name = Inr (al_cipher_enc a)"
    "and_then (match_algo cr c ''encryption'' (if c then ki_cipher_s2c p else ki_cipher_c2s p) (ac_ciphers conf))
       cipher_from_name = Inr (al_cipher_dec a)"
    "negotiate_integ cr c (al_cipher_enc a) (if c then ki_mac_c2s p else ki_mac_s2c p) (ac_macs conf) = Inr (al_integ_enc a)"
    "negotiate_integ cr c (al_cipher_dec a) (if c then ki_mac_s2c p else ki_mac_c2s p) (ac_macs conf) = Inr (al_integ_dec a)"
    "has_algo (ascii_split cr) (ki_kex p) (if c then SSH_NAME_STRICT_KEX_S else SSH_NAME_STRICT_KEX_C) = Inr (al_strict_kex a)"
    "ki_first_follows p \<or> \<not> al_discard_next a"
  using assms that
  by (cases c) (auto simp: algo_negotiation_def st_bind_Inr_eq st_lift_def Let_def unwrap_result_def map_err_Inr_eq
      split: if_splits)

lemma shared_secret_from_name_fresh:
  "shared_secret_from_name cr name ts = (Inr ss, ts') \<Longrightarrow> fresh_secret cr ss"
  by (auto simp: shared_secret_from_name_def kex_curve25519_new_def kex_mlkem_new_def st_bind_Inr_eq st_lift_def
      fresh_curve_def split: if_splits)

lemma shared_secret_from_name_kind:
  "shared_secret_from_name cr name ts = (Inr ss, ts') \<Longrightarrow> shared_secret_from_name cr name us = (Inr ss', us') \<Longrightarrow>
     same_kind ss ss'"
  by (auto simp: shared_secret_from_name_def kex_curve25519_new_def kex_mlkem_new_def st_bind_Inr_eq st_lift_def
      split: if_splits)

lemma negotiate_integ_fits: "negotiate_integ cr c ci l conf = Inr i \<Longrightarrow> integ_fits ci i"
  by (cases ci) (auto simp: negotiate_integ_def integ_fits_def and_then_Inr_eq integ_from_name_def split: if_splits)

text \<open>\<open>a\<close> is what the client negotiated, \<open>b\<close> what the server did.\<close>

definition algos_agree :: "algos \<Rightarrow> algos \<Rightarrow> bool" where
  "algos_agree a b \<longleftrightarrow> same_kind (al_kex a) (al_kex b) \<and> al_hostsig a = al_hostsig b
     \<and> al_cipher_enc a = al_cipher_dec b \<and> al_cipher_dec a = al_cipher_enc b
     \<and> al_integ_enc a = al_integ_dec b \<and> al_integ_dec a = al_integ_enc b"

lemma negotiated_ok:
  assumes "algo_negotiation cr c p conf ts = (Inr a, ts')"
  shows "algos_ok a" "fresh_secret cr (al_kex a)"
  using assms
  by (rule algo_negotiation_Inr; auto simp: algos_ok_def intro: negotiate_integ_fits shared_secret_from_name_fresh)+

lemma negotiation_agrees:
  assumes cr: "kex_crypto_ok cr" and conf: "conf_ok cc" "conf_ok sc"
    and cli: "algo_negotiation cr True (received_kex_init (sent_kexinit sk sc)) cc ts = (Inr a, ts')"
    and srv: "algo_negotiation cr False (received_kex_init (sent_kexinit ck cc)) sc us = (Inr b, us')"
  shows "algos_agree a b"
proof -
  let ?m = "match_algo cr True" and ?n = "match_algo cr False"
  have m: "?m k (StringNames (join_comma (f sc))) (f cc) = ?n k (StringNames (join_comma (f cc))) (f sc)"
    if "f \<in> {ac_kexs, ac_hostsig, ac_ciphers, ac_macs, ac_comps}" for f k
    using that conf by (intro match_algo_agrees [OF cr]) (auto simp: conf_ok_def)
  note lists = received_kex_init_def received_list_def sent_kexinit_def make_kexinit_def
  from cli obtain k1 h1 where
    c: "?m ''kex'' (StringNames (join_comma (ac_kexs sc))) (ac_kexs cc) = Inr k1"
    "shared_secret_from_name cr k1 ts = (Inr (al_kex a), ts')"
    "?m ''hostkey'' (StringNames (join_comma (ac_hostsig sc))) (ac_hostsig cc) = Inr h1"
    "sig_type_from_name h1 = Inr (al_hostsig a)"
    "and_then (?m ''encryption'' (StringNames (join_comma (ac_ciphers sc))) (ac_ciphers cc)) cipher_from_name = Inr (al_cipher_enc a)"
    "and_then (?m ''encryption'' (StringNames (join_comma (ac_ciphers sc))) (ac_ciphers cc)) cipher_from_name = Inr (al_cipher_dec a)"
    "negotiate_integ cr True (al_cipher_enc a) (StringNames (join_comma (ac_macs sc))) (ac_macs cc) = Inr (al_integ_enc a)"
    "negotiate_integ cr True (al_cipher_dec a) (StringNames (join_comma (ac_macs sc))) (ac_macs cc) = Inr (al_integ_dec a)"
    by (rule algo_negotiation_Inr) (simp add: lists)
  from srv obtain k2 h2 where
    s: "?n ''kex'' (StringNames (join_comma (ac_kexs cc))) (ac_kexs sc) = Inr k2"
    "shared_secret_from_name cr k2 us = (Inr (al_kex b), us')"
    "?n ''hostkey'' (StringNames (join_comma (ac_hostsig cc))) (ac_hostsig sc) = Inr h2"
    "sig_type_from_name h2 = Inr (al_hostsig b)"
    "and_then (?n ''encryption'' (StringNames (join_comma (ac_ciphers cc))) (ac_ciphers sc)) cipher_from_name = Inr (al_cipher_enc b)"
    "and_then (?n ''encryption'' (StringNames (join_comma (ac_ciphers cc))) (ac_ciphers sc)) cipher_from_name = Inr (al_cipher_dec b)"
    "negotiate_integ cr False (al_cipher_enc b) (StringNames (join_comma (ac_macs cc))) (ac_macs sc) = Inr (al_integ_enc b)"
    "negotiate_integ cr False (al_cipher_dec b) (StringNames (join_comma (ac_macs cc))) (ac_macs sc) = Inr (al_integ_dec b)"
    by (rule algo_negotiation_Inr) (simp add: lists)
  have kinds: "k2 = k1" "h2 = h1" using m [of ac_kexs] m [of ac_hostsig] c(1,3) s(1,3) by auto
  have cs: "al_cipher_enc a = al_cipher_dec b" "al_cipher_dec a = al_cipher_enc b"
    using m [of ac_ciphers] c(5,6) s(5,6) by auto
  have mm: "?m k (StringNames (join_comma (ac_macs sc))) (ac_macs cc) = ?n k (StringNames (join_comma (ac_macs cc))) (ac_macs sc)"
    for k by (rule m) simp
  have n: "negotiate_integ cr True x (StringNames (join_comma (ac_macs sc))) (ac_macs cc)
    = negotiate_integ cr False x (StringNames (join_comma (ac_macs cc))) (ac_macs sc)" for x
    by (cases "cipher_integ x") (simp_all add: negotiate_integ_def mm)
  show ?thesis
    using kinds cs n c s shared_secret_from_name_kind [OF c(2)] by (auto simp: algos_agree_def)
qed

subsection \<open>The exchange hash\<close>

lemma hash_ser_length_cong:
  "emitted p = emitted q \<Longrightarrow> failure p = failure q \<Longrightarrow> hash_ser_length h p = hash_ser_length h q"
  by (cases "failure q") (simp_all add: hash_ser_length_def hash_ser_eq length_enc_eq)

text \<open>A \<open>KexInit\<close> that was received is encoded for the hash as it was sent.\<close>

lemma emitted_received_list: "emitted (enc_name_list (received_list l)) = emitted (enc_name_list l)"
  by (cases l) (simp_all add: received_list_def enc_local_names_eq)

lemma reencode_kexinit:
  "hash_ser_length h (enc_packet (KexInit (received_kex_init k))) = hash_ser_length h (enc_packet (KexInit k))"
  by (rule hash_ser_length_cong)
     (simp_all add: enc_packet_def enc_simps enc_kex_init_def received_kex_init_def emitted_received_list)

lemma kex_hash_agrees:
  assumes "version cv = Inr (Some OUR_VERSION)" "version sv = Inr (Some OUR_VERSION)"
  shows "kex_hash_new True cc ck cv (KexInit (received_kex_init (sent_kexinit sk sc)))
       = kex_hash_new False sc sk sv (KexInit (received_kex_init (sent_kexinit ck cc)))"
  using assms by (simp add: kex_hash_new_def trap_option_def sent_kexinit reencode_kexinit Let_def)

subsection \<open>The exchange\<close>

text \<open>
  The client accepts the answer that the server sends to its \<open>KexDHInit\<close>, and both have the same output.
\<close>

lemma server_reply_accepted:
  assumes ok: "kex_crypto_ok cr" "sign_crypto_ok cr"
    and al: "algos_agree a b" "fresh_secret cr (al_kex a)" "fresh_secret cr (al_kex b)"
    and q_c: "shared_secret_q_c cr (al_kex a) ts0 = (Inr (q_c, ss), ts1)"
    and srv: "shared_secret_handle_kexdhinit cr b h keys q_c us = (Inr (ko, b'), us')"
  obtains k_s q_s sig us1 ss' where "ts_send cr (KexDHReply k_s q_s sig) us1 = (Inr (), us')"
    "shared_secret_handle_kexdhreply cr (a\<lparr>al_kex := ss\<rparr>) h k_s q_s sig = Inr (ko, a\<lparr>al_kex := ss'\<rparr>)"
    "\<exists>hk \<in> set keys. k_s = sign_key_pubkey cr hk"
proof -
  obtain hk h1 q_s us1 sb osig where
    s: "List.find (\<lambda>k. sign_key_can_sign k (al_hostsig b)) keys = Some hk"
    "hash_hostkey (sign_key_pubkey cr hk) h = Inr h1"
    "server_secret cr q_c h1 (al_kex b) us = (Inr (ko, q_s, sb), us1)"
    "sign_key_sign cr hk (enc_array (ko_h ko)) = Inr osig"
    "ts_send cr (KexDHReply (sign_key_pubkey cr hk) q_s (signature_from_owned osig)) us1 = (Inr (), us')"
    using srv
    by (auto simp: shared_secret_handle_kexdhinit_def st_bind_Inr_eq st_lift_def ok_or_Inr_eq send_kexdhreply_def
        split: if_splits)
  have ag: "same_kind (al_kex a) (al_kex b)" "al_hostsig a = al_hostsig b"
    using al(1) by (simp_all add: algos_agree_def)
  obtain ss' where c: "client_secret cr q_s h1 ss = Inr (ko, ss')"
    using secrets_agree [OF ok(1) al(2,3) ag(1) q_c s(3)] by blast
  have hk: "sign_key_can_sign hk (al_hostsig b)" "hk \<in> set keys"
    using s(1) by (auto simp: find_Some_iff)
  have "al_hostsig a = SigTypeEd25519" using hk(1) s(4) ag(2) by (cases hk) auto
  then have "sig_type_verify cr (al_hostsig a) (sign_key_pubkey cr hk) (enc_array (ko_h ko)) (signature_from_owned osig) = Inr ()"
    using sign_verify [OF ok(2) s(4)] by simp
  with c s(2) have "shared_secret_handle_kexdhreply cr (a\<lparr>al_kex := ss\<rparr>) h (sign_key_pubkey cr hk) q_s
      (signature_from_owned osig) = Inr (ko, a\<lparr>al_kex := ss'\<rparr>)"
    by (simp add: shared_secret_handle_kexdhreply_def)
  then show ?thesis using that s(5) hk(2) by blast
qed

text \<open>A client takes the keys into use only if the host key signed the hash of this exchange.\<close>

lemma client_verifies:
  assumes "shared_secret_handle_kexdhreply cr a h k_s q_s sig = Inr (ko, a')"
  shows "\<exists>k s. k_s = PubKeyEd25519 k \<and> sig = SigEd25519 s \<and> ed25519_verify cr k (ko_h ko) s"
  using assms
  by (auto simp: shared_secret_handle_kexdhreply_def and_then_Inr_eq verify_Inr)

subsection \<open>The state machine\<close>

text \<open>
  The secret of a \<open>KexDH\<close> state has not been used, so \<open>Option::take\<close> finds it; a client has sent its
  half.
\<close>

fun ready_secret :: "crypto \<Rightarrow> bool \<Rightarrow> shared_secret \<Rightarrow> bool" where
  "ready_secret cr c (KexCurve25519 k) \<longleftrightarrow> fresh_curve cr k"
| "ready_secret cr c (KexMlkemX25519 k) \<longleftrightarrow> fresh_curve cr (km_ecdh k) \<and> (c \<longrightarrow> km_mlkem_seed k \<noteq> None)"

fun kex_state_ok :: "crypto \<Rightarrow> bool \<Rightarrow> bytes option \<Rightarrow> kex \<Rightarrow> bool" where
  "kex_state_ok cr c sid (StartKexDH _ al _) \<longleftrightarrow> algos_ok al \<and> fresh_secret cr (al_kex al)"
| "kex_state_ok cr c sid (KexDH al _) \<longleftrightarrow> algos_ok al \<and> ready_secret cr c (al_kex al)"
| "kex_state_ok cr c sid (KexNewKeys _ al) \<longleftrightarrow> algos_ok al \<and> sid \<noteq> None"
| "kex_state_ok cr c sid KexTaken \<longleftrightarrow> False"
| "kex_state_ok cr c sid _ \<longleftrightarrow> True"

text \<open>The state that waits for the output to drain.\<close>

fun kex_draining :: "kex \<Rightarrow> bool" where
  "kex_draining StartKexInit = True"
| "kex_draining (StartKexDH _ _ _) = True"
| "kex_draining _ = False"

definition kex_inv :: "crypto \<Rightarrow> bool \<Rightarrow> bytes option \<Rightarrow> kex \<Rightarrow> traf_send \<Rightarrow> bool" where
  "kex_inv cr c sid k ts \<longleftrightarrow> kex_state_ok cr c sid k
     \<and> sending_kex (ts_out ts) = kex_is_sending k \<and> drain (ts_out ts) = kex_draining k"

lemma kex_inv_new: "sending_kex (ts_out ts) = False \<Longrightarrow> drain (ts_out ts) = False \<Longrightarrow> kex_inv cr c sid kex_new ts"
  by (simp add: kex_inv_def kex_new_def)

lemma ts_drain_simps [simp]:
  "drain (ts_out (ts_set_drain_output d ts)) = d"
  "sending_kex (ts_out (ts_set_drain_output d ts)) = sending_kex (ts_out ts)"
  "ts_out (ts_enable_strict_kex ts) = ts_out ts" "ts_out (ts_rekey_send ks ts) = ts_out ts"
  "ts_out (ts_rekey_recv kr ts) = ts_out ts"
  by (simp_all add: ts_set_drain_output_def set_drain_output_def ts_enable_strict_kex_def ts_rekey_send_def
      ts_rekey_recv_def)

lemma ts_fill_random_out: "ts_fill_random cr n ts = (r, ts') \<Longrightarrow> ts_out ts' = ts_out ts"
  by (auto simp: ts_fill_random_def)

lemma ts_rng_out: "ts_rng cr n ts = (r, ts') \<Longrightarrow> ts_out ts' = ts_out ts"
  by (auto simp: ts_rng_def dest!: ts_fill_random_out split: prod.splits)

lemma ts_sent:
  "ts_send cr p ts = (Inr (), ts') \<Longrightarrow>
     drain (ts_out ts') = drain (ts_out ts) \<and> sending_kex (ts_out ts') = sending_after p (sending_kex (ts_out ts))"
  using ts_send_flags by blast

lemma sending_after_simps [simp]:
  "sending_after (KexDHInit q) b = b" "sending_after (KexDHReply k q s) b = b"
  "sending_after NewKeys b = False" "sending_after (make_kexinit c conf) b = True"
  by (simp_all add: sending_after_def make_kexinit_def)

lemma shared_secret_q_c_ready:
  assumes "shared_secret_q_c cr ss ts = (Inr (q_c, ss'), ts')" "fresh_secret cr ss"
  shows "ready_secret cr True ss'" "ts_out ts' = ts_out ts"
  using assms by (cases ss; auto simp: st_bind_Inr_eq st_lift_def init_pubkey_arr_client_def dest!: ts_fill_random_out)+

lemma send_kexdhinit_ok:
  assumes "send_kexdhinit cr ss ts = (Inr ss', ts')" "fresh_secret cr ss"
  shows "ready_secret cr True ss'" "sending_kex (ts_out ts') = sending_kex (ts_out ts)"
    "drain (ts_out ts') = drain (ts_out ts)"
proof -
  obtain q_c ts1 where q: "shared_secret_q_c cr ss ts = (Inr (q_c, ss'), ts1)"
    and t: "ts_send cr (KexDHInit q_c) ts1 = (Inr (), ts')"
    using assms(1) by (auto simp: send_kexdhinit_def st_bind_Inr_eq st_lift_def)
  from shared_secret_q_c_ready [OF q assms(2)] ts_send_flags [OF t]
  show "ready_secret cr True ss'" "sending_kex (ts_out ts') = sending_kex (ts_out ts)"
    "drain (ts_out ts') = drain (ts_out ts)" by auto
qed

lemma fresh_ready: "fresh_secret cr ss \<Longrightarrow> ready_secret cr False ss"
  by (cases ss) auto

lemma kex_step_Inr: "kex_step k m ts = (Inr (), k', ts') \<longleftrightarrow> m ts = (Inr k', ts')"
  by (auto simp: kex_step_def split: prod.splits sum.splits)

lemma kex_progress_inv:
  assumes "kex_progress cr c conf k ts = (Inr (), k', ts')" "kex_inv cr c sid k ts"
  shows "kex_inv cr c sid k' ts'"
  using assms
proof (cases k)
  case StartKexInit
  with assms show ?thesis
    by (auto simp: kex_step_Inr st_bind_Inr_eq st_lift_def kex_inv_def kex_cookie_generate_def dest!: ts_sent ts_fill_random_out
        split: if_splits)
next
  case (StartKexDH cookie al h)
  show ?thesis
  proof (cases "ts_is_drained ts")
    case True
    then obtain ts1 where s: "ts_send cr (make_kexinit cookie conf) (ts_set_drain_output False ts) = (Inr (), ts1)"
      and r: "(if c then st_bind (send_kexdhinit cr (al_kex al)) (\<lambda>ss. st_lift (Inr (KexDH (al\<lparr>al_kex := ss\<rparr>) h)))
         else st_lift (Inr (KexDH al h))) ts1 = (Inr k', ts')"
      using assms(1) StartKexDH by (auto simp: kex_step_Inr st_bind_Inr_eq)
    have f: "sending_kex (ts_out ts1)" "\<not> drain (ts_out ts1)"
      using ts_send_flags(1,3) [OF s] by auto
    have al: "algos_ok al" "fresh_secret cr (al_kex al)"
      using assms(2) StartKexDH by (simp_all add: kex_inv_def)
    show ?thesis
    proof (cases c)
      case True
      with r obtain ss where "send_kexdhinit cr (al_kex al) ts1 = (Inr ss, ts')" "k' = KexDH (al\<lparr>al_kex := ss\<rparr>) h"
        by (auto simp: st_bind_Inr_eq st_lift_def)
      with send_kexdhinit_ok [OF this(1) al(2)] f al(1) True show ?thesis by (auto simp: kex_inv_def algos_ok_def)
    qed (use r f al fresh_ready in \<open>auto simp: kex_inv_def st_lift_def\<close>)
  qed (use assms StartKexDH in simp)
qed (auto simp: start_kexinit_def kex_inv_def split: if_splits)

lemma shared_secret_from_name_out: "shared_secret_from_name cr name ts = (r, ts') \<Longrightarrow> ts_out ts' = ts_out ts"
  by (auto simp: shared_secret_from_name_def kex_curve25519_new_def kex_mlkem_new_def st_lift_def
      elim!: st_bind_cases dest!: ts_rng_out split: if_splits)

lemma handle_kexinit_inv:
  assumes "handle_kexinit cr c p conf rv fk k ts = (Inr (), k', ts')" "kex_inv cr c sid k ts"
  shows "kex_inv cr c sid k' ts'"
proof -
  obtain cookie ts1 where ck: "(case k of KexKexInit our_cookie \<Rightarrow> st_lift (Inr our_cookie)
      | KexIdle \<Rightarrow> kex_cookie_generate cr | StartKexInit \<Rightarrow> kex_cookie_generate cr
      | _ \<Rightarrow> st_lift (Inl PacketWrong)) ts = (Inr cookie, ts1)"
    and n: "kexinit_negotiated cr c p conf rv fk k cookie ts1 = (Inr k', ts')"
    using assms(1) by (auto simp: handle_kexinit_def kex_step_Inr st_bind_Inr_eq)
  have k: "ts_out ts1 = ts_out ts" "k = KexIdle \<or> k = StartKexInit \<or> (\<exists>b. k = KexKexInit b)"
    using ck by (cases k; auto simp: st_lift_def kex_cookie_generate_def dest: ts_fill_random_out)+
  obtain al ts2 where a: "algo_negotiation cr c p conf ts1 = (Inr al, ts2)"
    and m: "(if fk \<and> al_strict_kex al \<and> ts_recv_seq ts2 \<noteq> 1 then (Inl PacketWrong, ts2)
      else let ts = (if fk \<and> al_strict_kex al then ts_enable_strict_kex ts2 else ts2) in
       st_bind (st_lift (kex_hash_new c conf cookie rv (KexInit p))) (\<lambda>h ts.
         if k \<in> {KexIdle, StartKexInit} then
           (Inr (StartKexDH cookie al h), if k = KexIdle then ts_set_drain_output True ts else ts)
         else if c then
           st_bind (send_kexdhinit cr (al_kex al)) (\<lambda>ss. st_lift (Inr (KexDH (al\<lparr>al_kex := ss\<rparr>) h))) ts
         else (Inr (KexDH al h), ts)) ts) = (Inr k', ts')"
    using n unfolding kexinit_negotiated_def st_bind_Inr_eq [where m = "algo_negotiation cr c p conf"] by blast
  define ts3 where "ts3 = (if fk \<and> al_strict_kex al then ts_enable_strict_kex ts2 else ts2)"
  have nw: "\<not> (fk \<and> al_strict_kex al \<and> ts_recv_seq ts2 \<noteq> 1)"
  proof
    assume "fk \<and> al_strict_kex al \<and> ts_recv_seq ts2 \<noteq> 1"
    with m show False by simp
  qed
  obtain h where r: "(if k \<in> {KexIdle, StartKexInit} then
           (Inr (StartKexDH cookie al h), if k = KexIdle then ts_set_drain_output True ts3 else ts3)
         else if c then
           st_bind (send_kexdhinit cr (al_kex al)) (\<lambda>ss. st_lift (Inr (KexDH (al\<lparr>al_kex := ss\<rparr>) h))) ts3
         else (Inr (KexDH al h), ts3)) = (Inr k', ts')"
    using m [unfolded if_not_P [OF nw] Let_def, folded ts3_def]
    by (cases "kex_hash_new c conf cookie rv (KexInit p)") (simp_all add: st_lift_def st_bind_def)
  note al = negotiated_ok [OF a]
  have out: "ts_out ts3 = ts_out ts"
    using a k(1) by (auto simp: ts3_def elim!: algo_negotiation_Inr dest!: shared_secret_from_name_out)
  show ?thesis
  proof (cases "k \<in> {KexIdle, StartKexInit}")
    case True
    then show ?thesis using r al assms(2) out by (auto simp: kex_inv_def split: if_splits)
  next
    case False
    then obtain b where b: "k = KexKexInit b" using k(2) by auto
    show ?thesis
    proof (cases c)
      case True
      with r False obtain ss where s: "send_kexdhinit cr (al_kex al) ts3 = (Inr ss, ts')" "k' = KexDH (al\<lparr>al_kex := ss\<rparr>) h"
        by (auto simp: st_bind_Inr_eq st_lift_def)
      from send_kexdhinit_ok [OF s(1) al(2)] s(2) al(1) True b out assms(2) show ?thesis
        by (auto simp: kex_inv_def algos_ok_def)
    qed (use r False al b out assms(2) fresh_ready in \<open>auto simp: kex_inv_def\<close>)
  qed
qed

lemma handle_newkeys_inv:
  assumes "handle_newkeys cr c sid k ts = (Inr (), k', ts')" "kex_inv cr c sid k ts"
  shows "kex_inv cr c sid k' ts'" "k' = KexIdle"
  using assms by (cases k; auto simp: kex_step_Inr st_bind_Inr_eq st_lift_def kex_inv_def)+

lemma kex_handle_kexdhinit_inv:
  assumes "kex_handle_kexdhinit c k = (r, k')" "kex_inv cr c sid k ts"
  shows "kex_inv cr c sid k' ts"
  using assms by (auto simp: kex_inv_def algos_ok_def split: kex.splits if_splits)

lemma send_newkeys_inv:
  assumes "send_newkeys cr c ko al sid ts = (Inr (), k', sid', ts')" "algos_ok al" "\<not> drain (ts_out ts)"
  shows "kex_inv cr c sid' k' ts'" "k' = KexNewKeys ko al" "sid' = Some (case sid of Some s \<Rightarrow> s | None \<Rightarrow> ko_h ko)"
  using assms
  by (auto simp: send_newkeys_def kex_inv_def Let_def dest!: ts_sent split: prod.splits sum.splits)

lemma shared_secret_handle_kexdhreply_algos:
  "shared_secret_handle_kexdhreply cr al h k_s q_s sig = Inr (ko, al') \<Longrightarrow> \<exists>ss. al' = al\<lparr>al_kex := ss\<rparr>"
  by (auto simp: shared_secret_handle_kexdhreply_def and_then_Inr_eq)

lemma resume_kexdhreply_inv:
  assumes "resume_kexdhreply cr k_s q_s sig sid k ts = (Inr (), k', sid', ts')" "kex_inv cr True sid k ts"
  shows "kex_inv cr True sid' k' ts'"
proof (cases k)
  case (KexDH al h)
  show ?thesis
  proof (cases "al_discard_next al")
    case True
    with assms KexDH show ?thesis by (auto simp: resume_kexdhreply_def kex_inv_def algos_ok_def)
  next
    case False
    then obtain ko al' where a: "shared_secret_handle_kexdhreply cr al h k_s q_s sig = Inr (ko, al')"
      "send_newkeys cr True ko al' sid ts = (Inr (), k', sid', ts')"
      using assms(1) KexDH by (auto simp: resume_kexdhreply_def split: sum.splits)
    have "algos_ok al'" "\<not> drain (ts_out ts)"
      using assms(2) KexDH shared_secret_handle_kexdhreply_algos [OF a(1)] by (auto simp: kex_inv_def algos_ok_def)
    then show ?thesis using send_newkeys_inv(1) [OF a(2)] by blast
  qed
qed (use assms in \<open>auto simp: resume_kexdhreply_def\<close>)

lemma server_secret_out: "server_secret cr q_c h ss ts = (Inr r, ts') \<Longrightarrow> ts_out ts' = ts_out ts"
  by (cases ss) (auto simp: secret_encap_server_def st_bind_Inr_eq st_lift_def Let_def split_beta
      dest!: ts_fill_random_out split: if_splits)

lemma handle_kexdhinit_flags:
  assumes "shared_secret_handle_kexdhinit cr al h keys q_c ts = (Inr (ko, al'), ts')"
  shows "\<exists>ss. al' = al\<lparr>al_kex := ss\<rparr>" "drain (ts_out ts') = drain (ts_out ts)"
  using assms
  by (auto simp: shared_secret_handle_kexdhinit_def st_bind_Inr_eq st_lift_def send_kexdhreply_def
      dest!: server_secret_out ts_sent split: if_splits)

lemma resume_kexdhinit_inv:
  assumes "resume_kexdhinit cr q_c fk keys sid k ts = (Inr (), k', sid', ts')" "kex_inv cr False sid k ts"
  shows "kex_inv cr False sid' k' ts'"
proof (cases k)
  case (KexDH al h)
  obtain ko al' ts1 where a: "shared_secret_handle_kexdhinit cr al h keys q_c ts = (Inr (ko, al'), ts1)"
    "send_newkeys cr False ko al' sid ts1 = (Inr (), k', sid', ts')"
    using assms(1) KexDH
    by (auto simp: resume_kexdhinit_def send_ext_info_def split: prod.splits sum.splits if_splits)
  have "algos_ok al'" "\<not> drain (ts_out ts1)"
    using assms(2) KexDH handle_kexdhinit_flags [OF a(1)] by (auto simp: kex_inv_def algos_ok_def)
  then show ?thesis using send_newkeys_inv(1) [OF a(2)] by blast
qed (use assms in \<open>auto simp: resume_kexdhinit_def\<close>)

text \<open>The session identifier, once set, does not change.\<close>

lemma sess_id_kept:
  "send_newkeys cr c ko al (Some s) ts = (r, k', sid', ts') \<Longrightarrow> sid' = Some s"
  "resume_kexdhreply cr k_s q_s sig (Some s) k ts = (r, k', sid', ts') \<Longrightarrow> sid' = Some s"
  "resume_kexdhinit cr q_c fk keys (Some s) k ts = (r, k', sid', ts') \<Longrightarrow> sid' = Some s"
proof -
  show n: "send_newkeys cr c ko al (Some s) ts = (r, k', sid', ts') \<Longrightarrow> sid' = Some s"
    for c ko al ts and r :: "unit ssh_result" and k' sid' ts'
    by (auto simp: send_newkeys_def Let_def split: prod.splits sum.splits)
  show "resume_kexdhreply cr k_s q_s sig (Some s) k ts = (r, k', sid', ts') \<Longrightarrow> sid' = Some s"
    by (auto simp: resume_kexdhreply_def dest: n split: kex.splits if_splits sum.splits prod.splits)
  show "resume_kexdhinit cr q_c fk keys (Some s) k ts = (r, k', sid', ts') \<Longrightarrow> sid' = Some s"
    by (auto simp: resume_kexdhinit_def send_ext_info_def dest: n split: kex.splits if_splits sum.splits prod.splits)
qed

subsection \<open>No panics\<close>

text \<open>The operating system gives random data whenever it is asked.\<close>

definition rng_ok :: "crypto \<Rightarrow> bool" where
  "rng_ok cr \<longleftrightarrow> (\<forall>n len. getrandom cr n len \<noteq> None)"

lemma toy_rng_ok: "rng_ok toy_crypto"
  by (simp add: rng_ok_def toy_crypto_def)

lemma safe_rng [safe_intros]: "rng_ok cr \<Longrightarrow> safe ts_inv (ts_rng cr n)"
  by (auto simp: safe_def ts_rng_def ts_fill_random_def ts_inv_def fill_random_def rng_ok_def map_err_Inl_eq ok_or_Inl_eq)

lemma safe_cookie [safe_intros]: "safe ts_inv (kex_cookie_generate cr)"
  by (simp add: kex_cookie_generate_def safe_intros)

lemma safe_from_name [safe_intros]: "rng_ok cr \<Longrightarrow> safe ts_inv (shared_secret_from_name cr name)"
  unfolding shared_secret_from_name_def kex_curve25519_new_def kex_mlkem_new_def
  by (intro safe_intros) auto

lemma safe_send_kexdhinit [safe_intros]: "crypto_ok cr \<Longrightarrow> safe ts_inv (send_kexdhinit cr ss)"
  unfolding send_kexdhinit_def
  by (cases ss) (auto simp: init_pubkey_arr_client_def intro!: safe_intros)

lemma names_not_Panic:
  "first_match spl l c conf \<noteq> Inl Panic" "has_algo spl l n \<noteq> Inl Panic" "match_algo cr c kind l conf \<noteq> Inl Panic"
  "cipher_from_name n \<noteq> Inl Panic" "integ_from_name n \<noteq> Inl Panic" "sig_type_from_name n \<noteq> Inl Panic"
proof -
  show fm: "first_match spl l c conf \<noteq> Inl Panic" for spl l c conf by (cases l) auto
  show "has_algo spl l n \<noteq> Inl Panic" by (cases l) auto
  show "match_algo cr c kind l conf \<noteq> Inl Panic"
    using fm by (auto simp: match_algo_def and_then_Inl_eq ok_or_Inl_eq)
qed (auto simp: cipher_from_name_def integ_from_name_def sig_type_from_name_def)

lemma negotiate_integ_not_Panic: "negotiate_integ cr c ci l conf \<noteq> Inl Panic"
  by (cases "cipher_integ ci") (auto simp: negotiate_integ_def and_then_Inl_eq names_not_Panic)

text \<open>The list of a peer is a string, so the \<open>unwrap\<close>s after the first look at it succeed.\<close>

lemma safe_algo_negotiation [safe_intros]:
  assumes "rng_ok cr"
  shows "safe ts_inv (algo_negotiation cr c p conf)"
proof (cases "ki_kex p")
  case (StringNames s)
  have u: "unwrap_result (has_algo spl (StringNames s) n) \<noteq> Inl Panic" for spl n
    by (simp add: unwrap_result_def)
  show ?thesis
    using assms StringNames u
    by (cases c)
       (auto simp: algo_negotiation_def Let_def names_not_Panic negotiate_integ_not_Panic and_then_Inl_eq
          simp del: has_algo.simps intro!: safe_intros)
next
  case (LocalNames l)
  then show ?thesis by (simp add: algo_negotiation_def safe_def st_lift_def st_bind_def)
qed

lemma hash_not_Panic: "hash_ser_length h p \<noteq> Inl Panic" "hash_hostkey k h \<noteq> Inl Panic"
  using error_from_wire_not_Panic
  by (auto simp: hash_hostkey_def hash_ser_length_def hash_ser_eq and_then_Inl_eq map_err_Inl_eq dest: sym
      split: option.splits)

lemma kex_hash_new_not_Panic: "version rv \<noteq> Inl Panic \<Longrightarrow> kex_hash_new c conf ck rv p \<noteq> Inl Panic"
  by (auto simp: kex_hash_new_def and_then_Inl_eq and_then_Inr_eq trap_option_def ok_or_Inl_eq hash_not_Panic Let_def)

lemma kex_step_safe: "safe ts_inv m \<Longrightarrow> kex_step k m ts = (r, k', ts') \<Longrightarrow> ts_inv ts \<Longrightarrow> ts_inv ts' \<and> r \<noteq> Inl Panic"
  by (auto simp: kex_step_def dest: safeD split: prod.splits sum.splits)

lemma kex_progress_safe:
  assumes "crypto_ok cr" "kex_progress cr c conf k ts = (r, k', ts')" "ts_inv ts"
  shows "ts_inv ts' \<and> r \<noteq> Inl Panic"
proof (cases k)
  case StartKexInit
  show ?thesis
  proof (cases "ts_is_drained ts")
    case True
    have "safe ts_inv (st_bind (kex_cookie_generate cr) (\<lambda>our_cookie.
           st_bind (ts_send cr (make_kexinit our_cookie conf)) (\<lambda>_. st_lift (Inr (KexKexInit our_cookie)))))"
      using assms(1) by (auto intro!: safe_intros)
    from kex_step_safe [OF this] assms(2,3) True StartKexInit show ?thesis by (auto simp: ts_inv_updates)
  qed (use assms StartKexInit in auto)
next
  case (StartKexDH cookie al h)
  show ?thesis
  proof (cases "ts_is_drained ts")
    case True
    have "safe ts_inv (st_bind (ts_send cr (make_kexinit cookie conf)) (\<lambda>_.
           if c then st_bind (send_kexdhinit cr (al_kex al)) (\<lambda>ss. st_lift (Inr (KexDH (al\<lparr>al_kex := ss\<rparr>) h)))
           else st_lift (Inr (KexDH al h))))"
      using assms(1) by (auto intro!: safe_intros)
    from kex_step_safe [OF this] assms(2,3) True StartKexDH show ?thesis by (auto simp: ts_inv_updates)
  qed (use assms StartKexDH in auto)
qed (use assms in \<open>auto simp: start_kexinit_def ts_inv_updates split: if_splits\<close>)

lemma safe_guarded:
  assumes "safe I m" "\<And>s. I s \<Longrightarrow> I (g s)" "e \<noteq> Panic"
  shows "safe I (\<lambda>s. if b s then (Inl e, s) else let s = g s in m s)"
  unfolding safe_def Let_def using assms(2,3) by (auto dest: safeD [OF assms(1)] split: if_splits)

lemma kexinit_negotiated_safe:
  assumes "crypto_ok cr" "rng_ok cr" "version rv \<noteq> Inl Panic"
  shows "safe ts_inv (kexinit_negotiated cr c p conf rv fk k cookie)"
  unfolding kexinit_negotiated_def
proof (rule safe_bind)
  show "safe ts_inv (algo_negotiation cr c p conf)" using assms(2) by (rule safe_intros)
  fix al
  have k: "safe ts_inv (\<lambda>ts. if k \<in> {KexIdle, StartKexInit} then
           (Inr (StartKexDH cookie al h), if k = KexIdle then ts_set_drain_output True ts else ts)
         else if c then
           st_bind (send_kexdhinit cr (al_kex al)) (\<lambda>ss. st_lift (Inr (KexDH (al\<lparr>al_kex := ss\<rparr>) h))) ts
         else (Inr (KexDH al h), ts))" for h
  proof -
    have "safe ts_inv (st_bind (send_kexdhinit cr (al_kex al)) (\<lambda>ss. st_lift (Inr (KexDH (al\<lparr>al_kex := ss\<rparr>) h))))"
      using assms(1) by (auto intro!: safe_intros)
    then show ?thesis by (auto simp: safe_def ts_inv_updates)
  qed
  have "safe ts_inv (st_bind (st_lift (kex_hash_new c conf cookie rv (KexInit p))) (\<lambda>h ts.
         if k \<in> {KexIdle, StartKexInit} then
           (Inr (StartKexDH cookie al h), if k = KexIdle then ts_set_drain_output True ts else ts)
         else if c then
           st_bind (send_kexdhinit cr (al_kex al)) (\<lambda>ss. st_lift (Inr (KexDH (al\<lparr>al_kex := ss\<rparr>) h))) ts
         else (Inr (KexDH al h), ts)))"
    using assms(3) k kex_hash_new_not_Panic by (intro safe_intros) auto
  from safe_guarded [OF this, where g = "\<lambda>ts. if fk \<and> al_strict_kex al then ts_enable_strict_kex ts else ts"
      and b = "\<lambda>ts. fk \<and> al_strict_kex al \<and> ts_recv_seq ts \<noteq> 1" and e = PacketWrong]
  show "safe ts_inv (\<lambda>ts. if fk \<and> al_strict_kex al \<and> ts_recv_seq ts \<noteq> 1 then (Inl PacketWrong, ts)
     else
       let ts = (if fk \<and> al_strict_kex al then ts_enable_strict_kex ts else ts) in
       st_bind (st_lift (kex_hash_new c conf cookie rv (KexInit p))) (\<lambda>h ts.
         if k \<in> {KexIdle, StartKexInit} then
           (Inr (StartKexDH cookie al h), if k = KexIdle then ts_set_drain_output True ts else ts)
         else if c then
           st_bind (send_kexdhinit cr (al_kex al)) (\<lambda>ss. st_lift (Inr (KexDH (al\<lparr>al_kex := ss\<rparr>) h))) ts
         else (Inr (KexDH al h), ts)) ts)"
    by (simp add: ts_inv_updates)
qed

lemma handle_kexinit_safe:
  assumes "crypto_ok cr" "rng_ok cr" "version rv \<noteq> Inl Panic"
    and "handle_kexinit cr c p conf rv fk k ts = (r, k', ts')" "ts_inv ts"
  shows "ts_inv ts' \<and> r \<noteq> Inl Panic"
proof -
  have "safe ts_inv (case k of KexKexInit our_cookie \<Rightarrow> st_lift (Inr our_cookie)
      | KexIdle \<Rightarrow> kex_cookie_generate cr | StartKexInit \<Rightarrow> kex_cookie_generate cr
      | _ \<Rightarrow> st_lift (Inl PacketWrong))"
    by (cases k) (auto intro: safe_intros)
  note b = safe_bind [OF this kexinit_negotiated_safe [OF assms(1-3)]]
  from kex_step_safe [OF b assms(4) [unfolded handle_kexinit_def] assms(5)] show ?thesis .
qed

lemma handle_newkeys_safe:
  assumes "crypto_ok cr" "handle_newkeys cr c sid k ts = (r, k', ts')" "ts_inv ts" "kex_inv cr c sid k ts"
  shows "ts_inv ts' \<and> r \<noteq> Inl Panic"
proof (cases k)
  case (KexNewKeys ko al)
  then obtain s where s: "sid = Some s" "algos_ok al" using assms(4) by (auto simp: kex_inv_def)
  obtain kr where "keys_recv_new cr c ko s al = Inr kr" by (rule keys_recv_new_ok [OF assms(1) s(2)])
  with assms s KexNewKeys show ?thesis
    by (auto simp: kex_step_def st_lift_def st_bind_def panic_option_def ts_inv_updates)
qed (use assms in \<open>auto simp: kex_step_def st_lift_def\<close>)

lemma send_newkeys_safe:
  assumes "crypto_ok cr" "send_newkeys cr c ko al sid ts = (r, k', sid', ts')" "ts_inv ts" "algos_ok al"
  shows "ts_inv ts' \<and> r \<noteq> Inl Panic"
proof -
  obtain r1 ts1 where t: "ts_send cr NewKeys ts = (r1, ts1)" by fastforce
  note o = ts_send_outcome [OF t assms(1,3)]
  obtain ks where "keys_send_new cr c ko (case sid of Some s \<Rightarrow> s | None \<Rightarrow> ko_h ko) al = Inr ks" "keys_send_ok ks"
    by (rule keys_send_new_ok [OF assms(1,4)])
  with assms(2) t o show ?thesis
    by (cases r1) (auto simp: send_newkeys_def Let_def ts_inv_updates)
qed

lemma kex_output_not_Panic: "kex_output_new cr k h \<noteq> Inl Panic"
  by (rule kex_output_new_ok [of cr k h]) simp

lemma secret_not_Panic:
  "raw_secret cr q k \<noteq> Inl Panic" "curve25519_secret cr q h c k \<noteq> Inl Panic" "client_secret cr q h ss \<noteq> Inl Panic"
  "derive_secret cr a b h m \<noteq> Inl Panic"
proof -
  show r: "raw_secret cr q k \<noteq> Inl Panic" for q k
    by (auto simp: raw_secret_def and_then_Inl_eq trap_option_def ok_or_Inl_eq)
  show c: "curve25519_secret cr q h c k \<noteq> Inl Panic" for q h c k
    using r kex_output_not_Panic by (auto simp: curve25519_secret_def Let_def and_then_Inl_eq)
  show d: "derive_secret cr a b h m \<noteq> Inl Panic" for a b h m
    using r kex_output_not_Panic by (auto simp: derive_secret_def and_then_Inl_eq)
  show "client_secret cr q h ss \<noteq> Inl Panic"
    using c d by (cases ss) (auto simp: and_then_Inl_eq secret_decap_client_def ok_or_Inl_eq trap_option_def Let_def)
qed

lemma sig_type_verify_not_Panic: "sig_type_verify cr sty k msg sig \<noteq> Inl Panic"
  by (auto simp: sig_type_verify_def verify_ed25519_def and_then_Inl_eq sig_msg_bytes_not_Panic
      split: sum.splits sig_type.splits pub_key.splits signature.splits)

lemma resume_kexdhreply_safe:
  assumes "crypto_ok cr" "resume_kexdhreply cr k_s q_s sig sid k ts = (r, k', sid', ts')" "ts_inv ts" "kex_inv cr True sid k ts"
  shows "ts_inv ts' \<and> r \<noteq> Inl Panic"
proof (cases k)
  case (KexDH al h)
  show ?thesis
  proof (cases "al_discard_next al")
    case False
    show ?thesis
    proof (cases "shared_secret_handle_kexdhreply cr al h k_s q_s sig")
      case (Inl e)
      then have "e \<noteq> Panic"
        by (auto simp: shared_secret_handle_kexdhreply_def and_then_Inl_eq hash_not_Panic secret_not_Panic sig_type_verify_not_Panic)
      with Inl False assms KexDH show ?thesis by (auto simp: resume_kexdhreply_def)
    next
      case (Inr x)
      obtain ko al' where x: "x = (ko, al')" by (cases x)
      have "algos_ok al'"
        using shared_secret_handle_kexdhreply_algos [OF Inr [unfolded x]] assms(4) KexDH
        by (auto simp: kex_inv_def algos_ok_def)
      with Inr x False assms KexDH send_newkeys_safe [OF assms(1)] show ?thesis
        by (auto simp: resume_kexdhreply_def)
    qed
  qed (use assms KexDH in \<open>auto simp: resume_kexdhreply_def\<close>)
qed (use assms in \<open>auto simp: resume_kexdhreply_def\<close>)

lemma safe_server_secret [safe_intros]: "safe ts_inv (server_secret cr q_c h ss)"
  by (cases ss)
     (auto simp: secret_encap_server_def secret_not_Panic and_then_Inl_eq Let_def ok_or_Inl_eq intro!: safe_intros)

lemma safe_handle_kexdhinit:
  assumes "crypto_ok cr" "\<forall>k \<in> set keys. \<not> sign_key_is_agent k"
  shows "safe ts_inv (shared_secret_handle_kexdhinit cr al h keys q_c)"
proof -
  have "safe ts_inv (send_kexdhreply cr ko pk hk)" if "\<not> sign_key_is_agent hk" for ko pk hk
    unfolding send_kexdhreply_def using that assms(1) sign_not_Panic by (intro safe_intros) auto
  then show ?thesis
    unfolding shared_secret_handle_kexdhinit_def
    using assms(2)
    by (auto simp: hash_not_Panic ok_or_Inl_eq ok_or_Inr_eq st_lift_def [where r = "ok_or _ _"] find_Some_iff
        intro!: safe_intros safe_bind_strong [where m = "st_lift (ok_or _ _)"])
qed

lemma resume_kexdhinit_safe:
  assumes "crypto_ok cr" "resume_kexdhinit cr q_c fk keys sid k ts = (r, k', sid', ts')" "ts_inv ts"
    "kex_inv cr False sid k ts" "\<forall>k \<in> set keys. \<not> sign_key_is_agent k"
  shows "ts_inv ts' \<and> r \<noteq> Inl Panic"
proof (cases k)
  case (KexDH al h)
  obtain r1 ts1 where s: "shared_secret_handle_kexdhinit cr al h keys q_c ts = (r1, ts1)" by fastforce
  note o = safeD [OF safe_handle_kexdhinit [OF assms(1,5)] assms(3) s]
  show ?thesis
  proof (cases r1)
    case (Inl e)
    with s o assms(2) KexDH show ?thesis by (auto simp: resume_kexdhinit_def)
  next
    case (Inr x)
    obtain ko al' where x: "x = (ko, al')" by (cases x)
    have a: "algos_ok al'"
      using handle_kexdhinit_flags(1) [OF s [unfolded Inr x]] assms(4) KexDH by (auto simp: kex_inv_def algos_ok_def)
    obtain r2 k2 sid2 ts2 where n: "send_newkeys cr False ko al' sid ts1 = (r2, k2, sid2, ts2)" by (metis prod_cases4)
    from send_newkeys_safe [OF assms(1) n _ a] o n s Inr x assms(2) KexDH show ?thesis
      by (cases r2) (auto simp: resume_kexdhinit_def send_ext_info_def split: if_splits)
  qed
qed (use assms in \<open>auto simp: resume_kexdhinit_def\<close>)

subsection \<open>Two ends that run this program\<close>

lemma split_join_std:
  assumes "kex_crypto_ok cr" "conf_ok conf" "l \<in> {ac_kexs conf, ac_hostsig conf, ac_ciphers conf, ac_macs conf, ac_comps conf}"
  shows "ascii_split cr (join_comma l) = l"
  using assms splits_at_comma_unique [of "ascii_split cr"] split_join by (auto simp: conf_ok_def kex_crypto_ok_def)

lemma std_negotiation:
  assumes cr: "kex_crypto_ok cr" and rnd: "getrandom cr (rng_calls (ts_keys ts)) 32 = Some r"
  shows "\<exists>a ts'. algo_negotiation cr c (received_kex_init (sent_kexinit ck (std_config (\<not> c)))) (std_config c) ts = (Inr a, ts')
    \<and> (\<exists>k. al_kex a = KexMlkemX25519 k) \<and> al_hostsig a = SigTypeEd25519
    \<and> al_cipher_enc a = ChaPoly \<and> al_cipher_dec a = ChaPoly \<and> al_strict_kex a \<and> \<not> al_discard_next a"
proof -
  have sp: "ascii_split cr (join_comma (f (std_config d))) = f (std_config d)"
    if "f \<in> {ac_kexs, ac_hostsig, ac_ciphers, ac_macs, ac_comps}" for f d
    using split_join_std [OF cr std_config_ok, of "f (std_config d)" d] that by auto
  have sps: "ascii_split cr (join_comma (ac_kexs (std_config d))) = ac_kexs (std_config d)"
    "ascii_split cr (join_comma (ac_hostsig (std_config d))) = ac_hostsig (std_config d)"
    "ascii_split cr (join_comma (ac_ciphers (std_config d))) = ac_ciphers (std_config d)"
    "ascii_split cr (join_comma (ac_comps (std_config d))) = ac_comps (std_config d)" for d
    by (rule sp; simp)+
  note m = match_algo_def first_options_match_eq first_string_match_eq sps
  have kex: "match_algo cr c ''kex'' (StringNames (join_comma (ac_kexs (std_config (\<not> c))))) (ac_kexs (std_config c)) = Inr SSH_NAME_MLKEM_X25519"
    by (cases c) (simp_all add: m, simp_all add: std_config_def fixed_options_defs)
  have host: "match_algo cr c ''hostkey'' (StringNames (join_comma (ac_hostsig (std_config (\<not> c))))) (ac_hostsig (std_config c)) = Inr SSH_NAME_ED25519"
    by (cases c) (simp_all add: m, simp_all add: std_config_def fixed_options_defs)
  have ciph: "match_algo cr c ''encryption'' (StringNames (join_comma (ac_ciphers (std_config (\<not> c))))) (ac_ciphers (std_config c)) = Inr SSH_NAME_CHAPOLY"
    by (cases c) (simp_all add: m, simp_all add: std_config_def fixed_options_defs)
  have comp: "match_algo cr c ''compression'' (StringNames (join_comma (ac_comps (std_config (\<not> c))))) (ac_comps (std_config c)) = Inr SSH_NAME_NONE"
    by (cases c) (simp_all add: m, simp_all add: std_config_def fixed_options_defs)
  have strict: "has_algo (ascii_split cr) (StringNames (join_comma (ac_kexs (std_config (\<not> c)))))
      (if c then SSH_NAME_STRICT_KEX_S else SSH_NAME_STRICT_KEX_C) = Inr True"
    by (cases c) (simp_all add: sps, simp_all add: std_config_def)
  have names: "SSH_NAME_MLKEM_X25519 \<notin> set marker_only_kexs" "SSH_NAME_MLKEM_X25519 \<noteq> SSH_NAME_CURVE25519"
    "SSH_NAME_MLKEM_X25519 \<noteq> SSH_NAME_CURVE25519_LIBSSH"
    by (simp_all add: marker_only_kexs_def ssh_name_defs)
  obtain ts0 where rng: "ts_rng cr 32 ts = (Inr r, ts0)"
    using rnd by (simp add: ts_rng_def ts_fill_random_def fill_random_def)
  obtain km ts1 where ss: "shared_secret_from_name cr SSH_NAME_MLKEM_X25519 ts = (Inr (KexMlkemX25519 km), ts1)"
    using names(2,3) by (simp add: shared_secret_from_name_def kex_mlkem_new_def kex_curve25519_new_def st_bind_def st_lift_def rng)
  have b: "st_bind (st_lift (Inr x)) f s = f x s" for x f and s :: traf_send
    by (simp add: st_bind_def st_lift_def)
  note lists = received_kex_init_def received_list_def sent_kexinit_def make_kexinit_def
  show ?thesis
    using kex host ciph comp strict names(1) ss
    by (cases c) (simp_all add: algo_negotiation_def lists b st_lift_def Let_def sig_type_from_name_def
        cipher_from_name_def negotiate_integ_def unwrap_result_def)
qed

end
