(* ===== verification/SSH_Auth_Correct.thy ===== *)
theory SSH_Auth_Correct
  imports SSH_Auth SSH_Kex_Correct
begin

section \<open>Correctness of authentication\<close>

text \<open>
  The server is authenticated only by the answer of the application, reports a signature only when it
  verifies for this session, user and service, and does not let the user name vary. A client that holds
  the key produces a request that the server accepts as signed.
\<close>

subsection \<open>What is signed\<close>

lemma binstring_prefix:
  assumes "be32 (word_of_nat (length a)) @ a @ x = be32 (word_of_nat (length b)) @ b @ y" "len_ok a" "len_ok b"
  shows "a = b \<and> x = y"
proof -
  have "(word_of_nat (length a) :: u32) = word_of_nat (length b)" "a @ x = b @ y"
    using assms(1) of_be32_be32 by (metis append_eq_append_conv length_be32)+
  then have "length a = length b" using assms(2,3) by (metis unat_of_nat_u32)
  with \<open>a @ x = b @ y\<close> show ?thesis by simp
qed

text \<open>The signed bytes determine the session, the user and the service.\<close>

lemma auth_sig_msg_binds:
  assumes "emitted (enc_auth_sig_msg m) = emitted (enc_auth_sig_msg n)"
    and "len_ok (as_sess_id m)" "len_ok (as_sess_id n)" "len_ok (ur_username (as_u m))" "len_ok (ur_username (as_u n))"
      "len_ok (ur_service (as_u m))" "len_ok (ur_service (as_u n))"
    and ok: "failure (enc_auth_sig_msg m) = None" "failure (enc_auth_sig_msg n) = None"
  shows "as_sess_id m = as_sess_id n \<and> ur_username (as_u m) = ur_username (as_u n)
    \<and> ur_service (as_u m) = ur_service (as_u n)"
proof -
  have e: "emitted (enc_auth_sig_msg q) = be32 (word_of_nat (length (as_sess_id q))) @ as_sess_id q
      @ 50 # be32 (word_of_nat (length (ur_username (as_u q)))) @ ur_username (as_u q)
      @ be32 (word_of_nat (length (str_bytes (ur_service (as_u q))))) @ str_bytes (ur_service (as_u q))
      @ emitted (enc_auth_method (ur_method (as_u q)))" if "failure (enc_auth_sig_msg q) = None" for q
  proof -
    have "failure (enc_auth_method (ur_method (as_u q))) = None"
      using that by (simp add: enc_auth_sig_msg_def enc_userauth_request_def enc_simps split: option.splits)
    then show ?thesis by (simp add: enc_auth_sig_msg_def enc_userauth_request_def enc_simps)
  qed
  have "as_sess_id m = as_sess_id n \<and>
      50 # be32 (word_of_nat (length (ur_username (as_u m)))) @ ur_username (as_u m)
        @ be32 (word_of_nat (length (str_bytes (ur_service (as_u m))))) @ str_bytes (ur_service (as_u m))
        @ emitted (enc_auth_method (ur_method (as_u m)))
    = 50 # be32 (word_of_nat (length (ur_username (as_u n)))) @ ur_username (as_u n)
        @ be32 (word_of_nat (length (str_bytes (ur_service (as_u n))))) @ str_bytes (ur_service (as_u n))
        @ emitted (enc_auth_method (ur_method (as_u n)))"
    using assms(1) unfolding e [OF ok(1)] e [OF ok(2)] by (rule binstring_prefix) (use assms(2,3) in simp_all)
  then have s: "as_sess_id m = as_sess_id n"
    and r: "be32 (word_of_nat (length (ur_username (as_u m)))) @ ur_username (as_u m)
        @ be32 (word_of_nat (length (str_bytes (ur_service (as_u m))))) @ str_bytes (ur_service (as_u m))
        @ emitted (enc_auth_method (ur_method (as_u m)))
    = be32 (word_of_nat (length (ur_username (as_u n)))) @ ur_username (as_u n)
        @ be32 (word_of_nat (length (str_bytes (ur_service (as_u n))))) @ str_bytes (ur_service (as_u n))
        @ emitted (enc_auth_method (ur_method (as_u n)))"
    by simp_all
  from binstring_prefix [OF r] assms(4,5) have u: "ur_username (as_u m) = ur_username (as_u n)"
    and t: "be32 (word_of_nat (length (str_bytes (ur_service (as_u m))))) @ str_bytes (ur_service (as_u m))
        @ emitted (enc_auth_method (ur_method (as_u m)))
      = be32 (word_of_nat (length (str_bytes (ur_service (as_u n))))) @ str_bytes (ur_service (as_u n))
        @ emitted (enc_auth_method (ur_method (as_u n)))"
    by auto
  from binstring_prefix [OF t] assms(6,7) have "str_bytes (ur_service (as_u m)) = str_bytes (ur_service (as_u n))"
    by simp
  with s u show ?thesis by simp
qed

subsection \<open>The server\<close>

lemma serv_check_username_Inr:
  assumes "serv_check_username u sa = Inr sa'"
  shows "sa' = sa\<lparr>sa_username := Some u\<rparr>" "length u \<le> MAX_USERNAME \<or> sa_username sa = Some u"
  using assms by (auto simp: serv_check_username_def split: option.splits if_splits)

lemma serv_request_state:
  assumes "serv_request cr sid p sa ts = (r, sa', ts')"
  shows "sa_authed sa' = sa_authed sa" "sa_username sa \<noteq> None \<Longrightarrow> sa_username sa' = sa_username sa"
    "r = Inr ev \<Longrightarrow> sa_username sa' = Some (ur_username p)"
    "sa_method_password sa' = sa_method_password sa" "sa_method_pubkey sa' = sa_method_pubkey sa"
proof -
  have "sa_authed sa' = sa_authed sa \<and> (sa_username sa \<noteq> None \<longrightarrow> sa_username sa' = sa_username sa)
    \<and> (r = Inr ev \<longrightarrow> sa_username sa' = Some (ur_username p)) \<and> sa_method_password sa' = sa_method_password sa
    \<and> sa_method_pubkey sa' = sa_method_pubkey sa"
  proof (cases "serv_check_username (ur_username p) sa")
    case (Inl e)
    with assms show ?thesis by (auto simp: serv_request_def)
  next
    case (Inr sa1)
    have u: "sa_username sa \<noteq> None \<Longrightarrow> sa_username sa = Some (ur_username p)"
      using Inr by (auto simp: serv_check_username_def split: option.splits if_splits)
    show ?thesis
      using assms Inr serv_check_username_Inr(1) [OF Inr] u
      by (auto simp: serv_request_def Let_def split: prod.splits sum.splits if_splits)
  qed
  then show "sa_authed sa' = sa_authed sa" "sa_username sa \<noteq> None \<Longrightarrow> sa_username sa' = sa_username sa"
    "r = Inr ev \<Longrightarrow> sa_username sa' = Some (ur_username p)"
    "sa_method_password sa' = sa_method_password sa" "sa_method_pubkey sa' = sa_method_pubkey sa" by auto
qed

text \<open>The request as it was signed: the signature taken out, the flag for it set.\<close>

definition unsigned_request :: "userauth_request \<Rightarrow> method_pub_key \<Rightarrow> userauth_request" where
  "unsigned_request p m = p\<lparr>ur_method := MethodPubKey (m\<lparr>mpk_sig := None, mpk_force_sig := True\<rparr>)\<rparr>"

lemma unit_result_iff: "(\<forall>e. r \<noteq> Inl e) \<longleftrightarrow> r = (Inr () :: unit ssh_result)"
  by (cases r) auto

lemma serv_verify_sig_True:
  "serv_verify_sig cr p sig sid \<longleftrightarrow>
     (\<exists>m k s. ur_method p = MethodPubKey m \<and> mpk_pubkey m = PubKeyEd25519 k \<and> sig = SigEd25519 s \<and> length s = 64
        \<and> ed25519_key_valid cr k \<and> failure (enc_auth_sig_msg (auth_sig_msg_new p sid)) = None
        \<and> length (emitted (enc_auth_sig_msg (auth_sig_msg_new p sid))) \<le> MAX_ED25519_SIG_MSG
        \<and> ed25519_verify cr k (emitted (enc_auth_sig_msg (auth_sig_msg_new p sid))) s)"
proof -
  have "serv_verify_sig cr p sig sid \<longleftrightarrow>
     (\<exists>t m. signature_sig_type sig = Inr t \<and> ur_method p = MethodPubKey m \<and>
        sig_type_verify cr t (mpk_pubkey m) (enc_auth_sig_msg (auth_sig_msg_new p sid)) sig = Inr ())"
    by (auto simp: serv_verify_sig_def unit_result_iff split: sum.splits auth_method.splits)
  then show ?thesis by (auto simp: verify_Inr)
qed

lemma serv_request_pubkey_signed:
  "serv_request_pubkey cr p sid = Inr (DispServEvent (ServPubkeyAuth True)) \<longleftrightarrow>
     (\<exists>m s. ur_method p = MethodPubKey m \<and> mpk_sig m = Some s \<and> serv_verify_sig cr (unsigned_request p m) s sid)"
  by (auto simp: serv_request_pubkey_def unsigned_request_def serv_verify_sig_True Let_def
      split: auth_method.splits pub_key.splits option.splits if_splits)

lemma serv_request_event_username [simp]:
  "serv_request_event cr p sid (sa\<lparr>sa_username := u\<rparr>) = serv_request_event cr p sid sa"
  by (cases "ur_method p") (simp_all add: serv_request_event_def)

lemma serv_request_Inr_event:
  assumes "serv_request cr sid p sa ts = (Inr ev, sa', ts')" "ev \<noteq> DispNone"
  shows "\<not> sa_authed sa" "serv_request_event cr p sid sa = Inr ev"
proof -
  obtain sa1 where c: "serv_check_username (ur_username p) sa = Inr sa1"
    using assms(1) by (cases "serv_check_username (ur_username p) sa") (auto simp: serv_request_def)
  have "\<not> sa_authed sa1 \<and> serv_request_event cr p sid sa1 = Inr ev"
    using assms c by (auto simp: serv_request_def Let_def split: prod.splits sum.splits if_splits)
  with serv_check_username_Inr(1) [OF c] show "\<not> sa_authed sa" "serv_request_event cr p sid sa = Inr ev" by auto
qed

lemma serv_request_signed_event:
  assumes "serv_request cr sid p sa ts = (Inr (DispServEvent (ServPubkeyAuth True)), sa', ts')"
  obtains m k s where "ur_method p = MethodPubKey m" "mpk_pubkey m = PubKeyEd25519 k" "mpk_sig m = Some (SigEd25519 s)"
    "sa_method_pubkey sa" "ed25519_verify cr k (emitted (enc_auth_sig_msg (auth_sig_msg_new (unsigned_request p m) sid))) s"
proof -
  have "serv_request_event cr p sid sa = Inr (DispServEvent (ServPubkeyAuth True))"
    using serv_request_Inr_event(2) [OF assms] by simp
  then have "sa_method_pubkey sa" "serv_request_pubkey cr p sid = Inr (DispServEvent (ServPubkeyAuth True))"
    by (auto simp: serv_request_event_def Let_def split: auth_method.splits if_splits)
  with that show ?thesis
    by (auto simp: serv_request_pubkey_signed serv_verify_sig_True unsigned_request_def)
qed

lemma avail_methods_ok: "\<exists>l. avail_methods sa = Inr l"
  by (auto simp: avail_methods_def local_names_push_def MAX_LOCAL_NAMES_def)

subsection \<open>A client that holds the key is accepted\<close>

text \<open>What the server decodes: the flag that forces the boolean is not sent.\<close>

fun received_method :: "auth_method \<Rightarrow> auth_method" where
  "received_method (MethodPubKey m) = MethodPubKey (m\<lparr>mpk_force_sig := False\<rparr>)"
| "received_method m = m"

lemma client_request_accepted:
  assumes ok: "sign_crypto_ok cr" and req: "cli_signed_request cr key sid ca = Inr p"
    and sa: "\<not> sa_authed sa" "sa_method_pubkey sa" "serv_check_username (ca_username ca) sa = Inr sa1"
  shows "serv_request cr sid (p\<lparr>ur_method := received_method (ur_method p)\<rparr>) sa ts
       = (Inr (DispServEvent (ServPubkeyAuth True)), sa1\<lparr>sa_tried_first := True\<rparr>, ts)"
proof -
  obtain m0 sig m1 where
    m0: "method_pub_key_new (sign_key_pubkey cr key) None = Inr m0"
    and sg: "sign_key_sign cr key (enc_auth_sig_msg (auth_sig_msg_new
        \<lparr>ur_username = ca_username ca, ur_service = SSH_SERVICE_CONNECTION,
         ur_method = MethodPubKey (m0\<lparr>mpk_force_sig := True\<rparr>)\<rparr> sid)) = Inr sig"
    and m1: "method_pub_key_new (sign_key_pubkey cr key) (Some sig) = Inr m1"
    and p: "p = \<lparr>ur_username = ca_username ca, ur_service = SSH_SERVICE_CONNECTION,
         ur_method = MethodPubKey (m1\<lparr>mpk_force_sig := True\<rparr>)\<rparr>"
    using req by (auto simp: cli_signed_request_def cli_auth_sig_msg_def req_packet_pubkey_def and_then_Inr_eq)
  have m: "m1\<lparr>mpk_sig := None\<rparr> = m0" "mpk_sig m1 = Some (signature_from_owned sig)" "mpk_pubkey m1 = sign_key_pubkey cr key"
    using m0 m1 by (auto simp: method_pub_key_new_def and_then_Inr_eq)
  let ?q = "p\<lparr>ur_method := received_method (ur_method p)\<rparr>"
  have v: "sig_type_verify cr SigTypeEd25519 (sign_key_pubkey cr key) (enc_auth_sig_msg (auth_sig_msg_new
        \<lparr>ur_username = ca_username ca, ur_service = SSH_SERVICE_CONNECTION,
         ur_method = MethodPubKey (m0\<lparr>mpk_force_sig := True\<rparr>)\<rparr> sid)) (signature_from_owned sig) = Inr ()"
    by (rule sign_verify [OF ok sg])
  have u: "unsigned_request ?q (m1\<lparr>mpk_force_sig := False\<rparr>) =
      \<lparr>ur_username = ca_username ca, ur_service = SSH_SERVICE_CONNECTION, ur_method = MethodPubKey (m0\<lparr>mpk_force_sig := True\<rparr>)\<rparr>"
    using m(1) by (auto simp: unsigned_request_def p)
  have "serv_verify_sig cr (unsigned_request ?q (m1\<lparr>mpk_force_sig := False\<rparr>)) (signature_from_owned sig) sid"
    unfolding u using v m0 sg
    by (cases key) (auto simp: serv_verify_sig_def and_then_Inr_eq method_pub_key_new_def)
  then have "serv_request_pubkey cr ?q sid = Inr (DispServEvent (ServPubkeyAuth True))"
    using m(2) by (auto simp: serv_request_pubkey_signed p)
  moreover have "sa1 = sa\<lparr>sa_username := Some (ca_username ca)\<rparr>" using serv_check_username_Inr(1) [OF sa(3)] .
  ultimately show ?thesis
    using sa by (auto simp: serv_request_def serv_request_event_def p Let_def)
qed

end
