(* ===== verification/SSH_Conn_Correct.thy ===== *)
theory SSH_Conn_Correct
  imports SSH_Conn SSH_Channel_Correct SSH_Auth_Correct
begin

section \<open>Correctness of the connection\<close>

text \<open>
  The invariant of a connection (\<open>conn_inv\<close>) composes those of the key exchange, the channels and the sender;
  progress and every packet keep it and never panic. On top of it: which packets are accepted when, that the
  session identifier and the state only move forward, and what a server does before authentication.
\<close>

subsection \<open>What authentication sends\<close>

lemma plain_auth_packets [simp]:
  "plain (userauth_packet rq)" "plain (ServiceRequest n)" "plain (ServiceAccept n)" "plain UserauthSuccess"
  "plain (UserauthFailure l b)" "plain (Userauth60 a)" "plain (req_packet_password u p)"
  by (simp_all add: plain_def userauth_packet_def req_packet_password_def)

lemma req_packet_pubkey_not_Panic: "req_packet_pubkey cr u k sig f \<noteq> Inl Panic"
  by (auto simp: req_packet_pubkey_def method_pub_key_new_def and_then_Inl_eq trap_result_def map_err_Inl_eq)

lemma cli_signed_request_not_Panic:
  "\<not> sign_key_is_agent k \<Longrightarrow> cli_signed_request cr k sid ca \<noteq> Inl Panic"
  by (auto simp: cli_signed_request_def cli_auth_sig_msg_def and_then_Inl_eq req_packet_pubkey_not_Panic sign_not_Panic)

text \<open>The name lists of a packet from the peer are strings.\<close>

fun remote_lists :: "packet \<Rightarrow> bool" where
  "remote_lists (ExtInfo (Some l)) \<longleftrightarrow> (\<exists>s. l = StringNames s)"
| "remote_lists _ \<longleftrightarrow> True"

lemma dec_bind_Inr: "dec_bind d f s = Inr (b, s'') \<longleftrightarrow> (\<exists>a s'. d s = Inr (a, s') \<and> f a s' = Inr (b, s''))"
  by (auto simp: dec_bind_def and_then_Inr_eq)

lemma dec_return_Inr [simp]: "dec_return a s = Inr (b, s') \<longleftrightarrow> b = a \<and> s' = s"
  by (auto simp: dec_return_def)

lemma dec_ext_info_loop_remote:
  "dec_ext_info_loop n acc s = Inr (e, s') \<Longrightarrow> remote_lists (ExtInfo acc) \<Longrightarrow> remote_lists (ExtInfo e)"
  by (induction n arbitrary: acc s) (auto simp: dec_bind_Inr dec_name_list_def split: if_splits)

lemma dec_packet_fields_kind:
  "dec_packet_fields m s = Inr (p, s') \<Longrightarrow> message_num p = m"
  by (cases m) (auto simp: dec_bind_Inr)

lemma message_num_kinds:
  "message_num p = SSH_MSG_EXT_INFO \<longleftrightarrow> (\<exists>e. p = ExtInfo e)"
  "message_num p = SSH_MSG_CHANNEL_DATA \<longleftrightarrow> (\<exists>n d. p = ChannelData n d)"
  "message_num p = SSH_MSG_CHANNEL_EXTENDED_DATA \<longleftrightarrow> (\<exists>n c d. p = ChannelDataExt n c d)"
  by (cases p; simp)+

lemma packet_from_bytes_Inr:
  assumes "packet_from_bytes pl ctx = Inr p"
  obtains s where "pl \<noteq> []" "dec_packet_fields (message_num p) (src (tl pl) (ctx\<lparr>seen_unknown := False\<rparr>)) = Inr (p, s)"
    "input s = [] \<or> seen_unknown (parse_ctx s)"
proof -
  obtain s where d: "dec_packet (src pl (ctx\<lparr>seen_unknown := False\<rparr>)) = Inr (p, s)"
    and s: "input s = [] \<or> seen_unknown (parse_ctx s)"
    using assms by (auto simp: packet_from_bytes_def and_then_Inr_eq split: if_splits)
  from d have ne: "pl \<noteq> []"
    by (auto simp: dec_packet_def dec_bind_Inr dec_u8_def source_take_def split: if_splits)
  then have "dec_packet (src pl (ctx\<lparr>seen_unknown := False\<rparr>)) =
      (case message_number_try_from (hd pl) of
         Inl _ \<Rightarrow> dec_fail (WireUnknownPacket (hd pl))
       | Inr ty \<Rightarrow> dec_packet_fields ty) (src (tl pl) (ctx\<lparr>seen_unknown := False\<rparr>))"
    by (cases pl; cases "message_number_try_from (hd pl)")
       (simp_all add: dec_packet_def dec_bind_def dec_u8_def source_take_def dec_return_def)
  with d obtain m where "dec_packet_fields m (src (tl pl) (ctx\<lparr>seen_unknown := False\<rparr>)) = Inr (p, s)"
    by (cases "message_number_try_from (hd pl)") (auto simp: dec_fail_def)
  with ne s that show ?thesis using dec_packet_fields_kind by metis
qed

lemma packet_remote_lists:
  assumes "packet_from_bytes pl ctx = Inr p" shows "remote_lists p"
proof (cases "\<exists>e. p = ExtInfo e")
  case True
  then obtain e where p: "p = ExtInfo e" ..
  obtain s where "dec_packet_fields (message_num p) (src (tl pl) (ctx\<lparr>seen_unknown := False\<rparr>)) = Inr (p, s)"
    using assms by (rule packet_from_bytes_Inr)
  then show ?thesis by (auto simp: p dec_bind_Inr dec_ext_info_def dest!: dec_ext_info_loop_remote)
next
  case False
  then show ?thesis by (cases p) auto
qed

text \<open>Where the data of a channel data packet is in the payload.\<close>

lemma channel_data_payload:
  assumes "packet_from_bytes pl ctx = Inr (ChannelData n d)"
  shows "length pl = 9 + length d" "drop 9 pl = d"
proof -
  obtain s where "pl \<noteq> []" "dec_packet_fields SSH_MSG_CHANNEL_DATA (src (tl pl) (ctx\<lparr>seen_unknown := False\<rparr>)) = Inr (ChannelData n d, s)"
    "input s = [] \<or> seen_unknown (parse_ctx s)"
    using packet_from_bytes_Inr [OF assms] by auto
  then show "length pl = 9 + length d" "drop 9 pl = d"
    using drop_Suc [of 8 pl]
    by (auto simp: dec_bind_Inr dec_u32_def dec_binstring_def source_take_def drop_drop drop_Suc take_drop
      split: if_splits)
qed

lemma channel_data_ext_payload:
  assumes "packet_from_bytes pl ctx = Inr (ChannelDataExt n c d)"
  shows "length pl = 13 + length d" "drop 13 pl = d"
proof -
  obtain s where "pl \<noteq> []" "dec_packet_fields SSH_MSG_CHANNEL_EXTENDED_DATA (src (tl pl) (ctx\<lparr>seen_unknown := False\<rparr>)) = Inr (ChannelDataExt n c d, s)"
    "input s = [] \<or> seen_unknown (parse_ctx s)"
    using packet_from_bytes_Inr [OF assms] by auto
  then show "length pl = 13 + length d" "drop 13 pl = d"
    using drop_Suc [of 12 pl]
    by (auto simp: dec_bind_Inr dec_u32_def dec_binstring_def source_take_def drop_drop drop_Suc take_drop
      split: if_splits)
qed

lemma cli_handle_ext_info_not_Panic:
  "remote_lists (ExtInfo algs) \<Longrightarrow> cli_handle_ext_info cr algs ca = (r, ca') \<Longrightarrow> r \<noteq> Inl Panic"
  by (cases algs) (auto simp: cli_handle_ext_info_def unwrap_result_def split: sum.splits if_splits)

lemma cli_failure_not_Panic: "cli_failure cr methods ca ctx = (r, ca', ctx') \<Longrightarrow> r \<noteq> Inl Panic"
  by (auto simp: cli_failure_def Let_def and_then_Inl_eq names_not_Panic split: if_splits)

lemma serv_request_event_not_Panic: "serv_request_event cr p sid sa \<noteq> Inl Panic"
  by (auto simp: serv_request_event_def serv_request_pubkey_def Let_def
      split: auth_method.splits if_splits pub_key.splits option.splits)

lemma serv_check_username_not_Panic: "serv_check_username u sa \<noteq> Inl Panic"
  by (auto simp: serv_check_username_def split: option.splits)

context plain_sender
begin

lemma safe_packet:
  assumes "r \<noteq> Inl Panic"
  shows "safe I (st_bind (st_lift r) (\<lambda>p. ts_send cr (userauth_packet p)))"
  by (intro safe_intros safe_plain) (simp_all add: assms)

lemma cli_auth_pkok_safe:
  assumes "cli_auth_pkok cr k sid ca ctx ts = (r, ctx', ts')" "I ts"
  shows "I ts' \<and> r \<noteq> Inl Panic"
proof (cases "\<exists>key. ca_state ca = AuthRequestKey key \<and> sign_key_pubkey cr key = k \<and> \<not> sign_key_is_agent key")
  case True
  then obtain key where key: "ca_state ca = AuthRequestKey key" "sign_key_pubkey cr key = k" "\<not> sign_key_is_agent key"
    by blast
  obtain r1 ts1 where s: "st_bind (st_lift (cli_signed_request cr key sid ca)) (\<lambda>p. ts_send cr (userauth_packet p)) ts
    = (r1, ts1)" by fastforce
  from safeD [OF safe_packet [OF cli_signed_request_not_Panic [OF key(3)]] assms(2) s] s assms(1) key show ?thesis
    by (cases r1) (auto simp: cli_auth_pkok_def)
qed (use assms in \<open>auto simp: cli_auth_pkok_def split: auth_state.splits if_splits\<close>)

lemma cli_auth60_safe:
  "cli_auth60 cr p sid ca ctx ts = (r, ctx', ts') \<Longrightarrow> I ts \<Longrightarrow> I ts' \<and> r \<noteq> Inl Panic"
  by (cases p) (auto simp: cli_change_password_def dest: cli_auth_pkok_safe)

lemma cli_resume_username_safe:
  assumes "cli_resume_username cr u ca ts = (r, ca', ts')" "I ts"
  shows "I ts' \<and> r \<noteq> Inl Panic"
proof (cases "length u > MAX_USERNAME")
  case False
  let ?p = "userauth_packet \<lparr>ur_username = u, ur_service = SSH_SERVICE_CONNECTION, ur_method = MethodNone\<rparr>"
  have "safe I (st_bind (ts_send cr (ServiceRequest SSH_SERVICE_USERAUTH)) (\<lambda>_. ts_send cr ?p))"
    by (intro safe_intros safe_plain) simp_all
  from safeD [OF this assms(2)] assms(1) False show ?thesis
    by (auto simp: cli_resume_username_def Let_def split: prod.splits)
qed (use assms in \<open>auto simp: cli_resume_username_def\<close>)

lemma cli_resume_agentsign_safe:
  assumes "cli_resume_agentsign cr sig ca ctx ts = (r, ctx', ts')" "I ts"
  shows "I ts' \<and> r \<noteq> Inl Panic"
proof (cases "\<exists>key sg. ca_state ca = AuthRequestKey key \<and> sig = Some sg")
  case True
  then obtain key sg where k: "ca_state ca = AuthRequestKey key" "sig = Some sg" by blast
  obtain r1 ts1 where s: "st_bind (st_lift (req_packet_pubkey cr (ca_username ca) key (Some sg) True))
    (\<lambda>p. ts_send cr (userauth_packet p)) ts = (r1, ts1)" by fastforce
  from safeD [OF safe_packet [OF req_packet_pubkey_not_Panic] assms(2) s] s assms(1) k show ?thesis
    by (cases r1) (auto simp: cli_resume_agentsign_def)
qed (use assms in \<open>auto simp: cli_resume_agentsign_def Let_def split: auth_state.splits option.splits\<close>)

lemma cli_resume_password_safe:
  assumes "cli_resume_password cr pw ca ctx ts = (r, ca', ctx', ts')" "I ts"
  shows "I ts' \<and> r \<noteq> Inl Panic"
proof (cases pw)
  case (Some p)
  obtain r1 ts1 where t: "ts_send cr (req_packet_password (ca_username ca) p) ts = (r1, ts1)" by fastforce
  from send [OF _ assms(2) t] t assms(1) Some show ?thesis
    by (cases r1) (auto simp: cli_resume_password_def)
qed (use assms in \<open>auto simp: cli_resume_password_def\<close>)

lemma cli_resume_pubkey_safe:
  assumes "cli_resume_pubkey cr k ca ctx ts = (r, ca', ctx', ts')" "I ts"
  shows "I ts' \<and> r \<noteq> Inl Panic"
proof (cases k)
  case (Some key)
  obtain r1 ts1 where s: "st_bind (st_lift (req_packet_pubkey cr (ca_username ca) key None False))
    (\<lambda>p. ts_send cr (userauth_packet p)) ts = (r1, ts1)" by fastforce
  from safeD [OF safe_packet [OF req_packet_pubkey_not_Panic] assms(2) s] s assms(1) Some show ?thesis
    by (cases r1) (auto simp: cli_resume_pubkey_def)
qed (use assms in \<open>auto simp: cli_resume_pubkey_def Let_def split: if_splits\<close>)

lemma serv_send_failure_safe: "safe I (serv_send_failure cr sa)"
  unfolding serv_send_failure_def
  using avail_methods_ok [of sa] by (auto intro!: safe_intros safe_plain)

lemma serv_request_safe:
  assumes "serv_request cr sid p sa ts = (r, sa', ts')" "I ts"
  shows "I ts' \<and> r \<noteq> Inl Panic"
proof (cases "serv_check_username (ur_username p) sa")
  case (Inl e)
  with assms serv_check_username_not_Panic [of "ur_username p" sa] show ?thesis by (auto simp: serv_request_def)
next
  case (Inr sa1)
  show ?thesis
  proof (cases "sa_authed sa1")
    case True
    obtain r1 ts1 where t: "ts_send cr UserauthSuccess ts = (r1, ts1)" by fastforce
    from send [OF _ assms(2) t] t assms(1) Inr True show ?thesis by (cases r1) (auto simp: serv_request_def)
  next
    case False
    show ?thesis
    proof (cases "serv_request_event cr p sid sa1")
      case (Inl e)
      with Inr False assms serv_request_event_not_Panic [of cr p sid sa1] show ?thesis
        by (auto simp: serv_request_def)
    next
      case ev: (Inr ev)
      obtain r1 ts1 where t: "serv_send_failure cr (sa1\<lparr>sa_tried_first := True\<rparr>) ts = (r1, ts1)" by fastforce
      from safeD [OF serv_send_failure_safe assms(2) t] t assms Inr False ev show ?thesis
        by (cases r1) (auto simp: serv_request_def Let_def split: if_splits)
    qed
  qed
qed

lemma serv_resume_request_safe:
  assumes "serv_resume_request cr allow sa ts = (r, sa', ts')" "I ts"
  shows "I ts' \<and> r \<noteq> Inl Panic"
proof (cases allow)
  case True
  obtain r1 ts1 where t: "ts_send cr UserauthSuccess ts = (r1, ts1)" by fastforce
  from send [OF _ assms(2) t] t assms(1) True show ?thesis by (simp add: serv_resume_request_def)
next
  case False
  obtain r1 ts1 where t: "serv_send_failure cr sa ts = (r1, ts1)" by fastforce
  from safeD [OF serv_send_failure_safe assms(2) t] t assms(1) False show ?thesis
    by (simp add: serv_resume_request_def)
qed

lemma serv_resume_pkok_safe: "safe I (serv_resume_pkok cr p)"
proof (cases "\<exists>u s m. p = UserauthRequest u s (MethodPubKey m)")
  case True
  then obtain u s m where p: "p = UserauthRequest u s (MethodPubKey m)" by blast
  have "serv_resume_pkok cr p = ts_send cr (Userauth60 (PkOk (mpk_sig_algo m) (mpk_pubkey m)))"
    by (intro ext) (simp add: p)
  then show ?thesis by (simp add: safe_plain)
next
  case False
  have "serv_resume_pkok cr p ts = (Inl Bug, ts)" for ts
    using False by (cases "(cr, p, ts)" rule: serv_resume_pkok.cases) auto
  then show ?thesis by (simp add: safe_def)
qed

lemma service_request_safe: "safe I (service_request cr name sa)"
proof (cases "name = SSH_SERVICE_USERAUTH \<or> name = SSH_SERVICE_CONNECTION \<and> serv_is_authed sa")
  case True
  then have "service_request cr name sa = ts_send cr (ServiceAccept name)"
    by (intro ext) (auto simp: service_request_def)
  then show ?thesis by (simp add: safe_plain)
next
  case False
  then have "service_request cr name sa ts = (Inl SSHProto, ts)" for ts by (auto simp: service_request_def)
  then show ?thesis by (simp add: safe_def)
qed

end

subsection \<open>The invariant\<close>

text \<open>
  Before the identification string is sent no key exchange runs, and no channel is past its opening.
\<close>

definition all_opening :: "channels \<Rightarrow> bool" where
  "all_opening cs \<longleftrightarrow> (\<forall>ch. Some ch \<in> set (chs cs) \<longrightarrow> ch_state ch = Opening \<and> \<not> open_confirmed ch)"

definition conn_core :: "crypto \<Rightarrow> conn \<Rightarrow> traf_send \<Rightarrow> bool" where
  "conn_core cr c ts \<longleftrightarrow> ts_inv ts
     \<and> kex_inv cr (conn_is_client c) (cn_sess_id c) (cn_kex c) ts
     \<and> chans_inv (cn_channels c) \<and> chs_is_client (cn_channels c) = conn_is_client c
     \<and> (\<exists>seen. rv_inv seen (cn_remote_version c))
     \<and> (cn_state c \<in> {PreAuth, Authed} \<longrightarrow> cn_sess_id c \<noteq> None)"

definition conn_inv :: "crypto \<Rightarrow> conn \<Rightarrow> traf_send \<Rightarrow> bool" where
  "conn_inv cr c ts \<longleftrightarrow> conn_core cr c ts
     \<and> (cn_state c = SendIdent \<longrightarrow> cn_kex c = KexIdle \<and> all_opening (cn_channels c))"

lemma version_not_Panic: "rv_inv seen rv \<Longrightarrow> version rv \<noteq> Inl Panic"
  by (auto simp: version_def rv_inv_def panic_option_def slice_def and_then_Inl_eq split: vers_pars.splits if_splits)

lemma conn_new_inv:
  assumes "conn_new is_client = Inr c" "ts_inv ts" "\<not> sending_kex (ts_out ts)" "\<not> drain (ts_out ts)"
  shows "conn_inv cr c ts" "conn_is_client c = is_client"
  using assms rv_inv_new [of is_client] kex_inv_new [of ts cr is_client None] chans_inv_new [of is_client]
  by (cases is_client; auto simp: conn_new_def algo_config_new_eq conn_inv_def conn_core_def conn_is_client_def cli_serv_default_def
      kex_new_def all_opening_def channels_new_def)+

lemma kex_inv_calm: "kex_inv cr c sid k ts \<Longrightarrow> calm cr ts ts' \<Longrightarrow> kex_inv cr c sid k ts'"
  by (simp add: kex_inv_def calm_def)

text \<open>An operation on the channels or on authentication keeps the invariant of the connection.\<close>

lemma conn_inv_calm: "conn_inv cr c ts \<Longrightarrow> calm cr ts ts' \<Longrightarrow> conn_inv cr c ts'"
  using kex_inv_calm [of cr "conn_is_client c" "cn_sess_id c" "cn_kex c" ts ts'] by (simp add: conn_inv_def conn_core_def calm_def)

lemma conn_inv_channels:
  "conn_inv cr c ts \<Longrightarrow> chans_inv cs \<Longrightarrow> chs_is_client cs = conn_is_client c
     \<Longrightarrow> (cn_state c = SendIdent \<Longrightarrow> all_opening cs) \<Longrightarrow> conn_inv cr (c\<lparr>cn_channels := cs\<rparr>) ts"
  by (simp add: conn_inv_def conn_core_def conn_is_client_def)

lemma conn_inv_auth [simp]:
  "cs_is_client (cn_cliserv c) = cs_is_client x \<Longrightarrow> conn_inv cr (c\<lparr>cn_cliserv := x\<rparr>) ts = conn_inv cr c ts"
  "conn_inv cr (c\<lparr>cn_parse_ctx := ctx\<rparr>) ts = conn_inv cr c ts"
  by (simp_all add: conn_inv_def conn_core_def conn_is_client_def)

lemma kex_progress_same_recv:
  assumes "kex_progress cr c conf k ts = (r, k', ts')"
  shows "same_recv (ts_keys ts) (ts_keys ts')"
proof -
  have s: "same_recv (ts_keys a) (ts_keys b)" if "ts_send cr p a = (x, b)" for p a b x
    using that by (rule ts_send_flags(2))
  have f: "same_recv (ts_keys a) (ts_keys b)" if "ts_fill_random cr n a = (x, b)" for n a b x
    using that by (auto simp: ts_fill_random_def same_recv_def)
  have q: "same_recv (ts_keys a) (ts_keys b)" if "shared_secret_q_c cr ss a = (x, b)" for ss a b x
    using that by (cases ss)
      (auto simp: init_pubkey_arr_client_def st_lift_def elim!: st_bind_cases dest!: f)
  have i: "same_recv (ts_keys a) (ts_keys b)" if "send_kexdhinit cr ss a = (x, b)" for ss a b x
    using that by (auto simp: send_kexdhinit_def st_lift_def elim!: st_bind_cases dest!: q s split: prod.splits
      intro: same_recv_trans)
  have d: "ts_keys (ts_set_drain_output b a) = ts_keys a" for a b
    by (simp add: ts_set_drain_output_def)
  show ?thesis
    using assms
    by (cases k)
       (auto simp: kex_step_def start_kexinit_def kex_cookie_generate_def st_lift_def d
         elim!: st_bind_cases dest!: s f i split: if_splits prod.splits sum.splits intro: same_recv_trans)
qed

lemma all_opening_get: "all_opening cs \<Longrightarrow> get_chan n cs = Inl (BadChannel n)"
  by (cases "get_chan n cs")
     (auto simp: all_opening_def get_chan_Inr get_any_Inr dest: get_chan_Inl nth_mem)

lemma channels_progress_event:
  "channels_progress_loop cr l ts = (ev, l', ts') \<Longrightarrow> ev \<noteq> DispNone \<Longrightarrow> \<exists>ch. Some ch \<in> set l \<and> open_confirmed ch"
proof (induction l arbitrary: ev l' ts ts')
  case (Cons x l)
  show ?case
  proof (cases x)
    case None
    obtain ev2 l2 ts2 where n: "channels_progress_loop cr l ts = (ev2, l2, ts2)" by (metis prod_cases3)
    from Cons.IH [OF n] Cons.prems None n show ?thesis by auto
  next
    case (Some ch)
    obtain ch1 ts1 where w: "check_send_window_adjust cr ch ts = (ch1, ts1)" by fastforce
    have o: "open_confirmed ch1 = open_confirmed ch"
      using w by (auto simp: check_send_window_adjust_def split: if_splits option.splits prod.splits sum.splits)
    obtain ev2 l2 ts2 where n: "channels_progress_loop cr l ts1 = (ev2, l2, ts2)" by (metis prod_cases3)
    from Cons.IH [OF n] Cons.prems Some n w o show ?thesis by (cases "open_confirmed ch") auto
  qed
qed simp

lemma channels_progress_is_client:
  "channels_progress cr cs ts = (ev, cs', ts') \<Longrightarrow> chs_is_client cs' = chs_is_client cs"
  by (auto simp: channels_progress_def split: prod.splits)

lemma ts_send_version_ok:
  assumes "ts_send_version ts = (r, ts')" "ts_inv ts"
  shows "ts_inv ts'" "r \<noteq> Inl Panic" "same_recv (ts_keys ts) (ts_keys ts')"
    "drain (ts_out ts') = drain (ts_out ts)" "sending_kex (ts_out ts') = sending_kex (ts_out ts)"
  using assms
  by (auto simp: ts_send_version_def send_version_def write_version_def and_then_Inr_eq and_then_Inl_eq ts_inv_def
      tx_inv_def split: sum.splits if_splits)

lemma conn_progress_state_ok:
  assumes p: "conn_progress_state c ts = (r, c', ts')" and core: "conn_core cr c ts"
    and ident: "cn_state c = SendIdent \<Longrightarrow> \<not> kex_is_sending (cn_kex c)"
  shows "ts_inv ts' \<and> r \<noteq> Inl Panic \<and> same_recv (ts_keys ts) (ts_keys ts')
    \<and> (\<forall>d. r = Inr d \<longrightarrow> conn_inv cr c' ts')"
proof (cases "cn_state c")
  case SendIdent
  obtain r1 ts1 where v: "ts_send_version ts = (r1, ts1)" by fastforce
  note o = ts_send_version_ok [OF v] 
  show ?thesis
  proof (cases r1)
    case (Inl e)
    with p SendIdent v o core show ?thesis by (auto simp: conn_progress_state_def conn_core_def)
  next
    case (Inr u)
    then have "c' = c\<lparr>cn_kex := StartKexInit, cn_state := ReceiveIdent\<rparr>" "ts' = ts_set_drain_output True ts1"
      "\<exists>d. r = Inr d"
      using p SendIdent v by (auto simp: conn_progress_state_def start_kexinit_def)
    moreover have "ts_inv ts1" "same_recv (ts_keys ts) (ts_keys ts1)" "sending_kex (ts_out ts1) = False"
      using o core ident [OF SendIdent] by (auto simp: conn_core_def kex_inv_def)
    ultimately show ?thesis
      using core by (auto simp: conn_core_def conn_inv_def kex_inv_def ts_inv_updates conn_is_client_def
          ts_set_drain_output_def [THEN arg_cong [of _ _ ts_keys]])
  qed
next
  case ReceiveIdent
  obtain seen where "rv_inv seen (cn_remote_version c)" using core by (auto simp: conn_core_def)
  from version_not_Panic [OF this] p ReceiveIdent core show ?thesis
    by (auto simp: conn_progress_state_def conn_core_def conn_inv_def conn_is_client_def split: sum.splits option.splits)
next
  case FirstKex
  with p core show ?thesis
    by (auto simp: conn_progress_state_def conn_core_def conn_inv_def conn_is_client_def split: if_splits)
next
  case PreAuth
  with p core show ?thesis
    by (cases "cn_cliserv c")
       (auto simp: conn_progress_state_def conn_core_def conn_inv_def conn_is_client_def split: prod.splits)
next
  case Authed
  with p core show ?thesis by (auto simp: conn_progress_state_def conn_inv_def conn_core_def)
qed

lemma conn_progress_ok:
  assumes p: "conn_progress cr c ts = (r, c', ts')" and inv: "conn_inv cr c ts" and cr: "crypto_ok cr"
  shows "ts_inv ts' \<and> r \<noteq> Inl Panic \<and> same_recv (ts_keys ts) (ts_keys ts')
    \<and> (\<forall>d. r = Inr d \<longrightarrow> conn_inv cr c' ts')"
proof -
  have core: "conn_core cr c ts" using inv by (simp add: conn_inv_def)
  obtain r1 k ts1 where kp: "kex_progress cr (conn_is_client c) (cn_algo_conf c) (cn_kex c) ts = (r1, k, ts1)"
    by (metis prod_cases3)
  note safe = kex_progress_safe [OF cr kp] and recv = kex_progress_same_recv [OF kp]
  show ?thesis
  proof (cases r1)
    case (Inl e)
    with p kp safe recv core show ?thesis by (auto simp: conn_progress_def conn_core_def)
  next
    case (Inr u)
    define c1 where "c1 = c\<lparr>cn_kex := k\<rparr>"
    have core1: "conn_core cr c1 ts1"
      using core safe Inr kex_progress_inv [of cr "conn_is_client c" "cn_algo_conf c" "cn_kex c" ts k ts1 "cn_sess_id c"] kp
      by (auto simp: conn_core_def c1_def conn_is_client_def)
    have k: "cn_state c = SendIdent \<Longrightarrow> \<not> kex_is_sending k"
      using inv kp by (auto simp: conn_inv_def start_kexinit_def split: if_splits)
    show ?thesis
    proof (cases "kex_is_sending k")
      case True
      then have "conn_progress_state c1 ts1 = (r, c', ts')"
        using p kp Inr by (simp add: conn_progress_def conn_is_kex_sending_def c1_def)
      from conn_progress_state_ok [OF this core1] k recv show ?thesis
        by (auto simp: c1_def intro: same_recv_trans)
    next
      case False
      obtain ev cs ts2 where ch: "channels_progress cr (cn_channels c) ts1 = (ev, cs, ts2)" by (metis prod_cases3)
      have cal: "calm cr ts1 ts2"
        using calm.channels_progress_keeps [OF ch calm_refl [OF cr]] core1 by (simp add: conn_core_def)
      define c2 where "c2 = c1\<lparr>cn_channels := cs\<rparr>"
      have core2: "conn_core cr c2 ts2"
        using core1 cal channels_progress_inv [OF _ ch] channels_progress_is_client [OF ch] kex_inv_calm [OF _ cal]
        by (auto simp: conn_core_def c2_def c1_def conn_is_client_def calm_def)
      have recv2: "same_recv (ts_keys ts) (ts_keys ts2)"
        using recv cal by (auto simp: calm_def intro: same_recv_trans)
      show ?thesis
      proof (cases "ev = DispNone")
        case True
        then have "conn_progress_state c2 ts2 = (r, c', ts')"
          using p kp Inr False ch by (simp add: conn_progress_def conn_is_kex_sending_def c1_def c2_def)
        from conn_progress_state_ok [OF this core2] k recv2 show ?thesis
          by (auto simp: c1_def c2_def intro: same_recv_trans)
      next
        case ev: False
        then have "c' = c2" "ts' = ts2" "\<exists>d. r = Inr d"
          using p kp Inr False ch by (auto simp: conn_progress_def conn_is_kex_sending_def c1_def c2_def)
        moreover have "cn_state c \<noteq> SendIdent"
          using ev ch inv by (auto simp: conn_inv_def all_opening_def channels_progress_def split: prod.splits
              dest: channels_progress_event)
        ultimately show ?thesis using core2 recv2 by (auto simp: conn_inv_def conn_core_def c2_def c1_def)
      qed
    qed
  qed
qed

subsection \<open>Packets\<close>

lemma put_chan_is_client [simp]: "chs_is_client (put_chan n ch cs) = chs_is_client cs"
  by (simp add: put_chan_def)

lemma channels_dispatch_is_client:
  assumes "channels_dispatch cr p cs ts = (r, cs', ts')"
  shows "chs_is_client cs' = chs_is_client cs"
proof -
  obtain r1 cs1 ts1 where i: "channels_dispatch_inner cr p cs ts = (r1, cs1, ts1)" by (metis prod_cases3)
  have "chs_is_client cs1 = chs_is_client cs"
    using i
    by (cases p)
       (auto simp: dispatch_open_def dispatch_open_inner_def reserve_chan_def dispatch_open_confirmation_def
         dispatch_open_failure_def channels_remove_def dispatch_window_adjust_def dispatch_data_ext_def
         dispatch_on_chan_def Let_def
         split: sum.splits if_splits option.splits chan_state.splits channel_open_type.splits prod.splits
           dispatch_open_error.splits)
  then show ?thesis
    using assms i by (auto simp: channels_dispatch_def split: sum.splits ssh_error.splits)
qed

definition conn_keeps :: "crypto \<Rightarrow> 'a ssh_result \<times> conn \<times> traf_send \<Rightarrow> bool" where
  "conn_keeps cr x \<longleftrightarrow> (case x of (r, c, ts) \<Rightarrow> ts_inv ts \<and> r \<noteq> Inl Panic \<and> (\<forall>v. r = Inr v \<longrightarrow> conn_inv cr c ts))"

lemma conn_inv_ts: "conn_inv cr c ts \<Longrightarrow> ts_inv ts"
  by (simp add: conn_inv_def conn_core_def)

lemma on_channels_keeps:
  assumes inv: "conn_inv cr c ts" and cr: "crypto_ok cr" and st: "cn_state c \<noteq> SendIdent"
    and f: "\<And>r cs' ts'. f (cn_channels c) ts = (r, cs', ts') \<Longrightarrow>
      chans_inv cs' \<and> chs_is_client cs' = chs_is_client (cn_channels c) \<and> calm cr ts ts' \<and> r \<noteq> Inl Panic"
  shows "conn_keeps cr (on_channels f c ts)"
proof -
  obtain r cs' ts' where r: "f (cn_channels c) ts = (r, cs', ts')" by (metis prod_cases3)
  note o = f [OF r]
  have "conn_inv cr (c\<lparr>cn_channels := cs'\<rparr>) ts"
    using inv o st by (intro conn_inv_channels) (auto simp: conn_inv_def conn_core_def)
  then have "conn_inv cr (c\<lparr>cn_channels := cs'\<rparr>) ts'" using o by (blast intro: conn_inv_calm)
  then show ?thesis using r o by (simp add: conn_keeps_def on_channels_def calm_def)
qed

lemma on_kex_keeps:
  assumes inv: "conn_inv cr c ts" and st: "cn_state c \<noteq> SendIdent"
    and f: "\<And>r k ts'. f (cn_kex c) ts = (r, k, ts') \<Longrightarrow> ts_inv ts' \<and> r \<noteq> Inl Panic"
    and g: "\<And>k ts'. f (cn_kex c) ts = (Inr (), k, ts') \<Longrightarrow> kex_inv cr (conn_is_client c) (cn_sess_id c) k ts'"
  shows "conn_keeps cr (on_kex f ev c ts)"
proof -
  obtain r k ts' where r: "f (cn_kex c) ts = (r, k, ts')" by (metis prod_cases3)
  from f [OF r] g r inv st show ?thesis
    by (cases r) (auto simp: conn_keeps_def on_kex_def conn_inv_def conn_core_def conn_is_client_def)
qed

lemma conn_keeps_calm:
  assumes "conn_inv cr c ts" "calm cr ts ts'" "r \<noteq> Inl Panic"
  shows "conn_keeps cr (r, c, ts')"
  using assms conn_inv_calm by (auto simp: conn_keeps_def calm_def)

lemma dispatch_auth_keeps:
  assumes inv: "conn_inv cr c ts" and cr: "crypto_ok cr"
  shows "conn_keeps cr (dispatch_userauth_request cr q c ts)"
    and "conn_keeps cr (dispatch_userauth60 cr u c ts)"
    and "dispatch_service_request cr name c ts = (r, ts') \<Longrightarrow> conn_keeps cr (r, c, ts')"
    and "dispatch_userauth_failure cr methods c = (r, c') \<Longrightarrow> conn_keeps cr (r, c', ts)"
    and "cn_state c \<noteq> SendIdent \<Longrightarrow> dispatch_userauth_success c = (r, c') \<Longrightarrow> conn_keeps cr (r, c', ts)"
    and "remote_lists (ExtInfo algs) \<Longrightarrow> dispatch_ext_info cr algs c = (r, c') \<Longrightarrow> conn_keeps cr (r, c', ts)"
proof -
  note ts = conn_inv_ts [OF inv] and refl = calm_refl [OF cr conn_inv_ts [OF inv]]
  show "conn_keeps cr (dispatch_userauth_request cr q c ts)"
  proof (cases "cn_cliserv c")
    case (Server sa)
    show ?thesis
    proof (cases "cn_sess_id c")
      case (Some sid)
      obtain r sa' ts' where s: "serv_request cr sid q sa ts = (r, sa', ts')" by (metis prod_cases3)
      have "conn_inv cr (c\<lparr>cn_cliserv := Server sa'\<rparr>) ts" using inv Server by simp
      with calm.serv_request_safe [OF s refl] s Server Some show ?thesis
        by (simp add: dispatch_userauth_request_def trap_option_def conn_keeps_calm)
    qed (use Server ts in \<open>simp add: dispatch_userauth_request_def trap_option_def conn_keeps_def\<close>)
  qed (use ts in \<open>simp add: dispatch_userauth_request_def conn_keeps_def\<close>)
  show "conn_keeps cr (dispatch_userauth60 cr u c ts)"
  proof (cases "cn_cliserv c")
    case (Client ca)
    show ?thesis
    proof (cases "cn_sess_id c")
      case (Some sid)
      obtain r ctx' ts' where s: "cli_auth60 cr u sid ca (cn_parse_ctx c) ts = (r, ctx', ts')" by (metis prod_cases3)
      have "conn_inv cr (c\<lparr>cn_parse_ctx := ctx'\<rparr>) ts" using inv by simp
      with calm.cli_auth60_safe [OF s refl] s Client Some show ?thesis
        by (simp add: dispatch_userauth60_def trap_option_def conn_keeps_calm)
    qed (use Client ts in \<open>simp add: dispatch_userauth60_def trap_option_def conn_keeps_def\<close>)
  qed (use ts in \<open>simp add: dispatch_userauth60_def conn_keeps_def\<close>)
  show "conn_keeps cr (r, c, ts')" if "dispatch_service_request cr name c ts = (r, ts')"
  proof (cases "cn_cliserv c")
    case (Server sa)
    obtain r1 ts1 where s: "service_request cr name sa ts = (r1, ts1)" by fastforce
    from safeD [OF calm.service_request_safe refl s] that s Server inv show ?thesis
      by (auto simp: dispatch_service_request_def and_then_Inl_eq intro!: conn_keeps_calm)
  qed (use that ts in \<open>auto simp: dispatch_service_request_def conn_keeps_def\<close>)
  show "conn_keeps cr (r, c', ts)" if d: "dispatch_userauth_failure cr methods c = (r, c')"
  proof (cases "cn_cliserv c")
    case (Client ca)
    obtain r1 ca' ctx' where s: "cli_failure cr methods ca (cn_parse_ctx c) = (r1, ca', ctx')" by (metis prod_cases3)
    from cli_failure_not_Panic [OF s] d s Client inv show ?thesis
      by (auto simp: dispatch_userauth_failure_def intro!: conn_keeps_calm refl)
  qed (use d ts in \<open>auto simp: dispatch_userauth_failure_def conn_keeps_def\<close>)
  show "conn_keeps cr (r, c', ts)" if "cn_state c \<noteq> SendIdent" "dispatch_userauth_success c = (r, c')"
    using that inv
    by (cases "cn_cliserv c")
       (auto simp: dispatch_userauth_success_def client_auth_success_def cli_success_def conn_keeps_def conn_inv_def
         conn_core_def conn_is_client_def split: if_splits)
  show "conn_keeps cr (r, c', ts)" if l: "remote_lists (ExtInfo algs)" and d: "dispatch_ext_info cr algs c = (r, c')"
  proof (cases "cn_cliserv c")
    case (Client ca)
    obtain r1 ca' where s: "cli_handle_ext_info cr algs ca = (r1, ca')" by fastforce
    from cli_handle_ext_info_not_Panic [OF l s] d s Client inv show ?thesis
      by (auto simp: dispatch_ext_info_def and_then_Inl_eq intro!: conn_keeps_calm refl)
  qed (use d inv in \<open>auto simp: dispatch_ext_info_def intro!: conn_keeps_calm refl\<close>)
qed

lemma dispatch_kex_keeps:
  assumes inv: "conn_inv cr c ts" and cr: "crypto_ok cr" and rng: "rng_ok cr" and st: "cn_state c \<noteq> SendIdent"
  shows "conn_keeps cr (dispatch_event_of cr (KexInit k) c ts)" "conn_keeps cr (dispatch_event_of cr NewKeys c ts)"
    "conn_keeps cr (dispatch_event_of cr (KexDHInit q) c ts)" "conn_keeps cr (dispatch_event_of cr (KexDHReply a b d) c ts)"
proof -
  have ki: "kex_inv cr (conn_is_client c) (cn_sess_id c) (cn_kex c) ts" and ts: "ts_inv ts"
    using inv by (simp_all add: conn_inv_def conn_core_def)
  obtain seen where "rv_inv seen (cn_remote_version c)" using inv by (auto simp: conn_inv_def conn_core_def)
  note v = version_not_Panic [OF this]
  show "conn_keeps cr (dispatch_event_of cr (KexInit k) c ts)"
    unfolding dispatch_event_of.simps
    by (rule on_kex_keeps [OF inv st]) (erule handle_kexinit_safe [OF cr rng v _ ts] handle_kexinit_inv [OF _ ki])+
  show "conn_keeps cr (dispatch_event_of cr NewKeys c ts)"
    unfolding dispatch_event_of.simps
    by (rule on_kex_keeps [OF inv st]) (erule handle_newkeys_safe [OF cr _ ts ki] handle_newkeys_inv(1) [OF _ ki])+
  obtain r k' where d: "kex_handle_kexdhinit (conn_is_client c) (cn_kex c) = (r, k')" by fastforce
  from kex_handle_kexdhinit_inv [OF d ki] d inv st show "conn_keeps cr (dispatch_event_of cr (KexDHInit q) c ts)"
    by (auto simp: conn_keeps_def conn_inv_def conn_core_def conn_is_client_def split: if_splits kex.splits)
  show "conn_keeps cr (dispatch_event_of cr (KexDHReply a b d) c ts)"
    using inv ts by (auto simp: conn_keeps_def split: kex.splits)
qed

lemma dispatch_channels_keeps:
  assumes "conn_inv cr c ts" "crypto_ok cr" "cn_state c \<noteq> SendIdent"
  shows "conn_keeps cr (on_channels (channels_dispatch cr p) c ts)"
proof (rule on_channels_keeps [OF assms])
  fix r cs' ts' assume d: "channels_dispatch cr p (cn_channels c) ts = (r, cs', ts')"
  have "chans_inv (cn_channels c)" using assms(1) by (simp add: conn_inv_def conn_core_def)
  with d calm.channels_dispatch_safe [OF d calm_refl [OF assms(2) conn_inv_ts [OF assms(1)]]]
  show "chans_inv cs' \<and> chs_is_client cs' = chs_is_client (cn_channels c) \<and> calm cr ts ts' \<and> r \<noteq> Inl Panic"
    by (auto dest: channels_dispatch_inv channels_dispatch_is_client)
qed

lemma conn_keeps_same: "conn_inv cr c ts \<Longrightarrow> r \<noteq> Inl Panic \<Longrightarrow> conn_keeps cr (r, c, ts)"
  by (simp add: conn_keeps_def conn_inv_ts)

lemma dispatch_event_of_keeps:
  assumes inv: "conn_inv cr c ts" and cr: "crypto_ok cr" "rng_ok cr" and st: "cn_state c \<noteq> SendIdent"
    and rem: "remote_lists p"
  shows "conn_keeps cr (dispatch_event_of cr p c ts)"
proof (cases p)
  case (GlobalRequest w m)
  obtain r ts' where t: "ts_send cr RequestFailure ts = (r, ts')" by fastforce
  from calm.send [OF _ calm_refl [OF cr(1) conn_inv_ts [OF inv]] t] t GlobalRequest inv show ?thesis
    by (auto simp: and_then_Inl_eq intro: conn_keeps_calm conn_keeps_same)
next
  case (UserauthSuccess)
  then show ?thesis
    using dispatch_auth_keeps(5) [OF inv cr(1) st] by (auto split: prod.splits)
next
  case (UserauthFailure l b)
  then show ?thesis using dispatch_auth_keeps(4) [OF inv cr(1)] by (auto split: prod.splits)
next
  case (ExtInfo e)
  then show ?thesis using dispatch_auth_keeps(6) [OF inv cr(1)] rem by (auto split: prod.splits)
next
  case (ServiceRequest n)
  then show ?thesis using dispatch_auth_keeps(3) [OF inv cr(1)] by (auto split: prod.splits)
next
  case (KexInit k)
  with dispatch_kex_keeps(1) [OF inv cr st] show ?thesis by (simp only:)
next
  case NewKeys
  with dispatch_kex_keeps(2) [OF inv cr st] show ?thesis by (simp only:)
next
  case (KexDHInit q)
  with dispatch_kex_keeps(3) [OF inv cr st] show ?thesis by (simp only:)
next
  case (KexDHReply k q sig)
  with dispatch_kex_keeps(4) [OF inv cr st] show ?thesis by (simp only:)
qed (use inv cr st in \<open>simp_all add: conn_keeps_same dispatch_channels_keeps dispatch_auth_keeps(1,2)\<close>)

lemma dispatch_packet_keeps:
  assumes "conn_inv cr c ts" "crypto_ok cr" "rng_ok cr" "cn_state c \<noteq> SendIdent" "remote_lists p"
  shows "conn_keeps cr (dispatch_packet cr p c ts)"
proof (cases "check_packet p c")
  case (Inl e)
  then have "e = SSHProto" by (auto simp: check_packet_def split: if_splits category.splits)
  with Inl assms(1) show ?thesis by (simp add: dispatch_packet_def conn_keeps_same)
next
  case (Inr u)
  obtain r c' ts' where d: "dispatch_event_of cr p c ts = (r, c', ts')" by (metis prod_cases3)
  from dispatch_event_of_keeps [OF assms] Inr d show ?thesis
    by (auto simp: dispatch_packet_def conn_keeps_def and_then_Inl_eq and_then_Inr_eq)
qed

lemma packet_from_bytes_not_Panic: "packet_from_bytes pl ctx \<noteq> Inl Panic"
  by (auto simp: packet_from_bytes_def and_then_Inl_eq map_err_Inl_eq split: if_splits
      dest: arg_cong [where f = "\<lambda>e. e = Panic"])

lemma handle_payload_keeps:
  assumes inv: "conn_inv cr c ts" and cr: "crypto_ok cr" "rng_ok cr" and st: "cn_state c \<noteq> SendIdent"
  shows "conn_keeps cr (handle_payload cr pl sq c ts)"
proof (cases "conn_packet pl c")
  case (Inr p)
  then have "remote_lists p" by (simp add: conn_packet_def packet_remote_lists)
  with dispatch_packet_keeps [OF inv cr st] Inr show ?thesis by (simp add: handle_payload_def)
next
  case (Inl e)
  obtain r ts' where t: "ts_send cr (Unimplemented sq) ts = (r, ts')" by fastforce
  have "e \<noteq> Panic" using Inl packet_from_bytes_not_Panic by (auto simp: conn_packet_def)
  with calm.send [OF _ calm_refl [OF cr(1) conn_inv_ts [OF inv]] t] t Inl inv show ?thesis
    by (auto simp: handle_payload_def and_then_Inl_eq intro: conn_keeps_calm conn_keeps_same split: ssh_error.splits)
qed

text \<open>The answers of the application.\<close>

lemma conn_resume_checkhostkey_keeps:
  assumes inv: "conn_inv cr c ts" and cr: "crypto_ok cr" and st: "cn_state c \<noteq> SendIdent"
  shows "conn_keeps cr (conn_resume_checkhostkey cr pl accept c ts)"
proof (cases "conn_is_client c \<and> accept \<and> (\<exists>k q sig. conn_packet pl c = Inr (KexDHReply k q sig))")
  case True
  then obtain ca k q sig where c: "cn_cliserv c = Client ca" "conn_is_client c" accept
    "conn_packet pl c = Inr (KexDHReply k q sig)"
    by (cases "cn_cliserv c") (auto simp: conn_is_client_def)
  obtain r k' sid ts' where k: "resume_kexdhreply cr k q sig (cn_sess_id c) (cn_kex c) ts = (r, k', sid, ts')"
    by (metis prod_cases4)
  have ki: "kex_inv cr True (cn_sess_id c) (cn_kex c) ts" using inv c by (simp add: conn_inv_def conn_core_def)
  have "cn_sess_id c \<noteq> None \<Longrightarrow> sid = cn_sess_id c" using k sess_id_kept(2) by (cases "cn_sess_id c") auto
  with resume_kexdhreply_safe [OF cr k conn_inv_ts [OF inv] ki] resume_kexdhreply_inv [OF _ ki] k c inv st show ?thesis
    by (auto simp: conn_resume_checkhostkey_def conn_client_def trap_option_def conn_keeps_def conn_inv_def conn_core_def
        conn_is_client_def)
next
  case False
  have "conn_packet pl c \<noteq> Inl Panic" by (simp add: conn_packet_def packet_from_bytes_not_Panic)
  with False inv show ?thesis
    by (cases "cn_cliserv c"; cases "conn_packet pl c")
       (auto simp: conn_resume_checkhostkey_def conn_client_def trap_option_def conn_is_client_def conn_keeps_same
         split: packet.splits)
qed

lemma conn_resume_servhostkeys_keeps:
  assumes inv: "conn_inv cr c ts" and cr: "crypto_ok cr" and st: "cn_state c \<noteq> SendIdent" and srv: "\<not> conn_is_client c"
    and keys: "\<forall>k \<in> set keys. \<not> sign_key_is_agent k"
  shows "conn_keeps cr (conn_resume_servhostkeys cr pl keys c ts)"
proof (cases "\<exists>q. conn_packet pl c = Inr (KexDHInit q)")
  case True
  then obtain q where c: "conn_packet pl c = Inr (KexDHInit q)" ..
  obtain r k' sid ts' where k: "resume_kexdhinit cr q (conn_is_first_kex c) keys (cn_sess_id c) (cn_kex c) ts = (r, k', sid, ts')"
    by (metis prod_cases4)
  have ki: "kex_inv cr False (cn_sess_id c) (cn_kex c) ts" using inv srv by (simp add: conn_inv_def conn_core_def)
  have "cn_sess_id c \<noteq> None \<Longrightarrow> sid = cn_sess_id c" using k sess_id_kept(3) by (cases "cn_sess_id c") auto
  with resume_kexdhinit_safe [OF cr k conn_inv_ts [OF inv] ki keys] resume_kexdhinit_inv [OF _ ki] k c inv st srv show ?thesis
    by (auto simp: conn_resume_servhostkeys_def conn_keeps_def conn_inv_def conn_core_def conn_is_client_def)
next
  case False
  have "conn_packet pl c \<noteq> Inl Panic" by (simp add: conn_packet_def packet_from_bytes_not_Panic)
  with False inv show ?thesis
    by (cases "conn_packet pl c") (auto simp: conn_resume_servhostkeys_def conn_keeps_same split: packet.splits)
qed

lemma conn_resume_servauth_keeps:
  assumes inv: "conn_inv cr c ts" and cr: "crypto_ok cr" and st: "cn_state c \<noteq> SendIdent"
  shows "conn_keeps cr (conn_resume_servauth cr allow c ts)"
proof (cases "cn_cliserv c")
  case (Server sa)
  obtain r sa' ts' where s: "serv_resume_request cr allow sa ts = (r, sa', ts')" by (metis prod_cases3)
  have "conn_inv cr (c\<lparr>cn_cliserv := Server sa'\<rparr>) ts" using inv Server by simp
  moreover note calm.serv_resume_request_safe [OF s calm_refl [OF cr conn_inv_ts [OF inv]]]
  ultimately have i: "conn_inv cr (c\<lparr>cn_cliserv := Server sa'\<rparr>) ts'" "ts_inv ts'" "r \<noteq> Inl Panic"
    by (auto intro: conn_inv_calm simp: calm_def)
  moreover have "conn_inv cr (c\<lparr>cn_cliserv := Server sa', cn_state := Authed\<rparr>) ts'" if "cn_state c = PreAuth"
    using i(1) that by (simp add: conn_inv_def conn_core_def conn_is_client_def)
  ultimately show ?thesis
    using s Server by (auto simp: conn_resume_servauth_def conn_server_def trap_option_def conn_keeps_def Let_def split: sum.splits)
qed (use inv in \<open>simp add: conn_resume_servauth_def conn_server_def trap_option_def conn_keeps_same\<close>)

lemma with_auth_keeps:
  assumes inv: "conn_inv cr c ts" and cr: "crypto_ok cr"
  shows "conn_resume_servauth_pkok cr pl c ts = (r, ts') \<Longrightarrow> conn_keeps cr (r, c, ts')"
    and "conn_set_auth_methods pw pk c = (r, c') \<Longrightarrow> conn_keeps cr (r, c', ts)"
proof -
  have n: "conn_packet pl c \<noteq> Inl Panic" by (simp add: conn_packet_def packet_from_bytes_not_Panic)
  show "conn_keeps cr (r, c, ts')" if e: "conn_resume_servauth_pkok cr pl c ts = (r, ts')"
  proof (cases "\<exists>p sa. conn_packet pl c = Inr p \<and> cn_cliserv c = Server sa")
    case True
    then obtain p where "serv_resume_pkok cr p ts = (r, ts')"
      using e by (auto simp: conn_resume_servauth_pkok_def conn_server_def trap_option_def)
    from safeD [OF calm.serv_resume_pkok_safe calm_refl [OF cr conn_inv_ts [OF inv]] this] inv show ?thesis
      by (blast intro: conn_keeps_calm)
  next
    case False
    with e n inv show ?thesis
      by (cases "conn_packet pl c"; cases "cn_cliserv c")
         (auto simp: conn_resume_servauth_pkok_def conn_server_def trap_option_def conn_keeps_same)
  qed
  show "conn_keeps cr (r, c', ts)" if "conn_set_auth_methods pw pk c = (r, c')"
    using that inv
    by (cases "cn_cliserv c") (auto simp: conn_set_auth_methods_def conn_server_def trap_option_def intro!: conn_keeps_same)
qed

subsection \<open>Which packets are accepted\<close>

lemma check_packet_Inr:
  assumes "check_packet p c = Inr ()"
  shows "packet_category p = CatSess \<Longrightarrow> cn_state c = Authed \<and> \<not> kex_is_receiving (cn_kex c)"
    and "packet_category p = CatAuth \<Longrightarrow> cn_state c \<in> {PreAuth, Authed} \<and> \<not> kex_is_receiving (cn_kex c)"
    and "cn_sess_id c = None \<Longrightarrow> kex_is_strict (cn_kex c) \<Longrightarrow> packet_category p = CatKex"
  using assms by (cases "cn_kex c"; auto simp: check_packet_def conn_is_first_kex_def split: if_splits)+

lemma dispatch_refused: "check_packet p c = Inl e \<Longrightarrow> dispatch_packet cr p c ts = (Inl e, c, ts)"
  by (simp add: dispatch_packet_def)

subsection \<open>Moving forward\<close>

fun state_rank :: "conn_state \<Rightarrow> nat" where
  "state_rank SendIdent = 0"
| "state_rank ReceiveIdent = 1"
| "state_rank FirstKex = 2"
| "state_rank PreAuth = 3"
| "state_rank Authed = 4"

definition forward :: "conn \<Rightarrow> conn \<Rightarrow> bool" where
  "forward c c' \<longleftrightarrow> conn_is_client c' = conn_is_client c \<and> state_rank (cn_state c) \<le> state_rank (cn_state c')
     \<and> (\<forall>sid. cn_sess_id c = Some sid \<longrightarrow> cn_sess_id c' = Some sid)
     \<and> cn_algo_conf c' = cn_algo_conf c \<and> cn_remote_version c' = cn_remote_version c"

lemma forward_refl [simp]: "forward c c"
  by (simp add: forward_def)

lemma forward_trans: "forward a b \<Longrightarrow> forward b c \<Longrightarrow> forward a c"
  by (auto simp: forward_def)

lemma forward_updates [simp]:
  "forward c (c'\<lparr>cn_kex := k\<rparr>) = forward c c'" "forward c (c'\<lparr>cn_channels := cs\<rparr>) = forward c c'"
  "forward (c\<lparr>cn_kex := k\<rparr>) c' = forward c c'" "forward (c\<lparr>cn_channels := cs\<rparr>) c' = forward c c'"
  by (simp_all add: forward_def conn_is_client_def)

lemma conn_progress_forward: "conn_progress cr c ts = (r, c', ts') \<Longrightarrow> forward c c'"
proof -
  have st: "forward c1 c2" if "conn_progress_state c1 t1 = (r1, c2, t2)" for c1 t1 r1 c2 t2
    using that
    by (cases "cn_state c1"; cases "cn_cliserv c1")
       (auto simp: conn_progress_state_def forward_def conn_is_client_def start_kexinit_def
         split: prod.splits sum.splits option.splits if_splits)
  show "conn_progress cr c ts = (r, c', ts') \<Longrightarrow> forward c c'"
    by (auto simp: conn_progress_def Let_def split: prod.splits sum.splits if_splits
        dest!: st)
qed

lemma dispatch_event_of_forward: "dispatch_event_of cr p c ts = (r, c', ts') \<Longrightarrow> forward c c'"
proof (cases p)
  case UserauthSuccess
  then show "dispatch_event_of cr p c ts = (r, c', ts') \<Longrightarrow> forward c c'"
    by (cases "cn_cliserv c") (auto simp: dispatch_userauth_success_def client_auth_success_def cli_success_def
        forward_def conn_is_client_def split: if_splits)
qed (cases "cn_cliserv c"; auto simp: on_kex_def on_channels_def dispatch_ext_info_def dispatch_service_request_def
  dispatch_userauth_request_def dispatch_userauth_failure_def dispatch_userauth60_def forward_def conn_is_client_def
  split: prod.splits sum.splits if_splits)+

lemma handle_payload_forward: "handle_payload cr pl sq c ts = (r, c', ts') \<Longrightarrow> forward c c'"
  by (auto simp: handle_payload_def dispatch_packet_def split: sum.splits ssh_error.splits prod.splits
      dest: dispatch_event_of_forward)

lemma conn_resume_forward:
  "conn_resume_checkhostkey cr pl accept c ts = (r, c', ts') \<Longrightarrow> forward c c'"
  "conn_resume_servhostkeys cr pl keys c ts = (r, c', ts') \<Longrightarrow> forward c c'"
  "conn_resume_servauth cr allow c ts = (rd, c', ts') \<Longrightarrow> forward c c'"
  by (cases "cn_cliserv c"; auto simp: conn_resume_checkhostkey_def conn_resume_servhostkeys_def conn_resume_servauth_def
      conn_server_def trap_option_def forward_def conn_is_client_def Let_def
      split: sum.splits packet.splits prod.splits if_splits dest: sess_id_kept)+

subsection \<open>A server before authentication\<close>

definition unauthed :: "conn \<Rightarrow> bool" where
  "unauthed c \<longleftrightarrow> \<not> conn_is_client c \<and> cn_state c \<noteq> Authed \<and> set (chs (cn_channels c)) \<subseteq> {None}"

fun before_auth :: "dispatch_event \<Rightarrow> bool" where
  "before_auth (DispServEvent ev) \<longleftrightarrow> ev \<in> {ServHostkeys, ServFirstAuth, ServPasswordAuth, ServPubkeyAuth True, ServPubkeyAuth False}"
| "before_auth ev \<longleftrightarrow> ev \<in> {DispNone, DispProgressed, DispKexDone}"

lemma no_channels_progress:
  "set l \<subseteq> {None} \<Longrightarrow> channels_progress_loop cr l ts = (DispNone, l, ts)"
  by (induction l) auto

lemma conn_progress_unauthed:
  assumes "conn_progress cr c ts = (r, c', ts')" "unauthed c"
  shows "unauthed c' \<and> (\<forall>d. r = Inr d \<longrightarrow> before_auth (disp_event d))"
proof -
  have st: "unauthed c2 \<and> (\<forall>d. r1 = Inr d \<longrightarrow> before_auth (disp_event d))"
    if "conn_progress_state c1 t1 = (r1, c2, t2)" "unauthed c1" for c1 t1 r1 c2 t2
    using that
    by (cases "cn_state c1"; cases "cn_cliserv c1")
       (auto simp: conn_progress_state_def unauthed_def conn_is_client_def start_kexinit_def dispatched_default_def
         dispatched_event_def split: prod.splits sum.splits option.splits if_splits)
  have cp: "channels_progress cr (cn_channels c) t = (DispNone, cn_channels c, t)" for t
    using assms(2) by (simp add: channels_progress_def unauthed_def no_channels_progress)
  have u: "unauthed (c\<lparr>cn_kex := k\<rparr>)" for k using assms(2) by (simp add: unauthed_def conn_is_client_def)
  obtain r1 k ts1 where kp: "kex_progress cr (conn_is_client c) (cn_algo_conf c) (cn_kex c) ts = (r1, k, ts1)"
    by (metis prod_cases3)
  show ?thesis
  proof (cases r1)
    case (Inl e)
    with assms kp u show ?thesis by (auto simp: conn_progress_def)
  next
    case (Inr x)
    then have "conn_progress_state (c\<lparr>cn_kex := k\<rparr>) ts1 = (r, c', ts')"
      using assms kp cp by (auto simp: conn_progress_def Let_def split: if_splits)
    then show ?thesis using u by (rule st)
  qed
qed

lemma serv_request_before_auth:
  assumes "serv_request cr sid p sa ts = (Inr ev, sa', ts')" shows "before_auth ev"
proof (cases "ev = DispNone")
  case False
  from serv_request_Inr_event(2) [OF assms False] show ?thesis
    by (auto simp: serv_request_event_def serv_request_pubkey_def Let_def
        split: auth_method.splits if_splits pub_key.splits option.splits)
qed simp

lemma dispatch_unauthed:
  assumes d: "dispatch_packet cr p c ts = (r, c', ts')" and u: "unauthed c"
  shows "unauthed c' \<and> (\<forall>d. r = Inr d \<longrightarrow> before_auth (disp_event d))"
proof (cases "check_packet p c")
  case (Inl e)
  with d u show ?thesis by (auto simp: dispatch_packet_def)
next
  case (Inr x)
  then have "packet_category p \<noteq> CatSess" using check_packet_Inr(1) [of p c] u by (auto simp: unauthed_def)
  moreover obtain sa where sa: "cn_cliserv c = Server sa"
    using u by (cases "cn_cliserv c") (auto simp: unauthed_def conn_is_client_def)
  moreover obtain r1 where e: "dispatch_event_of cr p c ts = (r1, c', ts')"
    "r = and_then r1 (\<lambda>ev. Inr \<lparr>disp_event = ev, disp_disconnect = is_disconnect p\<rparr>)"
    using d Inr by (auto simp: dispatch_packet_def split: prod.splits)
  ultimately have "unauthed c' \<and> (\<forall>ev. r1 = Inr ev \<longrightarrow> before_auth ev)"
    using u
    by (cases p)
       (auto simp: unauthed_def conn_is_client_def on_kex_def dispatch_ext_info_def dispatch_service_request_def
         dispatch_userauth_request_def dispatch_userauth_failure_def dispatch_userauth_success_def dispatch_userauth60_def
         and_then_Inr_eq trap_option_def
         split: prod.splits sum.splits if_splits kex.splits option.splits dest: serv_request_before_auth)
  with e(2) show ?thesis by (auto simp: and_then_Inr_eq)
qed

lemma handle_payload_unauthed:
  assumes "handle_payload cr pl sq c ts = (r, c', ts')" "unauthed c"
  shows "unauthed c' \<and> (\<forall>d. r = Inr d \<longrightarrow> before_auth (disp_event d))"
proof (cases "conn_packet pl c")
  case (Inr p)
  with assms dispatch_unauthed show ?thesis by (simp add: handle_payload_def)
next
  case (Inl e)
  with assms show ?thesis
    by (auto simp: handle_payload_def and_then_Inr_eq dispatched_default_def split: ssh_error.splits prod.splits)
qed

text \<open>
  A server reports a signed request only when the signature is over this session, this user and this key.
\<close>

lemma signed_event_request:
  assumes e: "dispatch_event_of cr p c ts = (Inr (DispServEvent (ServPubkeyAuth True)), c', ts')" and u: "unauthed c"
    and cat: "packet_category p \<noteq> CatSess"
  obtains u s m sid sa sa' where "p = UserauthRequest u s m" "cn_sess_id c = Some sid"
    "serv_request cr sid \<lparr>ur_username = u, ur_service = s, ur_method = m\<rparr> sa ts
       = (Inr (DispServEvent (ServPubkeyAuth True)), sa', ts')"
  using e cat u
  by (cases p)
     (auto simp: on_kex_def unauthed_def conn_is_client_def dispatch_ext_info_def dispatch_service_request_def
        dispatch_userauth_request_def dispatch_userauth_failure_def dispatch_userauth_success_def
        dispatch_userauth60_def and_then_Inr_eq trap_option_def
        split: prod.splits sum.splits if_splits option.splits kex.splits cli_serv.splits)

lemma signed_event_verified:
  assumes h: "handle_payload cr pl sq c ts = (Inr d, c', ts')" and u: "unauthed c"
    and ev: "disp_event d = DispServEvent (ServPubkeyAuth True)"
  obtains sid u s m k sig where "cn_sess_id c = Some sid"
    "conn_packet pl c = Inr (UserauthRequest u s (MethodPubKey m))"
    "mpk_pubkey m = PubKeyEd25519 k" "mpk_sig m = Some (SigEd25519 sig)"
    "ed25519_verify cr k (emitted (enc_auth_sig_msg (auth_sig_msg_new
       (unsigned_request \<lparr>ur_username = u, ur_service = s, ur_method = MethodPubKey m\<rparr> m) sid))) sig"
proof -
  obtain p where p: "conn_packet pl c = Inr p" "dispatch_packet cr p c ts = (Inr d, c', ts')"
    using h ev by (auto simp: handle_payload_def and_then_Inr_eq dispatched_default_def
        split: sum.splits ssh_error.splits prod.splits)
  then have e: "check_packet p c = Inr ()" "dispatch_event_of cr p c ts = (Inr (DispServEvent (ServPubkeyAuth True)), c', ts')"
    using ev by (auto simp: dispatch_packet_def and_then_Inr_eq split: sum.splits prod.splits)
  then have "packet_category p \<noteq> CatSess" using check_packet_Inr(1) u by (auto simp: unauthed_def)
  from signed_event_request [OF e(2) u this] obtain u s m sid sa sa' where q: "p = UserauthRequest u s m" "cn_sess_id c = Some sid"
    "serv_request cr sid \<lparr>ur_username = u, ur_service = s, ur_method = m\<rparr> sa ts
       = (Inr (DispServEvent (ServPubkeyAuth True)), sa', ts')" .
  from serv_request_signed_event [OF q(3)] obtain m' k sig where v:
    "ur_method \<lparr>ur_username = u, ur_service = s, ur_method = m\<rparr> = MethodPubKey m'"
    "mpk_pubkey m' = PubKeyEd25519 k" "mpk_sig m' = Some (SigEd25519 sig)"
    "ed25519_verify cr k (emitted (enc_auth_sig_msg (auth_sig_msg_new
       (unsigned_request \<lparr>ur_username = u, ur_service = s, ur_method = m\<rparr> m') sid))) sig" .
  then have "m = MethodPubKey m'" by simp
  with p q v show thesis by (intro that [of sid u s m' k sig]) simp_all
qed

end
