(* ===== verification/SSH_Runner_Correct.thy ===== *)
theory SSH_Runner_Correct
  imports SSH_Runner SSH_Conn_Correct
begin

section \<open>The runner is correct\<close>

subsection \<open>Deferred packets\<close>

lemma packet_from_deferred_plain [simp]: "plain (packet_from_deferred dp)"
  by (cases dp) (simp_all add: plain_def)

lemma send_packet_inner_calm:
  assumes "send_packet_inner cr p keys out = (r, keys', out')" "plain p" "crypto_ok cr"
    "ts_inv \<lparr>ts_keys = keys, ts_out = out\<rparr>"
  shows "calm cr \<lparr>ts_keys = keys, ts_out = out\<rparr> \<lparr>ts_keys = keys', ts_out = out'\<rparr>" "r \<noteq> Inl Panic"
  using send_packet_inner_outcome [OF assms(3) _ _ assms(1)] send_packet_inner_flags [OF assms(1)] assms
  by (auto simp: calm_def ts_inv_def plain_sending_after)

lemma calm_trans: "calm cr a b \<Longrightarrow> calm cr b c \<Longrightarrow> calm cr a c"
  by (auto simp: calm_def intro: same_recv_trans)

lemma send_deferred_loop_calm:
  "send_deferred_loop cr n keys out = (r, keys', out') \<Longrightarrow> crypto_ok cr \<Longrightarrow> ts_inv \<lparr>ts_keys = keys, ts_out = out\<rparr>
    \<Longrightarrow> calm cr \<lparr>ts_keys = keys, ts_out = out\<rparr> \<lparr>ts_keys = keys', ts_out = out'\<rparr> \<and> r \<noteq> Inl Panic \<and> r \<noteq> Inl NoRoom"
proof (induction n arbitrary: keys out)
  case 0
  then show ?case using calm_refl by auto
next
  case (Suc n)
  show ?case
  proof (cases "deferred_packets out = []")
    case True
    with Suc.prems show ?thesis using calm_refl by auto
  next
    case False
    let ?p = "packet_from_deferred (last (deferred_packets out))"
    obtain r1 k o1 where s: "send_packet_inner cr ?p keys out = (r1, k, o1)" by (metis prod_cases3)
    note c = send_packet_inner_calm [OF s _ Suc.prems(2,3), simplified]
    show ?thesis
    proof (cases r1)
      case (Inr u)
      let ?o = "o1\<lparr>deferred_packets := butlast (deferred_packets o1)\<rparr>"
      have d: "calm cr \<lparr>ts_keys = keys, ts_out = out\<rparr> \<lparr>ts_keys = k, ts_out = ?o\<rparr>"
        using c by (auto simp: calm_def ts_inv_def tx_inv_def split: tx_state.splits)
      then have i: "ts_inv \<lparr>ts_keys = k, ts_out = ?o\<rparr>" by (simp add: calm_def)
      have "send_deferred_loop cr n k ?o = (r, keys', out')" using Suc.prems(1) False s Inr by simp
      from Suc.IH [OF this Suc.prems(2) i] d show ?thesis by (blast intro: calm_trans)
    next
      case (Inl e)
      with Suc.prems(1) False s c show ?thesis by (cases e) auto
    qed
  qed
qed

lemma ts_send_deferred_calm:
  assumes "ts_send_deferred_packets cr ts = (r, ts')" "crypto_ok cr" "ts_inv ts"
  shows "calm cr ts ts'" "r \<noteq> Inl Panic" "r \<noteq> Inl NoRoom"
proof -
  obtain k o1 where "send_deferred_loop cr (length (deferred_packets (ts_out ts))) (ts_keys ts) (ts_out ts) = (r, k, o1)"
    "ts' = \<lparr>ts_keys = k, ts_out = o1\<rparr>"
    using assms(1) by (auto simp: ts_send_deferred_packets_def send_deferred_packets_def split: prod.splits)
  moreover have "\<lparr>ts_keys = ts_keys ts, ts_out = ts_out ts\<rparr> = ts" by simp
  ultimately show "calm cr ts ts'" "r \<noteq> Inl Panic" "r \<noteq> Inl NoRoom"
    using send_deferred_loop_calm [OF _ assms(2), of "length (deferred_packets (ts_out ts))" "ts_keys ts" "ts_out ts" r k o1]
      assms(3) by (metis (no_types))+
qed

subsection \<open>The invariant\<close>

text \<open>
  The invariants of the parts hold together; nothing is read before the identification string is sent; and
  an event that was set aside is one of those that an answer can give.
\<close>

definition runner_inv :: "crypto \<Rightarrow> runner \<Rightarrow> bool" where
  "runner_inv cr r \<longleftrightarrow> conn_inv cr (rn_conn r) (rn_send r)
     \<and> rx_inv (size_block_dec (ts_keys (rn_send r))) (rn_traf_in r)
     \<and> (cn_state (rn_conn r) = SendIdent \<longrightarrow> rx (rn_traf_in r) = RxIdle)
     \<and> rn_extra_resume_event r \<in> {DispNone, DispCliEvent CliPassword, DispCliEvent CliPubkey, DispServEvent ServAuthenticated}"

lemma runner_inv_simps [simp]:
  "runner_inv cr (r\<lparr>rn_resume_event := ev\<rparr>) = runner_inv cr r"
  "runner_inv cr (r\<lparr>rn_woken := ws\<rparr>) = runner_inv cr r"
  "runner_inv cr (r\<lparr>rn_input_waker := w\<rparr>) = runner_inv cr r"
  "runner_inv cr (r\<lparr>rn_output_waker := w\<rparr>) = runner_inv cr r"
  "runner_inv cr (r\<lparr>rn_closed_input := b\<rparr>) = runner_inv cr r"
  by (simp_all add: runner_inv_def)

lemma runner_wake_simps [simp]:
  "rn_conn (runner_wake r) = rn_conn r" "rn_traf_in (runner_wake r) = rn_traf_in r" "rn_send (runner_wake r) = rn_send r"
  "rn_closed_input (runner_wake r) = rn_closed_input r" "rn_resume_event (runner_wake r) = rn_resume_event r"
  "rn_extra_resume_event (runner_wake r) = rn_extra_resume_event r"
  by (simp_all add: runner_wake_def Let_def)

lemma runner_inv_wake [simp]: "runner_inv cr (runner_wake r) = runner_inv cr r"
  by (simp add: runner_inv_def)

lemma rx_inv_done [simp]: "rx_inv sb ti \<Longrightarrow> rx_inv sb (done_payload ti)"
  by (auto simp: rx_inv_def done_payload_def split: rx_state.splits)

lemma rx_done_Idle [simp]: "rx ti = RxIdle \<Longrightarrow> rx (done_payload ti) = RxIdle"
  by (simp add: done_payload_def)

lemma runner_inv_done [simp]:
  "runner_inv cr r \<Longrightarrow> runner_inv cr (r\<lparr>rn_traf_in := done_payload (rn_traf_in r)\<rparr>)"
  by (simp add: runner_inv_def)

lemma runner_inv_resume: "runner_inv cr r \<Longrightarrow> runner_inv cr (runner_resume r)"
  using runner_inv_done [of cr r] by (simp add: runner_resume_def runner_inv_def)

lemma runner_inv_extra:
  "runner_inv cr r \<Longrightarrow> ev \<in> {DispNone, DispCliEvent CliPassword, DispCliEvent CliPubkey, DispServEvent ServAuthenticated}
     \<Longrightarrow> runner_inv cr (set_extra_resume ev r)"
  by (simp add: runner_inv_def set_extra_resume_def)

lemma rx_inv_sb: "rx_inv sb ti \<Longrightarrow> rx ti = RxIdle \<or> (\<exists>l s. rx ti = RxInPayload l s) \<Longrightarrow> rx_inv sb' ti"
  by (auto simp: rx_inv_def)

lemma same_recv_block: "same_recv k k' \<Longrightarrow> size_block_dec k' = size_block_dec k"
  by (simp add: same_recv_def size_block_dec_def)

lemma runner_new_inv:
  assumes "runner_new is_client inbuf outbuf = Inr r" "16 \<le> length inbuf"
  shows "runner_inv cr r" "conn_is_client (rn_conn r) = is_client"
proof -
  obtain c where c: "conn_new is_client = Inr c" using assms by (auto simp: runner_new_def and_then_Inr_eq)
  let ?ts = "\<lparr>ts_keys = key_state_new_cleartext, ts_out = traf_out_new outbuf\<rparr>"
  have "ts_inv ?ts" "\<not> sending_kex (ts_out ?ts)" "\<not> drain (ts_out ?ts)"
    by (simp_all add: ts_inv_def tx_inv_def traf_out_new_def key_state_new_cleartext_def keys_send_new_cleartext_def keys_send_ok_def)
  from conn_new_inv(1) [OF c this, of cr] conn_new_inv(2) [OF c this] assms c show "runner_inv cr r" "conn_is_client (rn_conn r) = is_client"
    by (auto simp: runner_new_def runner_inv_def rx_inv_def traf_in_new_def)
qed

text \<open>
  \<open>kept_by\<close>: the operation does not panic, and leaves the invariant when it succeeds; \<open>soft\<close>: also when it
  fails.
\<close>

definition kept_by :: "crypto \<Rightarrow> 'a ssh_result \<times> runner \<Rightarrow> bool" where
  "kept_by cr x \<longleftrightarrow> fst x \<noteq> Inl Panic \<and> (\<forall>v. fst x = Inr v \<longrightarrow> runner_inv cr (snd x))"

definition soft :: "crypto \<Rightarrow> 'a ssh_result \<times> runner \<Rightarrow> bool" where
  "soft cr x \<longleftrightarrow> fst x \<noteq> Inl Panic \<and> runner_inv cr (snd x)"

lemma soft_kept: "soft cr x \<Longrightarrow> kept_by cr x"
  by (simp add: soft_def kept_by_def)

lemma st_bind_kept:
  assumes "kept_by cr (m r)" "\<And>v r'. m r = (Inr v, r') \<Longrightarrow> runner_inv cr r' \<Longrightarrow> kept_by cr (f v r')"
  shows "kept_by cr (st_bind m f r)"
proof (cases "m r")
  case (Pair x r')
  with assms show ?thesis by (cases x) (auto simp: st_bind_def kept_by_def)
qed

lemma st_bind_soft:
  assumes "soft cr (m r)" "\<And>v r'. m r = (Inr v, r') \<Longrightarrow> runner_inv cr r' \<Longrightarrow> soft cr (f v r')"
  shows "soft cr (st_bind m f r)"
proof (cases "m r")
  case (Pair x r')
  with assms show ?thesis by (cases x) (auto simp: st_bind_def soft_def)
qed

lemma rn_ops_soft:
  "runner_inv cr r \<Longrightarrow> f r \<noteq> Inl Panic \<Longrightarrow> soft cr (rn_get f r)"
  "runner_inv cr (g r) \<Longrightarrow> soft cr (rn_update g r)"
  by (simp_all add: soft_def rn_get_def rn_update_def)

lemma runner_inv_calm:
  assumes "runner_inv cr r" "calm cr (rn_send r) ts" shows "runner_inv cr (r\<lparr>rn_send := ts\<rparr>)"
  using assms conn_inv_calm [of cr "rn_conn r" "rn_send r" ts] same_recv_block [of "ts_keys (rn_send r)" "ts_keys ts"]
  by (simp add: runner_inv_def calm_def)

lemma with_sender_soft:
  assumes "runner_inv cr r" "crypto_ok cr" "safe (calm cr (rn_send r)) f"
  shows "soft cr (with_sender f r)"
proof -
  obtain x ts where f: "f (rn_send r) = (x, ts)" by fastforce
  have "calm cr (rn_send r) (rn_send r)" using assms(1,2) by (auto simp: runner_inv_def intro: calm_refl conn_inv_ts)
  from safeD [OF assms(3) this f] runner_inv_calm [OF assms(1)] f show ?thesis
    by (simp add: with_sender_def soft_def)
qed

text \<open>An operation of the application on the channel table: it sends at most plain packets.\<close>

lemma with_channels_soft:
  assumes inv: "runner_inv cr r" and cr: "crypto_ok cr"
    and f: "\<And>x cs ts. f (cn_channels (rn_conn r)) (rn_send r) = (x, cs, ts) \<Longrightarrow> calm cr (rn_send r) (rn_send r) \<Longrightarrow>
      chans_inv (cn_channels (rn_conn r)) \<Longrightarrow>
      chans_inv cs \<and> chs_is_client cs = chs_is_client (cn_channels (rn_conn r)) \<and> calm cr (rn_send r) ts \<and> x \<noteq> Inl Panic
      \<and> (all_opening (cn_channels (rn_conn r)) \<longrightarrow> all_opening cs)"
  shows "soft cr (with_channels f r)"
proof -
  obtain x cs ts where e: "f (cn_channels (rn_conn r)) (rn_send r) = (x, cs, ts)" by (metis prod_cases3)
  have ci: "conn_inv cr (rn_conn r) (rn_send r)" using inv by (simp add: runner_inv_def)
  have o: "chans_inv cs" "chs_is_client cs = chs_is_client (cn_channels (rn_conn r))" "calm cr (rn_send r) ts" "x \<noteq> Inl Panic"
      "all_opening (cn_channels (rn_conn r)) \<longrightarrow> all_opening cs"
    using f [OF e] calm_refl [OF cr conn_inv_ts [OF ci]] ci by (auto simp: conn_inv_def conn_core_def)
  then have "conn_inv cr ((rn_conn r)\<lparr>cn_channels := cs\<rparr>) (rn_send r)"
    using ci by (intro conn_inv_channels) (auto simp: conn_inv_def conn_core_def)
  then have "runner_inv cr (r\<lparr>rn_conn := (rn_conn r)\<lparr>cn_channels := cs\<rparr>\<rparr>)"
    using inv by (simp add: runner_inv_def)
  from runner_inv_calm [OF this, of ts] o e show ?thesis
    by (simp add: with_channels_def with_conn_def on_channels_def soft_def)
qed

lemma with_conn_payload:
  assumes inv: "runner_inv cr r" and p: "rx (rn_traf_in r) = RxInPayload l s"
    and f: "conn_keeps cr (f (rn_conn r) (rn_send r))"
    and fw: "\<And>x c ts. f (rn_conn r) (rn_send r) = (x, c, ts) \<Longrightarrow> forward (rn_conn r) c"
  shows "kept_by cr (with_conn f r)"
proof -
  obtain x c ts where e: "f (rn_conn r) (rn_send r) = (x, c, ts)" by (metis prod_cases3)
  have "state_rank (cn_state (rn_conn r)) \<le> state_rank (cn_state c)" using fw [OF e] by (simp add: forward_def)
  moreover have "cn_state (rn_conn r) \<noteq> SendIdent" using inv p by (auto simp: runner_inv_def)
  ultimately have "cn_state c \<noteq> SendIdent" by (cases "cn_state (rn_conn r)") auto
  then show ?thesis
    using inv f e p rx_inv_sb [of _ "rn_traf_in r"]
    by (auto simp: kept_by_def with_conn_def conn_keeps_def runner_inv_def)
qed

subsection \<open>Channel operations\<close>

lemma channels_inv_client [simp]:
  "chs_is_client (snd (channels_open ty cs)) = chs_is_client cs" "chs_is_client (snd (channels_done num cs)) = chs_is_client cs"
  "chs_is_client (snd (send_data num dt d cs)) = chs_is_client cs"
  "chs_is_client (fst (snd (finished_read cr num n cs ts))) = chs_is_client cs"
  "chs_is_client (fst (snd (channels_send_eof cr num cs ts))) = chs_is_client cs"
  "chs_is_client (channels_wake_read num dt c cs) = chs_is_client cs"
  "chs_is_client (channels_wake_write c cs) = chs_is_client cs"
  by (auto simp: channels_open_def channels_done_def send_data_def finished_read_def channels_send_eof_def
      channels_wake_read_def channels_wake_write_def Let_def split: sum.splits option.splits prod.splits)

lemma all_opening_put:
  "all_opening cs \<Longrightarrow> ch_state ch = Opening \<Longrightarrow> \<not> open_confirmed ch \<Longrightarrow> all_opening (put_chan n (Some ch) cs)"
  by (auto simp: all_opening_def put_chan_def dest!: set_update_subset_insert [THEN subsetD])

lemma all_opening_ops:
  assumes "all_opening cs"
  shows "all_opening (snd (channels_open ty cs))" "all_opening (snd (channels_done num cs))"
    "all_opening (snd (send_data num dt d cs))" "all_opening (fst (snd (finished_read cr num n cs ts)))"
    "all_opening (fst (snd (channels_send_eof cr num cs ts)))"
    "all_opening (channels_wake_read num dt c cs)" "all_opening (channels_wake_write c cs)"
proof -
  show "all_opening (snd (channels_open ty cs))"
    using assms by (auto simp: channels_open_def channel_new_def Let_def all_opening_put split: sum.splits)
  show "all_opening (channels_wake_write c cs)"
    using assms by (auto simp: channels_wake_write_def all_opening_def wake_write_def Let_def wake_write_waker_def wake_ext_waker_def dest!: sym [of "Some _"]
      split: if_splits)
qed (use assms in \<open>simp_all add: channels_done_def send_data_def finished_read_def channels_send_eof_def
  channels_wake_read_def all_opening_get\<close>)

lemma channels_wake_soft:
  assumes "runner_inv cr r"
  shows "runner_inv cr (channel_wake_read num dt r)" "runner_inv cr (channel_wake_write r)"
  using assms all_opening_ops(6,7) channels_wake_inv
  by (simp_all add: runner_inv_def channel_wake_read_def channel_wake_write_def conn_inv_def conn_core_def conn_is_client_def)

lemma not_Panic_ops:
  "fst (channels_done num cs) \<noteq> Inl Panic" "fst (send_data num dt d cs) \<noteq> Inl Panic"
  "\<forall>u. ty \<noteq> OpenUnknown u \<Longrightarrow> fst (channels_open ty cs) \<noteq> Inl Panic"
proof -
  show "\<forall>u. ty \<noteq> OpenUnknown u \<Longrightarrow> fst (channels_open ty cs) \<noteq> Inl Panic"
    by (cases ty) (auto simp: channels_open_def unused_chan_def Let_def split: sum.splits option.splits elim!: ok_or.elims)
qed (auto simp: channels_done_def send_data_def split: sum.splits option.splits dest: get_chan_Inl)

lemma pure_channels_soft:
  assumes "runner_inv cr r" "crypto_ok cr"
    "let cs = cn_channels (rn_conn r) in fst (f cs) \<noteq> Inl Panic \<and> (chans_inv cs \<longrightarrow> chans_inv (snd (f cs)))
       \<and> chs_is_client (snd (f cs)) = chs_is_client cs \<and> (all_opening cs \<longrightarrow> all_opening (snd (f cs)))"
  shows "soft cr (with_channels (\<lambda>cs ts. let (x, cs) = f cs in (x, cs, ts)) r)"
proof (rule with_channels_soft [OF assms(1,2)])
  fix x cs ts
  assume "(let (x, cs) = f (cn_channels (rn_conn r)) in (x, cs, rn_send r)) = (x, cs, ts)"
    "calm cr (rn_send r) (rn_send r)" "chans_inv (cn_channels (rn_conn r))"
  with assms(3) show "chans_inv cs \<and> chs_is_client cs = chs_is_client (cn_channels (rn_conn r)) \<and> calm cr (rn_send r) ts
      \<and> x \<noteq> Inl Panic \<and> (all_opening (cn_channels (rn_conn r)) \<longrightarrow> all_opening cs)"
    by (cases "f (cn_channels (rn_conn r))") (auto simp: Let_def)
qed

lemma validate_not_Panic [simp]:
  "validate_send dt c \<noteq> Inl Panic" "validate_receive dt c \<noteq> Inl Panic"
  by (simp_all add: validate_send.simps)

lemma runner_send_packet_soft:
  "runner_inv cr r \<Longrightarrow> crypto_ok cr \<Longrightarrow> plain p \<Longrightarrow> soft cr (runner_send_packet cr p r)"
  unfolding runner_send_packet_def by (intro with_sender_soft calm.safe_plain)

lemma send_then_wake_soft:
  assumes "runner_inv cr r" "crypto_ok cr" "plain p"
  shows "soft cr (st_bind (runner_send_packet cr p) (\<lambda>_ r. (Inr n, runner_wake r)) r)"
  using runner_send_packet_soft [OF assms] by (rule st_bind_soft) (simp add: soft_def)

lemma write_channel_soft:
  assumes "runner_inv cr r" "crypto_ok cr"
  shows "soft cr (write_channel cr num dt buf r)"
proof -
  have s: "soft cr (st_bind (with_channels (\<lambda>cs ts. let (x, cs) = send_data num dt d cs in (x, cs, ts)))
      (\<lambda>p. st_bind (runner_send_packet cr p) (\<lambda>_ r. (Inr n, runner_wake r))) r)" for d and n :: nat
  proof (rule st_bind_soft)
    show "soft cr (with_channels (\<lambda>cs ts. let (x, cs) = send_data num dt d cs in (x, cs, ts)) r)"
      using assms not_Panic_ops(2) all_opening_ops(3) ops_inv(3) by (intro pure_channels_soft) (simp_all add: Let_def)
    fix p r'
    assume "with_channels (\<lambda>cs ts. let (x, cs) = send_data num dt d cs in (x, cs, ts)) r = (Inr p, r')" and r': "runner_inv cr r'"
    then have "plain p" by (auto simp: with_channels_def with_conn_def on_channels_def send_data_def plain_def
        split: prod.splits sum.splits option.splits if_splits chan_data.splits)
    then show "soft cr (st_bind (runner_send_packet cr p) (\<lambda>_ r. (Inr n, runner_wake r)) r')"
      by (rule send_then_wake_soft [OF r' assms(2)])
  qed
  have "write_channel_ready num dt r \<noteq> Inl Panic" by (auto simp: write_channel_ready_def and_then_Inl_eq Let_def)
  with assms s show ?thesis
    by (auto simp: write_channel_def soft_def Let_def split: sum.splits option.splits)
qed

lemma finished_read_channel_soft:
  assumes "runner_inv cr r" "crypto_ok cr"
  shows "soft cr (finished_read_channel cr num len r)"
  unfolding finished_read_channel_def
proof (rule st_bind_soft)
  show "soft cr (with_channels (finished_read cr num len) r)"
  proof (rule with_channels_soft [OF assms])
    fix x cs ts assume f: "finished_read cr num len (cn_channels (rn_conn r)) (rn_send r) = (x, cs, ts)"
      and c: "calm cr (rn_send r) (rn_send r)" and i: "chans_inv (cn_channels (rn_conn r))"
    have cs: "cs = fst (snd (finished_read cr num len (cn_channels (rn_conn r)) (rn_send r)))" using f by simp
    show "chans_inv cs \<and> chs_is_client cs = chs_is_client (cn_channels (rn_conn r)) \<and> calm cr (rn_send r) ts
      \<and> x \<noteq> Inl Panic \<and> (all_opening (cn_channels (rn_conn r)) \<longrightarrow> all_opening cs)"
      using calm.finished_read_safe [OF f c] i ops_inv(4) all_opening_ops(4) unfolding cs by auto
  qed
qed (simp add: rn_ops_soft)

lemma send_channel_eof_soft:
  assumes "runner_inv cr r" "crypto_ok cr"
  shows "soft cr (send_channel_eof cr num r)"
proof (cases "traf_out_closed (rn_out r)")
  case True
  with assms show ?thesis by (simp add: send_channel_eof_def soft_def)
next
  case False
  have "soft cr (with_channels (channels_send_eof cr num) r)"
  proof (rule with_channels_soft [OF assms])
    fix x cs ts assume f: "channels_send_eof cr num (cn_channels (rn_conn r)) (rn_send r) = (x, cs, ts)"
      and c: "calm cr (rn_send r) (rn_send r)" and i: "chans_inv (cn_channels (rn_conn r))"
    have cs: "cs = fst (snd (channels_send_eof cr num (cn_channels (rn_conn r)) (rn_send r)))" using f by simp
    show "chans_inv cs \<and> chs_is_client cs = chs_is_client (cn_channels (rn_conn r)) \<and> calm cr (rn_send r) ts
      \<and> x \<noteq> Inl Panic \<and> (all_opening (cn_channels (rn_conn r)) \<longrightarrow> all_opening cs)"
      using calm.channels_send_eof_safe [OF f c] i ops_inv(5) all_opening_ops(5) unfolding cs by auto
  qed
  with False show ?thesis
    by (simp add: send_channel_eof_def) (auto intro!: st_bind_soft rn_ops_soft)
qed

lemma runner_inv_rx:
  assumes "runner_inv cr r" "rx_inv (size_block_dec (ts_keys (rn_send r))) ti" "rx (rn_traf_in r) = RxIdle \<longrightarrow> rx ti = RxIdle"
  shows "runner_inv cr (r\<lparr>rn_traf_in := ti\<rparr>)"
  using assms by (auto simp: runner_inv_def)

lemma read_channel_rx:
  assumes "rx_inv sb ti"
  shows "read_channel num dt room ti \<noteq> Inl Panic" "read_channel_either num room ti \<noteq> Inl Panic"
    and "read_channel num dt room ti = Inr (d, x, ti') \<Longrightarrow> rx_inv sb ti' \<and> (rx ti = RxIdle \<longrightarrow> rx ti' = RxIdle)"
    and "read_channel_either num room ti = Inr (d, x, dt', ti') \<Longrightarrow> rx_inv sb ti' \<and> (rx ti = RxIdle \<longrightarrow> rx ti' = RxIdle)"
    and "rx_inv sb (snd (discard_read_channel num ti)) \<and> (rx ti = RxIdle \<longrightarrow> rx (snd (discard_read_channel num ti)) = RxIdle)"
  using assms
  by (auto simp: rx_inv_def read_channel_def read_channel_either_def discard_read_channel_def panic_option_def slice_def
      and_then_Inr_eq and_then_Inl_eq Let_def split: rx_state.splits if_splits)

lemma read_completed_soft:
  assumes "runner_inv cr r" "crypto_ok cr"
  shows "soft cr (read_completed cr num d complete r)"
  unfolding read_completed_def
  using assms by (cases complete) (auto intro!: st_bind_soft rn_ops_soft finished_read_channel_soft split: if_splits)

lemma runner_read_channel_soft:
  assumes inv: "runner_inv cr r" and cr: "crypto_ok cr"
  shows "soft cr (runner_read_channel cr num dt room r)" "soft cr (runner_read_channel_either cr num room r)"
    "soft cr (runner_discard_read_channel cr num r)"
proof -
  have rx: "rx_inv (size_block_dec (ts_keys (rn_send r))) (rn_traf_in r)" using inv by (simp add: runner_inv_def)
  note read = read_channel_rx [OF rx] and keep = runner_inv_rx [OF inv]
  show "soft cr (runner_read_channel cr num dt room r)"
  proof (cases "and_then (validate_receive dt (runner_is_client r)) (\<lambda>_. read_channel num dt room (rn_traf_in r))")
    case (Inl e)
    with inv read(1) [of num dt room] show ?thesis by (auto simp: runner_read_channel_def soft_def and_then_Inl_eq)
  next
    case (Inr y)
    then obtain d x ti where y: "y = (d, x, ti)" "read_channel num dt room (rn_traf_in r) = Inr (d, x, ti)"
      by (metis and_then_Inr_eq prod_cases3)
    with Inr read_completed_soft [OF keep cr] read(3) show ?thesis by (simp add: runner_read_channel_def)
  qed
  show "soft cr (runner_read_channel_either cr num room r)"
  proof (cases "read_channel_either num room (rn_traf_in r)")
    case (Inl e)
    with inv read(2) [of num room] show ?thesis by (auto simp: runner_read_channel_either_def soft_def)
  next
    case (Inr y)
    then obtain d x dt' ti where y: "read_channel_either num room (rn_traf_in r) = Inr (d, x, dt', ti)"
      by (metis prod_cases4)
    have "soft cr (read_completed cr num d x (r\<lparr>rn_traf_in := ti\<rparr>))"
      using read(4) [OF y] by (intro read_completed_soft keep cr) auto
    with y show ?thesis
      by (auto simp: runner_read_channel_either_def soft_def and_then_Inl_eq split: prod.splits)
  qed
  show "soft cr (runner_discard_read_channel cr num r)"
    using read(5) [of num] finished_read_channel_soft [OF keep cr]
    by (auto simp: runner_discard_read_channel_def split: prod.splits)
qed

lemma channel_done_soft:
  assumes inv: "runner_inv cr r" and cr: "crypto_ok cr"
  shows "soft cr (channel_done num r)"
  unfolding channel_done_def
proof (rule st_bind_soft)
  show "soft cr (with_channels (\<lambda>cs ts. let (x, cs) = channels_done num cs in (x, cs, ts)) r)"
    using inv cr not_Panic_ops(1) all_opening_ops(2) ops_inv(2) by (intro pure_channels_soft) (simp_all add: Let_def)
  fix r' assume r': "runner_inv cr r'"
  then have "rx_inv (size_block_dec (ts_keys (rn_send r'))) (rn_traf_in r')" by (simp add: runner_inv_def)
  from runner_inv_rx [OF r'] read_channel_rx(5) [OF this, of num]
  show "soft cr (rn_update (\<lambda>r. runner_wake (r\<lparr>rn_traf_in := snd (discard_read_channel num (rn_traf_in r))\<rparr>)) r')"
    by (intro rn_ops_soft) simp
qed

lemma open_client_channel_soft:
  assumes inv: "runner_inv cr r" and cr: "crypto_ok cr" and ty: "\<forall>u. ty \<noteq> OpenUnknown u"
  shows "soft cr (open_client_channel cr ty r)"
  unfolding open_client_channel_def
proof (rule st_bind_soft)
  show "soft cr (with_channels (\<lambda>cs ts. let (x, cs) = channels_open ty cs in (x, cs, ts)) r)"
    using inv cr not_Panic_ops(3) [OF ty] all_opening_ops(1) ops_inv(1) by (intro pure_channels_soft) (simp_all add: Let_def)
  fix v r' assume "with_channels (\<lambda>cs ts. let (x, cs) = channels_open ty cs in (x, cs, ts)) r = (Inr v, r')"
    and r': "runner_inv cr r'"
  then have "plain (snd v)" by (auto simp: with_channels_def with_conn_def on_channels_def channels_open_def Let_def
      plain_def split: prod.splits sum.splits)
  then show "soft cr ((case v of (chan, p) \<Rightarrow> st_bind (runner_send_packet cr p) (\<lambda>_ r. (Inr chan, runner_wake r))) r')"
    using send_then_wake_soft [OF r' cr] by (cases v) simp
qed

lemma waker_fields_ok [simp]:
  "chan_ok (ch\<lparr>read_waker := v\<rparr>) = chan_ok ch" "chan_ok (ch\<lparr>write_waker := v\<rparr>) = chan_ok ch"
  "chan_ok (ch\<lparr>ext_waker := v\<rparr>) = chan_ok ch" "chan_ok (log_woken ws ch) = chan_ok ch"
  by (simp_all add: chan_ok_def)

lemma set_waker_ok: "chan_step_ok ch (set_read_waker dt c w ch)" "chan_step_ok ch (set_write_waker dt c w ch)"
  by (cases dt; simp add: chan_step_ok_def case_prod_beta channel_num_def)+

lemma waker_soft:
  assumes inv: "runner_inv cr r" and cr: "crypto_ok cr" and ch: "get_chan num (cn_channels (rn_conn r)) = Inr ch"
  shows "soft cr (set_channel_read_waker num dt w r)" "soft cr (set_channel_write_waker num dt w r)"
proof -
  have "soft cr (on_handle num f r)" if f: "chan_step_ok ch (f ch)" for f
    unfolding on_handle_def
  proof (rule with_channels_soft [OF inv cr])
    fix x cs ts
    assume "(case unwrap_result (get_chan num (cn_channels (rn_conn r))) of Inl e \<Rightarrow> (Inl e, cn_channels (rn_conn r), rn_send r)
       | Inr ch \<Rightarrow> (Inr (), put_chan num (Some (f ch)) (cn_channels (rn_conn r)), rn_send r)) = (x, cs, ts)"
      and c: "calm cr (rn_send r) (rn_send r)" "chans_inv (cn_channels (rn_conn r))"
    then have e: "x = Inr ()" "cs = put_chan num (Some (f ch)) (cn_channels (rn_conn r))" "ts = rn_send r"
      using ch by (simp_all add: unwrap_result_def)
    have "\<not> all_opening (cn_channels (rn_conn r))" using all_opening_get [of "cn_channels (rn_conn r)" num] ch by auto
    then show "chans_inv cs \<and> chs_is_client cs = chs_is_client (cn_channels (rn_conn r)) \<and> calm cr (rn_send r) ts
      \<and> x \<noteq> Inl Panic \<and> (all_opening (cn_channels (rn_conn r)) \<longrightarrow> all_opening cs)"
      using e c f ch by (auto intro: chans_inv_put_step simp: get_chan_Inr)
  qed
  then show "soft cr (set_channel_read_waker num dt w r)" "soft cr (set_channel_write_waker num dt w r)"
    unfolding set_channel_read_waker_def set_channel_write_waker_def by (simp_all add: set_waker_ok)
qed

lemma terminal_soft:
  assumes "runner_inv cr r" "crypto_ok cr"
  shows "soft cr (runner_term_window_change cr num winch r)" "soft cr (runner_term_break cr num l r)"
    "soft cr (opener_send cr ch rq r)"
  using assms with_sender_soft [OF assms calm.term_requests_safe(1)] with_sender_soft [OF assms calm.term_requests_safe(2)]
    with_sender_soft [OF assms calm.req_send_safe]
  by (auto simp: runner_term_window_change_def runner_term_break_def opener_send_def soft_def)

subsection \<open>Bytes in and out\<close>

lemma decrypt_send_side [simp]:
  "ks_enc (fst (snd (decrypt_first_block cr buf keys))) = ks_enc keys"
  "ks_enc (fst (snd (decrypt cr buf keys))) = ks_enc keys"
  by (auto simp: decrypt_def decrypt_first_block_def Let_def split: prod.splits sum.splits)

lemma fill_input_send_side:
  assumes "fill_input cr buf keys ti = Inr (n, keys', ti')"
  shows "ks_enc keys' = ks_enc keys"
proof -
  have l: "ks_enc b = ks_enc a" if "fill_length cr sb a t = Inr (b, t')" for a b t t' sb
    using that
    by (cases "rx t") (auto simp: fill_length_def and_then_Inr_eq Let_def case_prod_beta split: if_splits)
  have d: "ks_enc b = ks_enc a" if "fill_decrypt cr a t = Inr (b, t')" for a b t t'
    using that by (cases "rx t") (auto simp: fill_decrypt_def and_then_Inr_eq Let_def case_prod_beta)
  show ?thesis using assms by (auto simp: fill_input_def Let_def and_then_Inr_eq dest!: l d)
qed

lemma traf_in_input_kept:
  assumes rv: "rv_inv seen rv" and rx: "rx_inv (size_block_dec keys) ti"
  shows "traf_in_input cr buf keys rv ti \<noteq> Inl Panic"
    and "traf_in_input cr buf keys rv ti = Inr (n, keys', rv', ti') \<Longrightarrow> n \<le> length buf \<and> (\<exists>seen. rv_inv seen rv')
      \<and> rx_inv (size_block_dec keys') ti' \<and> ks_enc keys' = ks_enc keys"
proof -
  define cons where "cons v = (if v = None \<and> rx ti = RxIdle then consume rv buf else Inr (0, rv))" for v :: "bytes option"
  have c: "case cons v of Inl e \<Rightarrow> e \<noteq> Panic | Inr (k, rv') \<Rightarrow> k \<le> length buf \<and> (\<exists>seen. rv_inv seen rv')" for v
    using consume_inv [OF rv, of buf] rv by (auto simp: cons_def split: sum.splits prod.splits)
  have sl: "k \<le> length buf \<Longrightarrow> panic_option (slice buf k (length buf)) = Inr (drop k buf)" for k
    by (simp add: slice_def panic_option_def)
  have "and_then (cons v) (\<lambda>(k, rv). and_then (panic_option (slice buf k (length buf))) (\<lambda>rest.
      and_then (fill_input cr rest keys ti) (\<lambda>(n, keys, ti). Inr (k + n, keys, rv, ti)))) = and_then (cons v) (\<lambda>(k, rv).
      and_then (fill_input cr (drop k buf) keys ti) (\<lambda>(n, keys, ti). Inr (k + n, keys, rv, ti)))" for v
    using c [of v] by (cases "cons v") (auto simp: sl)
  then have in_eq: "traf_in_input cr buf keys rv ti = and_then (version rv) (\<lambda>v. and_then (cons v) (\<lambda>(k, rv).
      and_then (fill_input cr (drop k buf) keys ti) (\<lambda>(n, keys, ti). Inr (k + n, keys, rv, ti))))"
    unfolding traf_in_input_def cons_def [symmetric] by simp
  have f: "fill_input cr b keys ti \<noteq> Inl Panic" for b using fill_input_inv [OF rx, where cr = cr and buf = b] by auto
  have "cons v \<noteq> Inl Panic" for v using c [of v] by auto
  then show "traf_in_input cr buf keys rv ti \<noteq> Inl Panic"
    using version_not_Panic [OF rv] f unfolding in_eq
    by (auto simp: and_then_Inl_eq split: sum.splits prod.splits)
  assume "traf_in_input cr buf keys rv ti = Inr (n, keys', rv', ti')"
  then obtain v k m where "cons v = Inr (k, rv')" and fi: "fill_input cr (drop k buf) keys ti = Inr (m, keys', ti')" "n = k + m"
    unfolding in_eq by (auto simp: and_then_Inr_eq)
  with c [of v] fill_input_inv [OF rx, where cr = cr and buf = "drop k buf"] fill_input_send_side [OF fi(1)]
  show "n \<le> length buf \<and> (\<exists>seen. rv_inv seen rv') \<and> rx_inv (size_block_dec keys') ti' \<and> ks_enc keys' = ks_enc keys"
    by auto
qed

lemma runner_input_kept:
  assumes inv: "runner_inv cr r"
  shows "runner_input cr buf r \<noteq> Inl Panic"
    and "runner_input cr buf r = Inr (n, r') \<Longrightarrow> runner_inv cr r' \<and> n \<le> length buf"
proof -
  obtain seen where rv: "rv_inv seen (cn_remote_version (rn_conn r))"
    using inv by (auto simp: runner_inv_def conn_inv_def conn_core_def)
  have "rx_inv (size_block_dec (ts_keys (rn_send r))) (rn_traf_in r)" using inv by (simp add: runner_inv_def)
  note k = traf_in_input_kept [OF rv this]
  show "runner_input cr buf r \<noteq> Inl Panic" using k(1) by (auto simp: runner_input_def and_then_Inl_eq)
  assume i: "runner_input cr buf r = Inr (n, r')"
  show "runner_inv cr r' \<and> n \<le> length buf"
  proof (cases "runner_is_input_ready r \<and> \<not> rn_closed_input r")
    case False
    with i inv show ?thesis by (auto simp: runner_input_def split: if_splits)
  next
    case True
    then have st: "cn_state (rn_conn r) \<noteq> SendIdent" by (auto simp: runner_is_input_ready_def initial_sent_def split: if_splits)
    obtain keys rv' ti where t: "traf_in_input cr buf (ts_keys (rn_send r)) (cn_remote_version (rn_conn r)) (rn_traf_in r) = Inr (n, keys, rv', ti)"
      and r': "r' = r\<lparr>rn_send := (rn_send r)\<lparr>ts_keys := keys\<rparr>, rn_conn := (rn_conn r)\<lparr>cn_remote_version := rv'\<rparr>, rn_traf_in := ti\<rparr>"
      using i True by (auto simp: runner_input_def and_then_Inr_eq)
    note k2 = k(2) [OF t]
    have "conn_inv cr ((rn_conn r)\<lparr>cn_remote_version := rv'\<rparr>) ((rn_send r)\<lparr>ts_keys := keys\<rparr>)"
      using inv k2 by (simp add: runner_inv_def conn_inv_def conn_core_def conn_is_client_def kex_inv_def ts_inv_def)
    then show ?thesis using inv k2 st by (simp add: r' runner_inv_def)
  qed
qed

lemma runner_inv_out:
  "runner_inv cr r \<Longrightarrow> tx_inv out \<Longrightarrow> drain out = drain (rn_out r) \<Longrightarrow> sending_kex out = sending_kex (rn_out r)
     \<Longrightarrow> runner_inv cr (r\<lparr>rn_send := (rn_send r)\<lparr>ts_out := out\<rparr>\<rparr>)"
  by (simp add: runner_inv_def conn_inv_def conn_core_def kex_inv_def ts_inv_def)

lemma consume_output_flags [simp]:
  "drain (consume_output n out) = drain out" "sending_kex (consume_output n out) = sending_kex out"
  by (simp_all add: consume_output_def Let_def split: tx_state.split)

lemma runner_inv_tx: "runner_inv cr r \<Longrightarrow> tx_inv (rn_out r)"
  by (simp add: runner_inv_def conn_inv_def conn_core_def ts_inv_def)

lemma runner_consume_output_inv:
  assumes "runner_inv cr r" shows "runner_inv cr (runner_consume_output n r)"
proof -
  have "runner_inv cr (r\<lparr>rn_send := (rn_send r)\<lparr>ts_out := consume_output n (rn_out r)\<rparr>\<rparr>)"
    using assms runner_inv_tx [OF assms] consume_output_pending by (intro runner_inv_out) simp_all
  then show ?thesis by (simp add: runner_consume_output_def Let_def channels_wake_soft)
qed

lemma runner_output_soft:
  assumes inv: "runner_inv cr r" and room: "room \<le> length (pending (rn_out r))"
  shows "soft cr (runner_output room r)"
  using assms runner_consume_output_inv [OF inv]
  by (simp add: runner_output_def runner_output_buf_def output_buf_pending [OF runner_inv_tx [OF inv]] soft_def)

lemma runner_close_output_inv:
  assumes "runner_inv cr r" shows "runner_inv cr (runner_close_output r)"
  using runner_inv_out [OF assms, of "traf_out_close (rn_out r)"] runner_inv_tx [OF assms]
  by (simp add: runner_close_output_def traf_out_close_def tx_inv_def)

subsection \<open>Answers\<close>

lemma with_cliauth_soft:
  assumes inv: "runner_inv cr r" and cr: "crypto_ok cr"
    and f: "\<And>ca ctx x ca' ctx' ts'. f ca ctx (rn_send r) = (x, ca', ctx', ts') \<Longrightarrow> calm cr (rn_send r) (rn_send r) \<Longrightarrow>
      calm cr (rn_send r) ts' \<and> x \<noteq> Inl Panic"
  shows "soft cr (with_cliauth f r)"
proof (cases "cn_cliserv (rn_conn r)")
  case (Server sa)
  with inv show ?thesis by (simp add: soft_def with_cliauth_def with_conn_def conn_client_def trap_option_def)
next
  case (Client ca)
  obtain x ca' ctx ts where e: "f ca (cn_parse_ctx (rn_conn r)) (rn_send r) = (x, ca', ctx, ts)" by (metis prod_cases4)
  have ci: "conn_inv cr (rn_conn r) (rn_send r)" using inv by (simp add: runner_inv_def)
  note o = f [OF e calm_refl [OF cr conn_inv_ts [OF ci]]]
  have "runner_inv cr (r\<lparr>rn_conn := (rn_conn r)\<lparr>cn_cliserv := Client ca', cn_parse_ctx := ctx\<rparr>\<rparr>)"
    using inv Client by (simp add: runner_inv_def)
  from runner_inv_calm [OF this, of ts] o e Client show ?thesis
    by (simp add: soft_def with_cliauth_def with_conn_def conn_client_def trap_option_def)
qed

lemma runner_payload_not_Panic:
  assumes "runner_inv cr r" shows "runner_payload r \<noteq> Inl Panic" "payload (rn_traf_in r) \<noteq> Inl Panic"
  using assms
  by (auto simp: runner_inv_def rx_inv_def runner_payload_def payload_def panic_option_def slice_def trap_option_def
      and_then_Inl_eq framing_consts split: rx_state.splits)

lemma runner_payload_Inr: "runner_payload r = Inr (pl, sq) \<Longrightarrow> \<exists>l. rx (rn_traf_in r) = RxInPayload l sq \<and> length pl = l"
  by (auto simp: runner_payload_def payload_def and_then_Inr_eq panic_option_def slice_def trap_option_def
      split: rx_state.splits if_splits)

lemma client_answers_soft:
  assumes inv: "runner_inv cr r" and cr: "crypto_ok cr"
  shows "soft cr (runner_resume_cliusername cr u r)" "soft cr (runner_resume_clipassword cr pw r)"
    "soft cr (runner_resume_clipubkey cr key r)" "soft cr (runner_resume_agentsign cr sig r)"
proof -
  have resume: "soft cr (rn_update runner_resume r')" if "runner_inv cr r'" for r'
    using that by (intro rn_ops_soft runner_inv_resume)
  have extra: "soft cr (rn_update (\<lambda>r. runner_resume (set_extra_resume ev r)) r')"
    if "runner_inv cr r'" "ev \<in> {DispNone, DispCliEvent CliPassword, DispCliEvent CliPubkey}" for ev r'
    using that by (intro rn_ops_soft runner_inv_resume runner_inv_extra) auto
  have "rn_send (runner_resume r) = rn_send r" by (simp add: runner_resume_def)
  then show "soft cr (runner_resume_cliusername cr u r)"
    unfolding runner_resume_cliusername_def
    by (intro with_cliauth_soft [OF runner_inv_resume [OF inv] cr])
       (auto split: prod.splits dest: calm.cli_resume_username_safe)
  have pw: "soft cr (with_cliauth (cli_resume_password cr pw) r)"
    by (rule with_cliauth_soft [OF inv cr]) (rule calm.cli_resume_password_safe)
  then show "soft cr (runner_resume_clipassword cr pw r)"
    unfolding runner_resume_clipassword_def by (rule st_bind_soft) (rule resume)
  have pk: "soft cr (with_cliauth (cli_resume_pubkey cr key) r)"
    by (rule with_cliauth_soft [OF inv cr]) (rule calm.cli_resume_pubkey_safe)
  have "ev \<in> {DispNone, DispCliEvent CliPassword, DispCliEvent CliPubkey}"
    if "with_cliauth (cli_resume_pubkey cr key) r = (Inr ev, r')" for ev r'
    using that by (auto simp: with_cliauth_def with_conn_def cli_resume_pubkey_def
        split: prod.splits sum.splits option.splits if_splits)
  with pk show "soft cr (runner_resume_clipubkey cr key r)"
    unfolding runner_resume_clipubkey_def by (blast intro: st_bind_soft extra)
  let ?f = "\<lambda>ca ctx ts. let (x, ctx, ts) = cli_resume_agentsign cr sig ca ctx ts in (x, ca, ctx, ts)"
  have ag: "soft cr (with_cliauth ?f r)"
    by (rule with_cliauth_soft [OF inv cr]) (auto split: prod.splits dest: calm.cli_resume_agentsign_safe)
  have "ev \<in> {DispNone, DispCliEvent CliPassword, DispCliEvent CliPubkey}"
    if "with_cliauth ?f r = (Inr ev, r')" for ev r'
    using that by (auto simp: with_cliauth_def with_conn_def cli_resume_agentsign_def Let_def
        split: prod.splits sum.splits option.splits auth_state.splits)
  with ag show "soft cr (runner_resume_agentsign cr sig r)"
    unfolding runner_resume_agentsign_def by (blast intro: st_bind_soft extra)
qed

lemma payload_bind_kept:
  assumes inv: "runner_inv cr r"
    and f: "\<And>pl sq l. runner_payload r = Inr (pl, sq) \<Longrightarrow> rx (rn_traf_in r) = RxInPayload l sq \<Longrightarrow> kept_by cr (f (pl, sq) r)"
  shows "kept_by cr (st_bind (rn_get runner_payload) f r)"
proof (rule st_bind_kept)
  show "kept_by cr (rn_get runner_payload r)"
    using inv runner_payload_not_Panic by (intro soft_kept rn_ops_soft) auto
  fix v r' assume "rn_get runner_payload r = (Inr v, r')"
  then show "kept_by cr (f v r')"
    using f runner_payload_Inr by (cases v) (fastforce simp: rn_get_def)
qed

lemma hostkey_answers_kept:
  assumes inv: "runner_inv cr r" and cr: "crypto_ok cr"
  shows "kept_by cr (runner_resume_checkhostkey cr accept r)"
    and "\<not> runner_is_client r \<Longrightarrow> \<forall>k \<in> set keys. \<not> sign_key_is_agent k \<Longrightarrow> kept_by cr (runner_resume_servhostkeys cr keys r)"
proof -
  have resume: "kept_by cr (rn_update runner_resume r')" if "runner_inv cr r'" for r'
    using that by (intro soft_kept rn_ops_soft runner_inv_resume)
  have ci: "conn_inv cr (rn_conn r) (rn_send r)" using inv by (simp add: runner_inv_def)
  have st: "cn_state (rn_conn r) \<noteq> SendIdent" if "rx (rn_traf_in r) = RxInPayload l sq" for l sq
    using inv that by (auto simp: runner_inv_def)
  show "kept_by cr (runner_resume_checkhostkey cr accept r)"
    unfolding runner_resume_checkhostkey_def
  proof (rule payload_bind_kept [OF inv], simp, rule st_bind_kept)
    fix pl sq l assume rx: "rx (rn_traf_in r) = RxInPayload l sq"
    show "kept_by cr (with_conn (conn_resume_checkhostkey cr pl accept) r)"
      by (rule with_conn_payload [where f = "conn_resume_checkhostkey cr pl accept", OF inv rx conn_resume_checkhostkey_keeps [OF ci cr st [OF rx]]])
         (auto dest: conn_resume_forward)
  qed (rule resume)
  assume s: "\<not> runner_is_client r" "\<forall>k \<in> set keys. \<not> sign_key_is_agent k"
  show "kept_by cr (runner_resume_servhostkeys cr keys r)"
    unfolding runner_resume_servhostkeys_def
  proof (rule payload_bind_kept [OF inv], simp, rule st_bind_kept)
    fix pl sq l assume rx: "rx (rn_traf_in r) = RxInPayload l sq"
    show "kept_by cr (with_conn (conn_resume_servhostkeys cr pl keys) r)"
      using s by (intro with_conn_payload [where f = "conn_resume_servhostkeys cr pl keys", OF inv rx conn_resume_servhostkeys_keeps [OF ci cr st [OF rx]]])
         (auto simp: runner_is_client_def dest: conn_resume_forward)
  qed (rule resume)
qed

lemma zeroize_rx:
  assumes "rx_inv sb ti"
  obtains ti' where "zeroize_payload ti = Inr ti'" "rx_inv sb ti'" "rx ti = RxIdle \<longrightarrow> rx ti' = RxIdle"
  using assms
  by (cases "rx ti") (auto simp: zeroize_payload_def fill_at_def done_payload_def rx_inv_def framing_consts)

lemma servauth_kept:
  assumes inv: "runner_inv cr r" and cr: "crypto_ok cr" and p: "rx (rn_traf_in r) = RxInPayload l s"
  shows "kept_by cr (runner_resume_servauth cr allow r)"
proof -
  have ci: "conn_inv cr (rn_conn r) (rn_send r)" "cn_state (rn_conn r) \<noteq> SendIdent"
    using inv p by (auto simp: runner_inv_def)
  have k: "kept_by cr (with_conn (conn_resume_servauth cr allow) r)"
    by (rule with_conn_payload [where f = "conn_resume_servauth cr allow", OF inv p conn_resume_servauth_keeps [OF ci(1) cr ci(2)]]) (auto dest: conn_resume_forward)
  obtain x r1 where w: "with_conn (conn_resume_servauth cr allow) r = (x, r1)" by fastforce
  then have ti: "rn_traf_in r1 = rn_traf_in r" by (auto simp: with_conn_def split: prod.splits)
  show ?thesis
  proof (cases x)
    case (Inl e)
    obtain ti' where "zeroize_payload (rn_traf_in r) = Inr ti'"
      using inv zeroize_rx by (metis runner_inv_def)
    with Inl k w ti show ?thesis by (simp add: runner_resume_servauth_def kept_by_def)
  next
    case (Inr ev)
    then have "ev \<in> {DispNone, DispServEvent ServAuthenticated}"
      using w by (auto simp: with_conn_def conn_resume_servauth_def Let_def split: prod.splits sum.splits if_splits)
    then have i: "runner_inv cr (set_extra_resume ev r1)" using k w Inr by (auto simp: kept_by_def intro: runner_inv_extra)
    then have "rx_inv (size_block_dec (ts_keys (rn_send r1))) (rn_traf_in r1)"
      by (simp add: runner_inv_def set_extra_resume_def)
    then obtain ti' where z: "zeroize_payload (rn_traf_in r1) = Inr ti'"
      "rx_inv (size_block_dec (ts_keys (rn_send r1))) ti'" "rx (rn_traf_in r1) = RxIdle \<longrightarrow> rx ti' = RxIdle"
      by (rule zeroize_rx)
    have "runner_inv cr ((set_extra_resume ev r1)\<lparr>rn_traf_in := ti'\<rparr>)"
      using z by (intro runner_inv_rx [OF i]) (simp_all add: set_extra_resume_def)
    with z w Inr show ?thesis
      by (simp add: runner_resume_servauth_def kept_by_def set_extra_resume_def runner_inv_resume)
  qed
qed

lemma get_bind_soft:
  assumes "runner_inv cr r" "f r \<noteq> Inl Panic" "\<And>v. f r = Inr v \<Longrightarrow> soft cr (g v r)"
  shows "soft cr (st_bind (rn_get f) g r)"
  using assms by (intro st_bind_soft rn_ops_soft) (auto simp: rn_get_def)

lemma servauth_soft:
  assumes inv: "runner_inv cr r" and cr: "crypto_ok cr"
  shows "soft cr (runner_resume_servauth_pkok cr r)" "soft cr (runner_set_auth_methods pw pk r)"
    "soft cr (enable_password_auth b r)" "soft cr (enable_pubkey_auth b r)"
proof -
  have "safe (calm cr (rn_send r)) (conn_resume_servauth_pkok cr pl (rn_conn r))" for pl
    using calm.serv_resume_pkok_safe [of cr] packet_from_bytes_not_Panic [of pl "cn_parse_ctx (rn_conn r)"]
    by (auto simp: safe_def conn_resume_servauth_pkok_def conn_packet_def conn_server_def trap_option_def
        split: sum.splits)
  note pkok = with_sender_soft [OF inv cr this]
  have resume: "soft cr (let (x, r') = with_sender (conn_resume_servauth_pkok cr pl (rn_conn r)) r in (x, runner_resume r'))" for pl
    using pkok [of pl] by (auto simp: soft_def split: prod.splits intro: runner_inv_resume)
  show "soft cr (runner_resume_servauth_pkok cr r)"
    unfolding runner_resume_servauth_pkok_def
    using resume by (intro get_bind_soft [where f = runner_payload, OF inv runner_payload_not_Panic(1) [OF inv]]) (auto split: prod.splits)
  show m: "soft cr (runner_set_auth_methods pw pk r)" for pw pk
    using inv by (cases "cn_cliserv (rn_conn r)") (simp_all add: soft_def runner_set_auth_methods_def
        conn_set_auth_methods_def conn_server_def trap_option_def runner_inv_def)
  have "runner_auth_methods r \<noteq> Inl Panic"
    by (auto simp: runner_auth_methods_def conn_server_def trap_option_def and_then_Inl_eq)
  note n = get_bind_soft [where f = runner_auth_methods, OF inv this]
  show "soft cr (enable_password_auth b r)" "soft cr (enable_pubkey_auth b r)"
    unfolding enable_password_auth_def enable_pubkey_auth_def
    by (rule n, use m in \<open>auto split: prod.splits\<close>)+
qed

lemma chanopen_soft:
  assumes inv: "runner_inv cr r" and cr: "crypto_ok cr"
    and ch: "get_any num (cn_channels (rn_conn r)) = Inr ch" "ch_state ch = InOpen"
  shows "soft cr (runner_resume_chanopen cr num fail r)"
  unfolding runner_resume_chanopen_def
proof (rule with_channels_soft [OF runner_inv_resume [OF inv] cr])
  let ?cs = "cn_channels (rn_conn (runner_resume r))" and ?ts = "rn_send (runner_resume r)"
  have [simp]: "?cs = cn_channels (rn_conn r)" "?ts = rn_send r" by (simp_all add: runner_resume_def)
  fix x cs ts
  assume o: "resume_open cr num fail ?cs ?ts = (x, cs, ts)" and c: "calm cr ?ts ?ts" and i: "chans_inv ?cs"
  have "\<not> all_opening ?cs" using ch by (auto simp: all_opening_def get_any_Inr dest!: nth_mem)
  moreover have "chs_is_client cs = chs_is_client ?cs"
    using o by (auto simp: resume_open_def remove_any_def Let_def split: sum.splits option.splits prod.splits if_splits)
  ultimately show "chans_inv cs \<and> chs_is_client cs = chs_is_client ?cs \<and> calm cr ?ts ts
      \<and> x \<noteq> Inl Panic \<and> (all_opening ?cs \<longrightarrow> all_opening cs)"
    using calm.resume_open_safe [OF o c] resume_open_inv [OF i o] ch by auto
qed

lemma chanreq_soft:
  assumes inv: "runner_inv cr r" and cr: "crypto_ok cr"
  shows "soft cr (runner_resume_chanreq cr success r)"
proof -
  have "soft cr (let (x, r') = with_sender (channels_resume_chanreq cr p success (cn_channels (rn_conn r))) r
     in (x, runner_resume r'))" for p
    using with_sender_soft [OF inv cr calm.resume_chanreq_safe, of p success "cn_channels (rn_conn r)"]
    by (auto simp: soft_def split: prod.splits intro: runner_inv_resume)
  moreover have "runner_chanreq_packet r \<noteq> Inl Panic"
    using runner_payload_not_Panic(1) [OF inv] packet_from_bytes_not_Panic
    by (auto simp: runner_chanreq_packet_def and_then_Inl_eq conn_packet_def split: prod.splits)
  ultimately show ?thesis
    unfolding runner_resume_chanreq_def using inv by (intro get_bind_soft)
qed

subsection \<open>Progress\<close>

text \<open>
  What the event of a packet says is so: data is the data of the packet, and a session that is to be opened
  waits in the table.
\<close>

fun carries :: "packet \<Rightarrow> data_in \<Rightarrow> bool" where
  "carries (ChannelData num d) di \<longleftrightarrow> d \<noteq> [] \<and> di = \<lparr>di_num = num, di_dt = Normal, di_len = length d\<rparr>"
| "carries (ChannelDataExt num code d) di \<longleftrightarrow> d \<noteq> [] \<and> di = \<lparr>di_num = num, di_dt = Stderr, di_len = length d\<rparr>"
| "carries _ _ \<longleftrightarrow> False"

definition opening_in :: "chan_num \<Rightarrow> channels \<Rightarrow> bool" where
  "opening_in num cs \<longleftrightarrow> (\<exists>ch. get_any num cs = Inr ch \<and> ch_state ch = InOpen)"

fun event_sound :: "packet \<Rightarrow> channels \<Rightarrow> dispatch_event \<Rightarrow> bool" where
  "event_sound p cs (DispData di) \<longleftrightarrow> carries p di"
| "event_sound p cs (DispServEvent (ServOpenSession num)) \<longleftrightarrow> opening_in num cs"
| "event_sound p cs DispProgressed \<longleftrightarrow> False"
| "event_sound p cs _ \<longleftrightarrow> True"

lemma dispatch_open_event:
  assumes "dispatch_open cr a b c ty cs ts = (Inr ev, cs', ts')" "chans_inv cs"
  shows "event_sound p cs' ev"
proof -
  obtain x cs1 where i: "dispatch_open_inner a b c ty cs = (x, cs1)" by fastforce
  show ?thesis
  proof (cases x)
    case (Inl y)
    with assms i show ?thesis by (cases y) (auto simp: dispatch_open_def split: prod.splits sum.splits)
  next
    case (Inr e)
    then have e: "ev = e" "cs' = cs1" using assms i by (simp_all add: dispatch_open_def)
    have "ty = OpenSession" "\<not> chs_is_client cs"
      using i Inr by (cases ty; auto simp: dispatch_open_inner_def split: if_splits prod.splits sum.splits)+
    then obtain ch where r: "reserve_chan a b c ty cs = (Inr ch, cs1)" "e = DispServEvent (ServOpenSession (channel_num ch))"
      using i Inr by (auto simp: dispatch_open_inner_def split: prod.splits sum.splits)
    then obtain num where "unused_chan cs = Inr num" "cs1 = put_chan num (Some ch) cs" "channel_num ch = num" "ch_state ch = InOpen"
      by (auto simp: reserve_chan_def Let_def split: sum.splits)
    moreover from this(1) have "unat num < length (chs cs)"
      using unused_chan_Inr(1) assms(2) by (simp add: chans_inv_def)
    ultimately show ?thesis using e r by (simp add: opening_in_def get_any_put)
  qed
qed

lemma dispatch_request_event:
  assumes "dispatch_request cr w rq c ch ts = (Inr ev, ts')"
  shows "event_sound p cs ev"
proof -
  have "event_sound p cs e" if "dispatch_client_request rq ch = Inr e \<or> dispatch_server_request rq ch = Inr e" for e
    using that by (auto simp: dispatch_client_request_def dispatch_server_request_def Let_def
        split: if_splits channel_req_type.splits)
  with assms show ?thesis
    by (auto simp: dispatch_request_def Let_def split: sum.splits if_splits ssh_error.splits)
qed

lemma channels_dispatch_event:
  assumes d: "channels_dispatch cr p cs ts = (Inr ev, cs', ts')" and inv: "chans_inv cs"
  shows "event_sound p cs' ev"
proof -
  obtain r1 cs1 ts1 where i: "channels_dispatch_inner cr p cs ts = (r1, cs1, ts1)" by (metis prod_cases3)
  have "ev = DispNone \<or> r1 = Inr ev \<and> cs' = cs1"
    using d i by (auto simp: channels_dispatch_def split: sum.splits ssh_error.splits)
  moreover have "event_sound p cs1 e" if r: "r1 = Inr e" for e
  proof (cases p)
    case (ChannelOpen a b c ty)
    with i r inv show ?thesis by (auto dest: dispatch_open_event)
  next
    case (ChannelRequest num w rq)
    with i r show ?thesis by (auto dest: dispatch_request_event split: sum.splits prod.splits)
  qed (use i r in \<open>auto simp: dispatch_open_confirmation_def dispatch_open_failure_def dispatch_window_adjust_def
      dispatch_data_def dispatch_data_ext_def dispatch_on_chan_def Let_def and_then_Inr_eq
      split: prod.splits sum.splits option.splits if_splits chan_state.splits\<close>)
  ultimately show ?thesis by auto
qed

lemma cli_events_sound:
  "cli_failure cr methods ca ctx = (Inr ev, ca', ctx') \<Longrightarrow> event_sound p cs ev"
  "cli_auth60 cr u sid ca ctx0 ts = (Inr ev, ctx1, ts') \<Longrightarrow> event_sound p cs ev"
  by (auto simp: cli_failure_def Let_def and_then_Inr_eq split: if_splits)
     (cases u; auto simp: cli_auth_pkok_def cli_change_password_def Let_def
       split: auth_state.splits if_splits prod.splits sum.splits)

lemma before_auth_sound: "before_auth ev \<Longrightarrow> ev \<noteq> DispProgressed \<Longrightarrow> event_sound p cs ev"
  by (cases "(p, cs, ev)" rule: event_sound.cases) auto

lemma serv_request_sound: "serv_request cr sid q sa ts = (Inr ev, sa', ts') \<Longrightarrow> event_sound p cs ev"
proof (rule before_auth_sound [OF serv_request_before_auth], assumption)
  assume s: "serv_request cr sid q sa ts = (Inr ev, sa', ts')"
  show "ev \<noteq> DispProgressed"
    using serv_request_Inr_event(2) [OF s]
    by (auto simp: serv_request_event_def serv_request_pubkey_def Let_def
        split: auth_method.splits if_splits pub_key.splits option.splits)
qed

lemma dispatch_event_of_sound:
  assumes d: "dispatch_event_of cr p c ts = (Inr ev, c', ts')" and inv: "chans_inv (cn_channels c)"
  shows "event_sound p (cn_channels c') ev"
proof -
  have ch: "event_sound q (cn_channels c') ev" if "on_channels (channels_dispatch cr q) c ts = (Inr ev, c', ts')" for q
    using that inv by (auto simp: on_channels_def split: prod.splits dest: channels_dispatch_event)
  show ?thesis
    using d
    by (cases p)
       (auto simp: on_kex_def dispatch_ext_info_def dispatch_service_request_def
         dispatch_userauth_request_def dispatch_userauth_failure_def dispatch_userauth_success_def dispatch_userauth60_def
         client_auth_success_def cli_success_def and_then_Inr_eq
         split: prod.splits sum.splits if_splits kex.splits cli_serv.splits
         dest: ch cli_events_sound serv_request_sound)
qed

lemma handle_payload_sound:
  assumes h: "handle_payload cr pl sq c ts = (Inr d, c', ts')" and inv: "chans_inv (cn_channels c)"
  shows "disp_event d = DispNone \<or> (\<exists>p. conn_packet pl c = Inr p \<and> event_sound p (cn_channels c') (disp_event d))"
proof (cases "conn_packet pl c")
  case (Inr p)
  with h obtain ev where "dispatch_event_of cr p c ts = (Inr ev, c', ts')" "disp_event d = ev"
    by (auto simp: handle_payload_def dispatch_packet_def and_then_Inr_eq split: sum.splits prod.splits)
  with dispatch_event_of_sound inv Inr show ?thesis by auto
next
  case (Inl e)
  with h show ?thesis
    by (auto simp: handle_payload_def and_then_Inr_eq dispatched_default_def split: ssh_error.splits prod.splits)
qed

text \<open>The event that the application holds: it stands for the packet in the input buffer.\<close>

definition in_payload :: "runner \<Rightarrow> bool" where
  "in_payload r \<longleftrightarrow> (\<exists>l sq. rx (rn_traf_in r) = RxInPayload l sq)"

fun live_ok :: "event \<Rightarrow> runner \<Rightarrow> bool" where
  "live_ok (EvServ (EvOpenSession num)) r \<longleftrightarrow> in_payload r \<and> opening_in num (cn_channels (rn_conn r))"
| "live_ok (EvServ ev) r \<longleftrightarrow> ev \<in> {EvServAuthenticated, EvServDefunct} \<or> in_payload r"
| "live_ok _ r \<longleftrightarrow> True"

definition report_ok :: "dispatched \<Rightarrow> runner \<Rightarrow> bool" where
  "report_ok d r \<longleftrightarrow> (\<forall>x. disp_event d = DispServEvent x \<longrightarrow> x = ServAuthenticated
     \<or> in_payload r \<and> (\<forall>num. x = ServOpenSession num \<longrightarrow> opening_in num (cn_channels (rn_conn r))))"

definition kept_live :: "crypto \<Rightarrow> event ssh_result \<times> runner \<Rightarrow> bool" where
  "kept_live cr x \<longleftrightarrow> kept_by cr x \<and> (\<forall>ev. fst x = Inr ev \<longrightarrow> live_ok ev (snd x))"

lemma dispatch_into_event_not_Panic:
  assumes "runner_inv cr r" shows "dispatch_into_event ev r \<noteq> Inl Panic"
proof (cases ev)
  case (DispCliEvent x)
  have np: "runner_packet r \<noteq> Inl Panic" "runner_payload r \<noteq> Inl Panic" "conn_packet pl c \<noteq> Inl Panic" for pl c
    using runner_payload_not_Panic [OF assms] packet_from_bytes_not_Panic
    by (auto simp: runner_packet_def and_then_Inl_eq conn_packet_def split: option.splits prod.splits)
  have "cli_session_exit_new p \<noteq> Inl Panic" for p by (cases p rule: cli_session_exit_new.cases) auto
  with np have "cli_event_of x r \<noteq> Inl Panic"
    by (cases x) (auto simp: and_then_Inl_eq runner_fetch_cli_session_exit_def runner_fetch_cli_banner_def
        conn_fetch_cli_session_exit_def conn_fetch_cli_banner_def split: packet.splits dest: get_chan_Inl)
  with np DispCliEvent show ?thesis by (auto simp: cli_event_id_event_def and_then_Inl_eq)
qed auto

lemma live_ok_report:
  assumes "report_ok d r" "dispatch_into_event (disp_event d) r' = Inr ev" "rn_traf_in r' = rn_traf_in r"
    "rn_conn r' = rn_conn r"
  shows "live_ok ev r'"
proof (cases "disp_event d")
  case (DispServEvent x)
  with assms have "ev = EvServ (serv_event_id_event x)" "in_payload r' = in_payload r"
    by (auto simp: in_payload_def split: if_splits)
  with assms DispServEvent show ?thesis by (cases x) (auto simp: report_ok_def)
next
  case (DispCliEvent x)
  with assms show ?thesis by (auto simp: and_then_Inr_eq split: if_splits)
qed (use assms in auto)

lemma runner_report_kept:
  assumes "runner_inv cr r" "report_ok d r"
  shows "kept_live cr (runner_report d r)"
  using assms dispatch_into_event_not_Panic [of cr "(runner_wake r)\<lparr>rn_resume_event := disp_event d\<rparr>" "disp_event d"]
    live_ok_report [OF assms(2), of "(runner_wake r)\<lparr>rn_resume_event := disp_event d\<rparr>"]
  by (auto simp: kept_live_def kept_by_def runner_report_def Let_def)

lemma conn_progress_event:
  assumes "conn_progress cr c ts = (Inr d, c', ts')" shows "disp_event d \<noteq> DispServEvent x"
proof -
  have ch: "channels_progress_loop cr l t = (ev, l', t') \<Longrightarrow> ev \<noteq> DispServEvent x" for l t ev l' t'
  proof (induction l arbitrary: t ev l' t')
    case (Cons y l)
    then show ?case
      by (cases y) (auto simp: Let_def split: prod.splits if_splits)
  qed auto
  have st: "conn_progress_state a t = (Inr d, b, t') \<Longrightarrow> disp_event d \<noteq> DispServEvent x" for a t b t'
    by (auto simp: conn_progress_state_def dispatched_event_def dispatched_default_def cli_auth_progress_def
        split: conn_state.splits prod.splits sum.splits option.splits if_splits auth_state.splits)
  show ?thesis
    using assms by (auto simp: conn_progress_def Let_def channels_progress_def dispatched_event_def
        split: prod.splits sum.splits if_splits dest: st ch)
qed

lemma conn_progress_kept:
  assumes inv: "runner_inv cr r" and cr: "crypto_ok cr"
  shows "kept_by cr (with_conn (conn_progress cr) r)"
proof -
  obtain x c ts where p: "conn_progress cr (rn_conn r) (rn_send r) = (x, c, ts)" by (metis prod_cases3)
  have ci: "conn_inv cr (rn_conn r) (rn_send r)" using inv by (simp add: runner_inv_def)
  note o = conn_progress_ok [OF p ci cr]
  have "cn_state c = SendIdent \<Longrightarrow> cn_state (rn_conn r) = SendIdent"
    using conn_progress_forward [OF p] by (cases "cn_state (rn_conn r)") (auto simp: forward_def)
  with o inv same_recv_block [of "ts_keys (rn_send r)" "ts_keys ts"] p show ?thesis
    by (auto simp: kept_by_def with_conn_def runner_inv_def)
qed

lemma runner_finish_kept:
  assumes inv: "runner_inv cr r" and cr: "crypto_ok cr" and rep: "report_ok d r"
  shows "kept_live cr (runner_finish cr d r)"
proof (cases "disp_event d = DispNone")
  case False
  with runner_report_kept [OF inv rep] show ?thesis
    by (simp add: runner_finish_def runner_conn_progress_def st_bind_def)
next
  case True
  obtain x r1 where w: "with_conn (conn_progress cr) r = (x, r1)" by fastforce
  have k: "kept_by cr (x, r1)" using conn_progress_kept [OF inv cr] w by simp
  show ?thesis
  proof (cases x)
    case (Inl e)
    with True w k show ?thesis
      by (simp add: runner_finish_def runner_conn_progress_def st_bind_def kept_live_def kept_by_def)
  next
    case (Inr d1)
    with k have i1: "runner_inv cr r1" by (simp add: kept_by_def)
    have "report_ok d1 r1"
      using w Inr conn_progress_event by (auto simp: report_ok_def with_conn_def split: prod.splits)
    from runner_report_kept [OF i1 this] True w Inr show ?thesis
      by (auto simp: runner_finish_def runner_conn_progress_def st_bind_def kept_live_def kept_by_def
          split: dispatch_event.splits)
  qed
qed

lemma carries_length: "packet_from_bytes pl ctx = Inr p \<Longrightarrow> carries p di \<Longrightarrow> length pl = packet_offset (di_dt di) + di_len di \<and> 0 < di_len di"
  by (cases p) (auto simp: channel_data_payload channel_data_ext_payload DATA_OFFSET_def DATA_EXT_OFFSET_def)

lemma runner_handled_kept:
  assumes inv: "runner_inv cr r" and rx: "rx (rn_traf_in r) = RxInPayload (length pl) sq"
    and ev: "disp_event d = DispNone \<or> (\<exists>p ctx. packet_from_bytes pl ctx = Inr p \<and> event_sound p (cn_channels (rn_conn r)) (disp_event d))"
  shows "kept_by cr (runner_handled d r)"
    and "runner_handled d r = (Inr d', r') \<Longrightarrow> report_ok d' r'"
proof -
  show "kept_by cr (runner_handled d r)"
  proof (cases "disp_event d")
    case (DispData di)
    with ev have l: "length pl = packet_offset (di_dt di) + di_len di" "0 < di_len di"
      by (auto dest: carries_length)
    have "5 + length pl \<le> length (in_buf (rn_traf_in r))" "16 \<le> length (in_buf (rn_traf_in r))"
      using inv rx by (simp_all add: runner_inv_def rx_inv_def)
    then have "rx_inv (size_block_dec (ts_keys (rn_send r))) ((rn_traf_in r)\<lparr>rx := RxInChannelData (di_num di) (di_dt di)
        (5 + packet_offset (di_dt di)) (5 + packet_offset (di_dt di) + di_len di)\<rparr>)"
      using l by (simp add: rx_inv_def)
    from runner_inv_rx [OF inv this] rx DispData show ?thesis
      by (simp add: runner_handled_def set_read_channel_data_def framing_consts kept_by_def channels_wake_soft Let_def)
  next
    case DispKexDone
    have "runner_inv cr (channel_wake_write r)" using inv by (rule channels_wake_soft)
    from runner_inv_done [OF this] DispKexDone show ?thesis by (simp add: runner_handled_def kept_by_def Let_def)
  qed (use inv in \<open>simp_all add: runner_handled_def kept_by_def runner_inv_done\<close>)
  show "runner_handled d r = (Inr d', r') \<Longrightarrow> report_ok d' r'"
    using ev rx by (cases "disp_event d")
      (auto simp: runner_handled_def report_ok_def in_payload_def Let_def split: sum.splits prod.splits)
qed

lemma runner_incoming_kept:
  assumes inv: "runner_inv cr r" and cr: "crypto_ok cr" "rng_ok cr"
  shows "kept_live cr (runner_incoming cr r)"
proof (cases "payload (rn_traf_in r)")
  case (Inl e)
  with runner_payload_not_Panic(2) [OF inv] show ?thesis by (auto simp: runner_incoming_def kept_live_def kept_by_def)
next
  case (Inr q)
  show ?thesis
  proof (cases q)
    case None
    have "report_ok dispatched_default r" by (simp add: report_ok_def dispatched_default_def)
    from runner_finish_kept [OF inv cr(1) this] inv None Inr show ?thesis
      by (simp add: runner_incoming_def kept_live_def kept_by_def)
  next
    case (Some y)
    then obtain pl sq where y: "q = Some (pl, sq)" by (cases y) auto
    then have "runner_payload r = Inr (pl, sq)" using Inr by (simp add: runner_payload_def trap_option_def)
    then have rx: "rx (rn_traf_in r) = RxInPayload (length pl) sq" using runner_payload_Inr by blast
    have ci: "conn_inv cr (rn_conn r) (rn_send r)" "cn_state (rn_conn r) \<noteq> SendIdent"
      using inv rx by (auto simp: runner_inv_def)
    obtain x r1 where w: "with_conn (handle_payload cr pl sq) r = (x, r1)" by fastforce
    have k: "kept_by cr (x, r1)"
      using with_conn_payload [where f = "handle_payload cr pl sq", OF inv rx handle_payload_keeps [OF ci(1) cr ci(2)]
          handle_payload_forward] w by simp
    show ?thesis
    proof (cases x)
      case (Inl e)
      with k w Inr y show ?thesis by (simp add: runner_incoming_def st_bind_def kept_live_def kept_by_def)
    next
      case d: (Inr d)
      have i1: "runner_inv cr r1" using k d by (simp add: kept_by_def)
      have r1: "rx (rn_traf_in r1) = RxInPayload (length pl) sq" using w rx by (auto simp: with_conn_def split: prod.splits)
      obtain c' ts' where "handle_payload cr pl sq (rn_conn r) (rn_send r) = (Inr d, c', ts')" "rn_conn r1 = c'"
        using w d by (auto simp: with_conn_def split: prod.splits)
      then have ev: "disp_event d = DispNone \<or> (\<exists>p ctx. packet_from_bytes pl ctx = Inr p \<and> event_sound p (cn_channels (rn_conn r1)) (disp_event d))"
        using handle_payload_sound ci by (fastforce simp: conn_packet_def conn_inv_def conn_core_def)
      note h = runner_handled_kept [OF i1 r1 ev]
      obtain x2 r2 where h2: "runner_handled d r1 = (x2, r2)" by fastforce
      have "runner_incoming cr r = (case x2 of Inl e \<Rightarrow> (Inl e, r2) | Inr d2 \<Rightarrow> runner_finish cr d2 r2)"
        using w d Inr y h2 by (simp add: runner_incoming_def st_bind_def split: sum.splits)
      with h h2 runner_finish_kept [OF _ cr(1)] show ?thesis
        by (auto simp: kept_live_def kept_by_def split: sum.splits)
    qed
  qed
qed

lemma runner_progress_kept:
  assumes inv: "runner_inv cr r" and cr: "crypto_ok cr" "rng_ok cr"
  shows "kept_live cr (runner_progress cr r)"
proof -
  let ?r1 = "r\<lparr>rn_resume_event := DispNone, rn_extra_resume_event := DispNone\<rparr>"
  define r2 where "r2 = (if disp_is_event (rn_resume_event r) then ?r1\<lparr>rn_traf_in := done_payload (rn_traf_in r)\<rparr> else ?r1)"
  have i1: "runner_inv cr ?r1" using inv by (simp add: runner_inv_def)
  have i2: "runner_inv cr r2" using runner_inv_done [OF i1] i1 by (simp add: r2_def)
  show ?thesis
  proof (cases "disp_needs_resume (rn_resume_event r)")
    case True
    then show ?thesis by (simp add: runner_progress_def kept_live_def kept_by_def Let_def)
  next
    case nores: False
    show ?thesis
    proof (cases "rn_extra_resume_event r = DispNone")
      case False
      let ?d = "dispatched_default\<lparr>disp_event := rn_extra_resume_event r\<rparr>"
      define r3 where "r3 = ?r1\<lparr>rn_resume_event := rn_extra_resume_event r\<rparr>"
      have e: "runner_progress cr r = (dispatch_into_event (rn_extra_resume_event r) r3, r3)"
        using nores False by (simp add: runner_progress_def Let_def r3_def)
      have i3: "runner_inv cr r3" using i1 unfolding r3_def by (simp only: runner_inv_simps)
      have "report_ok ?d r3" using inv by (auto simp: report_ok_def runner_inv_def)
      from live_ok_report [OF this, of r3] i3 dispatch_into_event_not_Panic [OF i3] show ?thesis
        by (simp add: e kept_live_def kept_by_def)
    next
      case True
      define m where "m = (if \<not> conn_is_kex_sending (rn_conn r2) then with_sender (ts_send_deferred_packets cr) r2 else (Inr (), r2))"
      have "safe (calm cr (rn_send r2)) (ts_send_deferred_packets cr)"
        unfolding safe_def using ts_send_deferred_calm [OF _ cr(1)] calm_trans by (metis calm_def)
      from with_sender_soft [OF i2 cr(1) this] i2 have m: "soft cr m" by (simp add: m_def soft_def)
      have "runner_progress cr r = (case m of (Inl NoRoom, r) \<Rightarrow> (Inr EvNone, r) | (Inl e, r) \<Rightarrow> (Inl e, r)
         | (Inr _, r) \<Rightarrow> runner_incoming cr r)"
        using nores True by (simp add: runner_progress_def m_def r2_def Let_def)
      with m runner_incoming_kept [OF _ cr] show ?thesis
        by (cases m; cases "fst m") (auto simp: soft_def kept_live_def kept_by_def split: ssh_error.splits)
    qed
  qed
qed

end
