(* ===== verification/SSH_Session.thy ===== *)
theory SSH_Session
  imports SSH_Runner_Correct
begin

section \<open>Sessions\<close>

text \<open>
  A session is what an application makes of a runner: it feeds it bytes, takes bytes, polls \<open>progress\<close>, answers the
  event it holds and uses channels, in any order. An event borrows the runner, so it can be answered only
  right after the \<open>progress\<close> that returned it (\<open>permitted\<close>). After an error of \<open>input\<close>, of \<open>progress\<close> or
  of an answer that advances the connection the session is over (\<open>fatal\<close>); other errors leave it usable.
  The theorems hold for every session, with a peer that sends anything.
\<close>

subsection \<open>What an application does\<close>

datatype app_op =
    OpInput bytes
  | OpCloseInput
  | OpOutput nat
  | OpConsumeOutput nat
  | OpCloseOutput
  | OpProgress
  | OpUsername bytes
  | OpPassword "bytes option"
  | OpPubkey "sign_key option"
  | OpAgentSign "owned_sig option"
  | OpHostkey bool
  | OpRequest channel req
  | OpHostkeys "sign_key list"
  | OpAllow
  | OpReject
  | OpPasswordAuth bool
  | OpPubkeyAuth bool
  | OpOpenAccept chan_num
  | OpOpenReject chan_num chan_fail
  | OpChanReq bool
  | OpOpenSession
  | OpOpenTcpip string u16 string u16
  | OpWrite chan_num chan_data bytes
  | OpRead chan_num chan_data nat
  | OpReadEither chan_num nat
  | OpDiscard chan_num
  | OpSendEof chan_num
  | OpDone chan_num
  | OpReadWaker chan_num chan_data waker
  | OpWriteWaker chan_num chan_data waker
  | OpWindowChange chan_num "u32 \<times> u32 \<times> u32 \<times> u32"
  | OpBreak chan_num u32

definition no_event :: "'a ssh_result \<times> runner \<Rightarrow> event ssh_result \<times> runner" where
  "no_event x = (and_then (fst x) (\<lambda>_. Inr EvNone), snd x)"

fun allow_event :: "crypto \<Rightarrow> event \<Rightarrow> runner \<Rightarrow> unit ssh_result \<times> runner" where
  "allow_event cr (EvServ (EvPubkeyAuth real_sig)) r = pubkey_auth_allow cr real_sig r"
| "allow_event cr (EvServ EvFirstAuth) r = first_auth_allow cr r"
| "allow_event cr _ r = password_auth_allow cr r"

fun app_step :: "crypto \<Rightarrow> event \<Rightarrow> app_op \<Rightarrow> runner \<Rightarrow> event ssh_result \<times> runner" where
  "app_step cr ev (OpInput buf) r =
     (case runner_input cr buf r of Inl e \<Rightarrow> (Inl e, r) | Inr (_, r) \<Rightarrow> (Inr EvNone, r))"
| "app_step cr ev OpCloseInput r = (Inr EvNone, runner_close_input r)"
| "app_step cr ev (OpOutput room) r = no_event (runner_output room r)"
| "app_step cr ev (OpConsumeOutput n) r = (Inr EvNone, runner_consume_output n r)"
| "app_step cr ev OpCloseOutput r = (Inr EvNone, runner_close_output r)"
| "app_step cr ev OpProgress r = runner_progress cr r"
| "app_step cr ev (OpUsername u) r = no_event (runner_resume_cliusername cr u r)"
| "app_step cr ev (OpPassword pw) r = no_event (runner_resume_clipassword cr pw r)"
| "app_step cr ev (OpPubkey k) r = no_event (runner_resume_clipubkey cr k r)"
| "app_step cr ev (OpAgentSign s) r = no_event (runner_resume_agentsign cr s r)"
| "app_step cr ev (OpHostkey accept) r = no_event (runner_resume_checkhostkey cr accept r)"
| "app_step cr ev (OpRequest ch rq) r = no_event (opener_send cr ch rq r)"
| "app_step cr ev (OpHostkeys keys) r = no_event (runner_resume_servhostkeys cr keys r)"
| "app_step cr ev OpAllow r = no_event (allow_event cr ev r)"
| "app_step cr ev OpReject r = no_event (auth_reject cr r)"
| "app_step cr ev (OpPasswordAuth b) r = no_event (enable_password_auth b r)"
| "app_step cr ev (OpPubkeyAuth b) r = no_event (enable_pubkey_auth b r)"
| "app_step cr ev (OpOpenAccept num) r = no_event (open_session_accept cr num r)"
| "app_step cr ev (OpOpenReject num fail) r = no_event (open_session_reject cr num fail r)"
| "app_step cr ev (OpChanReq success) r = no_event (runner_resume_chanreq cr success r)"
| "app_step cr ev OpOpenSession r = no_event (open_client_session cr r)"
| "app_step cr ev (OpOpenTcpip a p ori op) r = no_event (open_client_tcpip cr a p ori op r)"
| "app_step cr ev (OpWrite num dt buf) r = no_event (write_channel cr num dt buf r)"
| "app_step cr ev (OpRead num dt room) r = no_event (runner_read_channel cr num dt room r)"
| "app_step cr ev (OpReadEither num room) r = no_event (runner_read_channel_either cr num room r)"
| "app_step cr ev (OpDiscard num) r = no_event (runner_discard_read_channel cr num r)"
| "app_step cr ev (OpSendEof num) r = no_event (send_channel_eof cr num r)"
| "app_step cr ev (OpDone num) r = no_event (channel_done num r)"
| "app_step cr ev (OpReadWaker num dt w) r = no_event (set_channel_read_waker num dt w r)"
| "app_step cr ev (OpWriteWaker num dt w) r = no_event (set_channel_write_waker num dt w r)"
| "app_step cr ev (OpWindowChange num winch) r = no_event (runner_term_window_change cr num winch r)"
| "app_step cr ev (OpBreak num l) r = no_event (runner_term_break cr num l r)"

text \<open>
  The rules of use: an answer fits the event that is held, \<open>output\<close> gets a buffer that the pending output
  fills, a waker is set on a channel that is open, and only a client opens channels.
\<close>

definition auth_event :: "event \<Rightarrow> bool" where
  "auth_event ev \<longleftrightarrow>
     ev \<in> {EvServ EvFirstAuth, EvServ EvPasswordAuth, EvServ (EvPubkeyAuth True), EvServ (EvPubkeyAuth False)}"

definition is_open :: "chan_num \<Rightarrow> runner \<Rightarrow> bool" where
  "is_open num r = get_is_ok_and num (\<lambda>_. True) (cn_channels (rn_conn r))"

fun permitted :: "app_op \<Rightarrow> event \<Rightarrow> runner \<Rightarrow> bool" where
  "permitted (OpOutput room) ev r \<longleftrightarrow> room \<le> length (pending (rn_out r))"
| "permitted (OpUsername _) ev r \<longleftrightarrow> ev = EvCli EvUsername"
| "permitted (OpPassword _) ev r \<longleftrightarrow> ev = EvCli EvPassword"
| "permitted (OpPubkey _) ev r \<longleftrightarrow> ev = EvCli EvPubkey"
| "permitted (OpAgentSign _) ev r \<longleftrightarrow> ev = EvCli EvAgentSign"
| "permitted (OpHostkey _) ev r \<longleftrightarrow> ev = EvCli EvHostkey"
| "permitted (OpRequest ch _) ev r \<longleftrightarrow> ev = EvCli (EvSessionOpened ch)"
| "permitted (OpHostkeys keys) ev r \<longleftrightarrow>
     ev = EvServ EvHostkeys \<and> \<not> runner_is_client r \<and> list_all (\<lambda>k. \<not> sign_key_is_agent k) keys"
| "permitted OpAllow ev r \<longleftrightarrow> auth_event ev"
| "permitted OpReject ev r \<longleftrightarrow> auth_event ev"
| "permitted (OpOpenAccept num) ev r \<longleftrightarrow> ev = EvServ (EvOpenSession num)"
| "permitted (OpOpenReject num _) ev r \<longleftrightarrow> ev = EvServ (EvOpenSession num)"
| "permitted (OpChanReq _) ev r \<longleftrightarrow>
     (\<exists>num. ev \<in> EvServ ` {EvSessionShell num, EvSessionExec num, EvSessionSubsystem num, EvSessionPty num, EvSessionEnv num})"
| "permitted OpOpenSession ev r \<longleftrightarrow> runner_is_client r"
| "permitted (OpOpenTcpip _ _ _ _) ev r \<longleftrightarrow> runner_is_client r"
| "permitted (OpReadWaker num _ _) ev r \<longleftrightarrow> is_open num r"
| "permitted (OpWriteWaker num _ _) ev r \<longleftrightarrow> is_open num r"
| "permitted (OpBreak _ _) ev r \<longleftrightarrow> runner_is_client r"
| "permitted _ ev r \<longleftrightarrow> True"

definition fatal :: "app_op \<Rightarrow> bool" where
  "fatal op \<longleftrightarrow> (case op of
     OpInput _ \<Rightarrow> True | OpProgress \<Rightarrow> True | OpHostkey _ \<Rightarrow> True | OpHostkeys _ \<Rightarrow> True | OpAllow \<Rightarrow> True | OpReject \<Rightarrow> True
   | _ \<Rightarrow> False)"

text \<open>The history of a session has each operation with the event that was held.\<close>

inductive runs :: "crypto \<Rightarrow> bool \<Rightarrow> (app_op \<times> event) list \<Rightarrow> runner \<Rightarrow> event \<Rightarrow> bool" for cr is_client where
  start: "runner_new is_client inbuf outbuf = Inr r \<Longrightarrow> 16 \<le> length inbuf \<Longrightarrow> runs cr is_client [] r EvNone"
| step: "runs cr is_client tr r ev \<Longrightarrow> permitted op ev r \<Longrightarrow> app_step cr ev op r = (Inr ev', r')
    \<Longrightarrow> runs cr is_client ((op, ev) # tr) r' ev'"
| failed: "runs cr is_client tr r ev \<Longrightarrow> permitted op ev r \<Longrightarrow> app_step cr ev op r = (Inl e, r') \<Longrightarrow> \<not> fatal op
    \<Longrightarrow> runs cr is_client ((op, ev) # tr) r' EvNone"

subsection \<open>No operation panics\<close>

lemma no_event_keeps: "soft cr x \<Longrightarrow> soft cr (no_event x)" "kept_by cr x \<Longrightarrow> kept_by cr (no_event x)"
  by (auto simp: soft_def kept_by_def no_event_def and_then_Inl_eq and_then_Inr_eq)

lemma allow_event_kept:
  assumes "runner_inv cr r" "crypto_ok cr" "auth_event ev" "live_ok ev r"
  shows "kept_by cr (allow_event cr ev r)" "kept_by cr (auth_reject cr r)"
proof -
  have p: "in_payload r" using assms(3,4) by (auto simp: auth_event_def)
  have a: "kept_by cr (runner_resume_servauth cr b r)" for b
    using p servauth_kept [OF assms(1,2)] by (auto simp: in_payload_def)
  then show "kept_by cr (auth_reject cr r)" by (simp add: auth_reject_def)
  show "kept_by cr (allow_event cr ev r)"
    using a assms(3) soft_kept [OF servauth_soft(1) [OF assms(1,2)]]
    by (auto simp: auth_event_def pubkey_auth_allow_def first_auth_allow_def password_auth_allow_def)
qed

lemma open_answers_soft:
  assumes "runner_inv cr r" "crypto_ok cr" "opening_in num (cn_channels (rn_conn r))"
  shows "soft cr (open_session_accept cr num r)" "soft cr (open_session_reject cr num fail r)"
proof -
  have c: "soft cr (runner_resume_chanopen cr num f r)" for f
    using assms chanopen_soft by (auto simp: opening_in_def)
  show "soft cr (open_session_accept cr num r)"
    unfolding open_session_accept_def using c by (rule st_bind_soft) (simp add: rn_ops_soft)
  show "soft cr (open_session_reject cr num fail r)" using c by (simp add: open_session_reject_def)
qed

lemma app_step_soft:
  assumes inv: "runner_inv cr r" "crypto_ok cr" "live_ok ev r" "permitted op ev r" "\<not> fatal op"
  shows "soft cr (app_step cr ev op r)"
proof (cases op)
  case (OpOutput room)
  with assms show ?thesis by (auto intro!: no_event_keeps runner_output_soft)
next
  case (OpOpenAccept num)
  with assms show ?thesis by (auto intro!: no_event_keeps open_answers_soft)
next
  case (OpOpenReject num f)
  with assms show ?thesis by (auto intro!: no_event_keeps open_answers_soft)
next
  case (OpReadWaker num dt w)
  with assms show ?thesis
    by (auto simp: is_open_def get_is_ok_and_def split: sum.splits intro!: no_event_keeps waker_soft)
next
  case (OpWriteWaker num dt w)
  with assms show ?thesis
    by (auto simp: is_open_def get_is_ok_and_def split: sum.splits intro!: no_event_keeps waker_soft)
qed (use inv in \<open>simp_all add: fatal_def no_event_keeps client_answers_soft servauth_soft chanreq_soft terminal_soft
  open_client_session_def open_client_tcpip_def open_client_channel_soft write_channel_soft runner_read_channel_soft
  send_channel_eof_soft channel_done_soft\<close>, simp_all add: soft_def runner_close_input_def runner_consume_output_inv
  runner_close_output_inv)

lemma app_step_kept:
  assumes inv: "runner_inv cr r" "crypto_ok cr" "rng_ok cr" "live_ok ev r" "permitted op ev r"
  shows "kept_by cr (app_step cr ev op r)"
    and "app_step cr ev op r = (Inr ev', r') \<Longrightarrow> live_ok ev' r'"
proof -
  show "kept_by cr (app_step cr ev op r)"
  proof (cases "fatal op")
    case False
    with app_step_soft assms soft_kept show ?thesis by blast
  next
    case True
    then show ?thesis
    proof (cases op)
      case (OpInput buf)
      with runner_input_kept [OF inv(1), of buf] show ?thesis by (auto simp: kept_by_def split: sum.splits)
    next
      case OpProgress
      with runner_progress_kept [OF inv(1-3)] show ?thesis by (simp add: kept_live_def)
    next
      case (OpHostkey b)
      with hostkey_answers_kept(1) [OF inv(1,2)] show ?thesis by (simp add: no_event_keeps)
    next
      case (OpHostkeys keys)
      with hostkey_answers_kept(2) [OF inv(1,2)] inv(5) show ?thesis by (simp add: no_event_keeps list_all_iff)
    qed (use allow_event_kept [OF inv(1,2) _ inv(4)] inv(5) in \<open>simp_all add: fatal_def no_event_keeps\<close>)
  qed
  show "live_ok ev' r'" if "app_step cr ev op r = (Inr ev', r')"
    using that runner_progress_kept [OF inv(1-3)]
    by (cases op) (auto simp: kept_live_def no_event_def and_then_Inr_eq split: sum.splits)
qed

lemma runs_inv:
  assumes "runs cr is_client tr r ev" "crypto_ok cr" "rng_ok cr"
  shows "runner_inv cr r \<and> live_ok ev r"
  using assms(1)
proof (induction rule: runs.induct)
  case (start inbuf outbuf r)
  then show ?case using runner_new_inv by simp
next
  case (step tr r ev op ev' r')
  with app_step_kept(1) [of cr r ev op] app_step_kept(2) [of cr r ev op ev' r'] assms show ?case by (simp add: kept_by_def)
next
  case (failed tr r ev op e r')
  with app_step_soft [of cr r ev op] assms show ?case by (simp add: soft_def)
qed

lemma runs_never_panics:
  assumes "runs cr is_client tr r ev" "crypto_ok cr" "rng_ok cr" "permitted op ev r"
  shows "fst (app_step cr ev op r) \<noteq> Inl Panic"
  using runs_inv [OF assms(1-3)] app_step_kept(1) [of cr r ev op] assms by (simp add: kept_by_def)

subsection \<open>What a step can do to the connection\<close>

fun lets_in :: "app_op \<times> event \<Rightarrow> bool" where
  "lets_in (OpAllow, ev) \<longleftrightarrow> ev \<noteq> EvServ (EvPubkeyAuth False)"
| "lets_in _ \<longleftrightarrow> False"

lemma no_event_conn [simp]: "rn_conn (snd (no_event x)) = rn_conn (snd x)"
  by (simp add: no_event_def)

lemma empty_get: "set (chs cs) \<subseteq> {None} \<Longrightarrow> get_any num cs = Inl (BadChannel num) \<and> get_chan num cs = Inl (BadChannel num)"
  by (cases "get_any num cs"; cases "get_chan num cs")
     (auto simp: get_any_Inr get_chan_Inr dest!: nth_mem get_any_Inl get_chan_Inl)

lemma empty_wake:
  assumes "set (chs cs) \<subseteq> {None}"
  shows "channels_wake_read num dt c cs = cs" "channels_wake_write c cs = cs"
proof -
  have "map (map_option (wake_write c)) (chs cs) = chs cs" using assms by (intro map_idI) auto
  then show "channels_wake_write c cs = cs" by (simp add: channels_wake_write_def)
  show "channels_wake_read num dt c cs = cs" using assms by (simp add: channels_wake_read_def empty_get)
qed

text \<open>
  The interface between the runner and the connection it holds, for a property of what operations do to the
  connection: a relation \<open>R\<close> that the operations of the connection respect is respected by every operation of an
  application. \<open>allow\<close> says whether the answers that let a user in are among the operations.
\<close>

locale conn_relation =
  fixes R :: "conn \<Rightarrow> conn \<Rightarrow> bool" and cr :: crypto and allow :: bool
  assumes refl: "R c c" and trans: "R c c1 \<Longrightarrow> R c1 c2 \<Longrightarrow> R c c2"
    and progress: "conn_progress cr c ts = (x, c', ts') \<Longrightarrow> R c c'"
    and handle: "handle_payload cr pl sq c ts = (x, c', ts') \<Longrightarrow> R c c'"
    and hostkeys: "conn_resume_servhostkeys cr pl keys c ts = (y, c', ts') \<Longrightarrow> R c c'"
    and hostkey: "conn_resume_checkhostkey cr pl b c ts = (y, c', ts') \<Longrightarrow> R c c'"
    and servauth: "b \<longrightarrow> allow \<Longrightarrow> conn_resume_servauth cr b c ts = (z, c', ts') \<Longrightarrow> R c c'"
    and methods: "conn_set_auth_methods pw pk c = (y, c') \<Longrightarrow> R c c'"
    and cliauth: "cn_cliserv c = Client ca \<Longrightarrow> R c (c\<lparr>cn_cliserv := Client ca', cn_parse_ctx := ctx\<rparr>)"
    and version: "R c (c\<lparr>cn_remote_version := v\<rparr>)"
    and channels: "(\<not> conn_is_client c \<Longrightarrow> set (chs (cn_channels c)) \<subseteq> {None} \<Longrightarrow> cs = cn_channels c)
      \<Longrightarrow> R c (c\<lparr>cn_channels := cs\<rparr>)"
begin

definition within :: "(runner \<Rightarrow> 'a ssh_result \<times> runner) \<Rightarrow> bool" where
  "within m \<longleftrightarrow> (\<forall>r. R (rn_conn r) (rn_conn (snd (m r))))"

lemma withinD: "within m \<Longrightarrow> R (rn_conn r) (rn_conn (snd (m r)))"
  by (simp add: within_def)

lemma within_bind: "within m \<Longrightarrow> (\<And>v. within (f v)) \<Longrightarrow> within (st_bind m f)"
proof -
  assume m: "within m" and f: "\<And>v. within (f v)"
  have "R (rn_conn r) (rn_conn (snd (st_bind m f r)))" for r
    using withinD [OF m, of r] trans withinD [OF f] by (cases "m r"; cases "fst (m r)") (auto simp: st_bind_def intro: trans)
  then show ?thesis by (simp add: within_def)
qed

lemma within_get: "within (rn_get f)"
  by (simp add: within_def rn_get_def refl)

lemma within_update: "(\<And>r. rn_conn (f r) = rn_conn r) \<Longrightarrow> within (rn_update f)"
  by (simp add: within_def rn_update_def refl)

lemma within_sender: "within (with_sender f)"
  by (simp add: within_def with_sender_def refl split: prod.splits)

lemma within_conn: "(\<And>c ts x c' ts'. f c ts = (x, c', ts') \<Longrightarrow> R c c') \<Longrightarrow> within (with_conn f)"
  by (auto simp: within_def with_conn_def split: prod.splits)

lemma within_channels:
  assumes "\<And>cs ts. set (chs cs) \<subseteq> {None} \<Longrightarrow> fst (snd (f cs ts)) = cs"
  shows "within (with_channels f)"
  unfolding with_channels_def
proof (rule within_conn)
  fix c ts x c' ts' assume "on_channels f c ts = (x, c', ts')"
  then have "c' = c\<lparr>cn_channels := fst (snd (f (cn_channels c) ts))\<rparr>" by (auto simp: on_channels_def split: prod.splits)
  with assms channels show "R c c'" by simp
qed

lemmas within_intros = within_bind within_get within_update within_sender within_channels

lemma within_cliauth: "within (with_cliauth f)"
  unfolding with_cliauth_def
proof (rule within_conn)
  fix c ts x c' ts'
  assume "(case conn_client c of Inl e \<Rightarrow> (Inl e, c, ts) | Inr ca \<Rightarrow>
     let (x, ca, ctx, ts) = f ca (cn_parse_ctx c) ts in (x, c\<lparr>cn_cliserv := Client ca, cn_parse_ctx := ctx\<rparr>, ts)) = (x, c', ts')"
  then show "R c c'"
    by (cases "cn_cliserv c") (auto simp: conn_client_def trap_option_def refl cliauth split: prod.splits)
qed

lemma within_wake: "R (rn_conn r) (rn_conn (channel_wake_read num dt r))" "R (rn_conn r) (rn_conn (channel_wake_write r))"
  by (auto simp: channel_wake_read_def channel_wake_write_def empty_wake intro!: channels)

lemma within_channel_ops:
  "within (finished_read_channel cr num n)" "within (send_channel_eof cr num)" "within (channel_done num)"
  "within (on_handle num g)" "within (with_channels (\<lambda>cs ts. let (x, cs) = send_data num dt d cs in (x, cs, ts)))"
  "within (with_channels (resume_open cr num fail))"
proof -
  have "within (with_channels (channels_send_eof cr num))"
    by (rule within_channels) (simp add: channels_send_eof_def empty_get)
  then have "within (st_bind (with_channels (channels_send_eof cr num)) (\<lambda>_. rn_update runner_wake))"
    by (intro within_bind within_update) simp_all
  then show "within (send_channel_eof cr num)" by (auto simp: within_def send_channel_eof_def refl)
qed (auto simp: finished_read_channel_def channel_done_def on_handle_def finished_read_def channels_done_def send_data_def
  resume_open_def empty_get unwrap_result_def intro!: within_intros)

lemma within_read: "within (read_completed cr num d complete)"
  unfolding read_completed_def by (cases complete) (auto intro!: within_bind within_get within_update within_channel_ops)

lemma within_write: "within (write_channel cr num dt buf)"
proof -
  have "within (\<lambda>r. (Inr n, runner_wake r))" for n :: nat by (simp add: within_def refl)
  then have "within (st_bind (with_channels (\<lambda>cs ts. let (x, cs) = send_data num dt d cs in (x, cs, ts)))
      (\<lambda>p. st_bind (runner_send_packet cr p) (\<lambda>_ r. (Inr n, runner_wake r))))" for d and n :: nat
    unfolding runner_send_packet_def by (intro within_bind within_channel_ops within_sender)
  then show ?thesis
    by (auto simp: within_def write_channel_def Let_def refl split: sum.splits option.splits)
qed

lemma within_servauth: "b \<longrightarrow> allow \<Longrightarrow> within (runner_resume_servauth cr b)"
proof -
  assume "b \<longrightarrow> allow"
  then have w: "within (with_conn (conn_resume_servauth cr b))" by (intro within_conn servauth)
  have "R (rn_conn r) (rn_conn (snd (runner_resume_servauth cr b r)))" for r
    using withinD [OF w, of r]
    by (cases "with_conn (conn_resume_servauth cr b) r"; cases "fst (with_conn (conn_resume_servauth cr b) r)")
       (auto simp: runner_resume_servauth_def set_extra_resume_def runner_resume_def split: sum.splits)
  then show ?thesis by (simp add: within_def)
qed

lemma within_server_answers:
  "within (runner_resume_servhostkeys cr keys)" "within (runner_resume_checkhostkey cr b)"
  "within (runner_resume_servauth_pkok cr)" "within (runner_set_auth_methods pw pk)"
  "within (runner_resume_chanreq cr success)"
proof -
  have r: "within (rn_update runner_resume)" by (rule within_update) (simp add: runner_resume_def)
  have "within (with_conn (conn_resume_servhostkeys cr pl keys))" "within (with_conn (conn_resume_checkhostkey cr pl b))" for pl
    by (rule within_conn, erule hostkeys, rule within_conn, erule hostkey)
  with r show "within (runner_resume_servhostkeys cr keys)" "within (runner_resume_checkhostkey cr b)"
    by (auto simp: runner_resume_servhostkeys_def runner_resume_checkhostkey_def split: prod.splits intro!: within_bind within_get)
  show "within (runner_set_auth_methods pw pk)"
    by (auto simp: within_def runner_set_auth_methods_def split: prod.splits intro: methods)
  have s: "within (\<lambda>r. case with_sender (f r) r of (x, r) \<Rightarrow> (x, runner_resume r))" for f :: "runner \<Rightarrow> traf_send \<Rightarrow> unit ssh_result \<times> traf_send"
    by (simp add: within_def with_sender_def runner_resume_def refl split: prod.splits)
  show "within (runner_resume_servauth_pkok cr)" "within (runner_resume_chanreq cr success)"
    unfolding runner_resume_servauth_pkok_def runner_resume_chanreq_def Let_def
    by (rule within_bind [OF within_get], simp add: case_prod_beta' s [unfolded case_prod_beta'])+
qed

lemma within_client_answers:
  "within (runner_resume_cliusername cr u)" "within (runner_resume_clipassword cr pw)"
  "within (runner_resume_clipubkey cr key)" "within (runner_resume_agentsign cr sig)"
proof -
  have "R (rn_conn r) (rn_conn (snd (runner_resume_cliusername cr u r)))" for r
    unfolding runner_resume_cliusername_def using withinD [OF within_cliauth, of "runner_resume r"] by (simp add: runner_resume_def)
  then show "within (runner_resume_cliusername cr u)" by (simp add: within_def)
qed (auto simp: runner_resume_clipassword_def runner_resume_clipubkey_def runner_resume_agentsign_def runner_resume_def
  set_extra_resume_def intro!: within_bind within_cliauth within_update)

lemma within_channel_requests:
  "within (opener_send cr ch rq)" "within (runner_term_break cr num l)"
  "within (runner_term_window_change cr num winch)" "within (set_channel_read_waker num dt w)"
  "within (set_channel_write_waker num dt w)" "within (open_session_accept cr num)"
  "within (open_session_reject cr num fail)"
proof -
  have "R (rn_conn r) (rn_conn (snd (runner_resume_chanopen cr num f r)))" for r f
    unfolding runner_resume_chanopen_def using withinD [OF within_channel_ops(6), of "runner_resume r"] by (simp add: runner_resume_def)
  then have "within (runner_resume_chanopen cr num f)" for f by (simp add: within_def)
  then show "within (open_session_accept cr num)" "within (open_session_reject cr num fail)"
    unfolding open_session_accept_def open_session_reject_def by (auto intro!: within_bind within_get)
qed (auto simp: within_def opener_send_def runner_term_break_def withinD [OF within_sender] withinD [OF within_channel_ops(4)]
  runner_term_window_change_def set_channel_read_waker_def set_channel_write_waker_def refl)

lemma within_auth_methods: "within (enable_password_auth b)" "within (enable_pubkey_auth b)"
  unfolding enable_password_auth_def enable_pubkey_auth_def
  by (rule within_bind [OF within_get], auto intro: within_server_answers split: prod.splits)+

lemma within_handled: "within (runner_handled d)"
  by (auto simp: within_def runner_handled_def refl Let_def within_wake within_wake(1) [of "r\<lparr>rn_traf_in := ti\<rparr>" for r ti, simplified]
      split: dispatch_event.splits sum.splits)

lemma within_finish: "within (runner_finish cr d)"
proof -
  have "within (with_conn (conn_progress cr))" by (rule within_conn) (rule progress)
  then have "within (runner_conn_progress cr d)"
    by (auto simp: within_def runner_conn_progress_def refl split: prod.splits sum.splits dispatch_event.splits) (metis snd_conv)+
  moreover have "within (runner_report d')" for d' by (simp add: within_def runner_report_def Let_def refl)
  ultimately show ?thesis unfolding runner_finish_def by (intro within_bind)
qed

lemma within_incoming: "within (runner_incoming cr)"
proof -
  have "within (with_conn (handle_payload cr pl sq))" for pl sq by (rule within_conn) (rule handle)
  then have "within (st_bind (with_conn (handle_payload cr pl sq)) (\<lambda>d. st_bind (runner_handled d) (runner_finish cr)))" for pl sq
    by (intro within_bind within_handled within_finish)
  with within_finish show ?thesis
    by (auto simp: within_def runner_incoming_def refl split: sum.splits option.splits)
qed

lemma within_progress: "within (runner_progress cr)"
proof -
  have "R (rn_conn r) (rn_conn (snd (runner_progress cr r)))" for r
  proof (cases "disp_needs_resume (rn_resume_event r) \<or> rn_extra_resume_event r \<noteq> DispNone")
    case True
    then show ?thesis by (auto simp: runner_progress_def Let_def refl)
  next
    case False
    define q where "q = (if disp_is_event (rn_resume_event r)
      then r\<lparr>rn_resume_event := DispNone, rn_extra_resume_event := DispNone, rn_traf_in := done_payload (rn_traf_in r)\<rparr>
      else r\<lparr>rn_resume_event := DispNone, rn_extra_resume_event := DispNone\<rparr>)"
    define m where "m = (if \<not> conn_is_kex_sending (rn_conn q) then with_sender (ts_send_deferred_packets cr) q else (Inr (), q))"
    have c: "rn_conn (snd m) = rn_conn r" by (simp add: m_def q_def with_sender_def split: prod.splits)
    have "runner_progress cr r = (case m of (Inl NoRoom, r) \<Rightarrow> (Inr EvNone, r) | (Inl e, r) \<Rightarrow> (Inl e, r)
        | (Inr _, r) \<Rightarrow> runner_incoming cr r)"
      using False by (simp add: runner_progress_def m_def q_def Let_def)
    then show ?thesis
      using c withinD [OF within_incoming, of "snd m"] by (cases m; cases "fst m") (auto simp: refl split: ssh_error.splits)
  qed
  then show ?thesis by (simp add: within_def)
qed

lemma within_open: "runner_is_client r \<Longrightarrow> R (rn_conn r) (rn_conn (snd (open_client_channel cr ty r)))"
proof -
  assume c: "runner_is_client r"
  let ?f = "\<lambda>cs ts. let (x, cs) = channels_open ty cs in (x, cs, ts)"
  have "R (rn_conn r) (rn_conn (snd (with_channels ?f r)))"
    using c by (auto simp: with_channels_def with_conn_def on_channels_def runner_is_client_def split: prod.splits intro!: channels)
  moreover have "rn_conn (snd (open_client_channel cr ty r)) = rn_conn (snd (with_channels ?f r))"
    by (auto simp: open_client_channel_def st_bind_def runner_send_packet_def with_sender_def split: prod.splits sum.splits)
  ultimately show ?thesis by simp
qed

lemma app_step_within:
  assumes "permitted op ev r" "lets_in (op, ev) \<longrightarrow> allow"
  shows "R (rn_conn r) (rn_conn (snd (app_step cr ev op r)))"
proof (cases op)
  case (OpInput buf)
  then show ?thesis
    by (auto simp: runner_input_def and_then_Inr_eq refl version split: sum.splits if_splits)
next
  case OpProgress
  then show ?thesis by (simp add: withinD [OF within_progress])
next
  case OpAllow
  have "within (runner_resume_servauth cr True)" if "ev \<noteq> EvServ (EvPubkeyAuth False)"
    using assms(2) OpAllow that by (intro within_servauth) auto
  with OpAllow assms(1) show ?thesis
    using withinD [OF within_server_answers(3)]
    by (auto simp: auth_event_def pubkey_auth_allow_def first_auth_allow_def password_auth_allow_def withinD)
next
  case OpReject
  then show ?thesis using withinD [OF within_servauth [of False]] by (simp add: auth_reject_def)
next
  case (OpConsumeOutput n)
  then show ?thesis
    using within_wake(2) [of "r\<lparr>rn_send := (rn_send r)\<lparr>ts_out := consume_output n (rn_out r)\<rparr>\<rparr>"]
    by (simp add: runner_consume_output_def Let_def refl)
next
  case (OpOutput n)
  then show ?thesis
    using within_wake(2) [of "r\<lparr>rn_send := (rn_send r)\<lparr>ts_out := consume_output m (rn_out r)\<rparr>\<rparr>" for m]
    by (auto simp: runner_output_def runner_consume_output_def Let_def refl split: sum.splits)
next
  case (OpRead num dt room)
  then show ?thesis
    by (auto simp: runner_read_channel_def refl split: sum.splits intro: withinD [OF within_read, of "r\<lparr>rn_traf_in := ti\<rparr>" for ti, simplified])
next
  case (OpReadEither num room)
  then show ?thesis
    by (auto simp: runner_read_channel_either_def case_prod_beta refl split: sum.splits
        intro: withinD [OF within_read, of "r\<lparr>rn_traf_in := ti\<rparr>" for ti, simplified])
next
  case (OpDiscard num)
  then show ?thesis
    by (auto simp: runner_discard_read_channel_def split: prod.splits
        intro: withinD [OF within_channel_ops(1), of "r\<lparr>rn_traf_in := ti\<rparr>" for ti, simplified])
qed (use assms in \<open>auto simp: runner_close_input_def runner_close_output_def refl open_client_session_def open_client_tcpip_def
  within_open intro: withinD within_write within_client_answers within_server_answers within_channel_requests within_channel_ops
    within_auth_methods\<close>)

end

subsection \<open>Nothing opens before authentication\<close>

text \<open>A server that has let no one in: not authenticated, and with no channel.\<close>

definition locked :: "conn \<Rightarrow> bool" where
  "locked c \<longleftrightarrow> unauthed c \<and> (\<exists>sa. cn_cliserv c = Server sa \<and> \<not> sa_authed sa)"

lemma locked_updates [simp]:
  "locked (c\<lparr>cn_kex := k\<rparr>) = locked c" "locked (c\<lparr>cn_remote_version := v\<rparr>) = locked c"
  "locked (c\<lparr>cn_kex := k, cn_sess_id := sid\<rparr>) = locked c"
  by (simp_all add: locked_def unauthed_def conn_is_client_def)

lemma conn_progress_locked:
  assumes "locked c" "conn_progress cr c ts = (x, c', ts')" shows "locked c'"
proof -
  have "cn_cliserv b = cn_cliserv a" if "conn_progress_state a t = (y, b, t')" "cn_cliserv a = Server sa" for a b t t' y sa
    using that by (cases "cn_state a") (auto simp: conn_progress_state_def split: prod.splits sum.splits option.splits if_splits)
  then have "cn_cliserv c' = cn_cliserv c"
    using assms by (fastforce simp: locked_def conn_progress_def Let_def split: prod.splits sum.splits if_splits)
  with conn_progress_unauthed [OF assms(2)] assms(1) show ?thesis by (simp add: locked_def)
qed

lemma handle_payload_locked:
  assumes l: "locked c" and h: "handle_payload cr pl sq c ts = (x, c', ts')" shows "locked c'"
proof -
  obtain sa where sa: "cn_cliserv c = Server sa" "\<not> sa_authed sa" using l by (auto simp: locked_def)
  have "\<exists>sa'. cn_cliserv c1 = Server sa' \<and> \<not> sa_authed sa'" if "dispatch_event_of cr p c ts = (y, c1, t1)" for p y c1 t1
    using that sa
    by (cases p)
       (auto simp: on_kex_def on_channels_def dispatch_ext_info_def dispatch_service_request_def
         dispatch_userauth_request_def dispatch_userauth_failure_def dispatch_userauth_success_def dispatch_userauth60_def
         split: prod.splits sum.splits if_splits dest: serv_request_state(1))
  then have "\<exists>sa'. cn_cliserv c' = Server sa' \<and> \<not> sa_authed sa'"
    using h sa by (auto simp: handle_payload_def dispatch_packet_def split: sum.splits ssh_error.splits prod.splits)
  with handle_payload_unauthed [OF h] l show ?thesis by (simp add: locked_def)
qed

lemma conn_answers_locked:
  "locked c \<Longrightarrow> conn_resume_servhostkeys cr pl keys c ts = (x, c', ts') \<Longrightarrow> locked c'"
  "locked c \<Longrightarrow> conn_resume_checkhostkey cr pl b c ts = (x, c', ts') \<Longrightarrow> locked c'"
  "locked c \<Longrightarrow> conn_resume_servauth cr False c ts = (y, c', ts') \<Longrightarrow> locked c'"
proof -
  show "locked c \<Longrightarrow> conn_resume_servhostkeys cr pl keys c ts = (x, c', ts') \<Longrightarrow> locked c'"
    by (auto simp: conn_resume_servhostkeys_def Let_def split: sum.splits packet.splits prod.splits)
  show "locked c \<Longrightarrow> conn_resume_checkhostkey cr pl b c ts = (x, c', ts') \<Longrightarrow> locked c'"
    by (auto simp: conn_resume_checkhostkey_def Let_def split: sum.splits packet.splits prod.splits if_splits)
  show "locked c \<Longrightarrow> conn_resume_servauth cr False c ts = (y, c', ts') \<Longrightarrow> locked c'"
    by (auto simp: conn_resume_servauth_def serv_resume_request_def conn_server_def trap_option_def locked_def
        unauthed_def conn_is_client_def serv_is_authed_def Let_def split: sum.splits prod.splits if_splits)
qed

interpretation lock: conn_relation "\<lambda>c c'. locked c \<longrightarrow> locked c'" cr False for cr
proof unfold_locales
  fix pw pk :: bool and c c' :: conn and y
  assume "conn_set_auth_methods pw pk c = (y, c')"
  then show "locked c \<longrightarrow> locked c'"
    by (auto simp: conn_set_auth_methods_def conn_server_def trap_option_def serv_set_auth_methods_def locked_def unauthed_def
        conn_is_client_def split: sum.splits)
next
  fix c :: conn and ca ca' ctx cs
  show "cn_cliserv c = Client ca \<Longrightarrow> locked c \<longrightarrow> locked (c\<lparr>cn_cliserv := Client ca', cn_parse_ctx := ctx\<rparr>)"
    by (simp add: locked_def)
  show "(\<not> conn_is_client c \<Longrightarrow> set (chs (cn_channels c)) \<subseteq> {None} \<Longrightarrow> cs = cn_channels c)
      \<Longrightarrow> locked c \<longrightarrow> locked (c\<lparr>cn_channels := cs\<rparr>)"
    by (auto simp: locked_def unauthed_def)
qed (auto dest: conn_progress_locked handle_payload_locked conn_answers_locked)

lemma runs_locked:
  assumes "runs cr False tr r ev" "\<not> (\<exists>x \<in> set tr. lets_in x)"
  shows "locked (rn_conn r)"
  using assms
proof (induction rule: runs.induct)
  case (start inbuf outbuf r)
  then show ?case
    by (auto simp: runner_new_def conn_new_def algo_config_new_eq and_then_Inr_eq locked_def unauthed_def conn_is_client_def
        cli_serv_default_def serv_auth_default_def channels_new_def)
next
  case (step tr r ev op ev' r')
  with lock.app_step_within [of op ev r cr] show ?case by simp
next
  case (failed tr r ev op e r')
  with lock.app_step_within [of op ev r cr] show ?case by simp
qed

subsection \<open>What never changes\<close>

text \<open>The session identifier stays what the first key exchange made it, and the state only moves on.\<close>

definition onward :: "conn \<Rightarrow> conn \<Rightarrow> bool" where
  "onward c c' \<longleftrightarrow> conn_is_client c' = conn_is_client c \<and> state_rank (cn_state c) \<le> state_rank (cn_state c')
     \<and> (\<forall>sid. cn_sess_id c = Some sid \<longrightarrow> cn_sess_id c' = Some sid)"

lemma forward_onward: "forward c c' \<Longrightarrow> onward c c'"
  by (simp add: forward_def onward_def)

lemma onward_trans: "onward a b \<Longrightarrow> onward b c \<Longrightarrow> onward a c"
  by (auto simp: onward_def)

interpretation moves: conn_relation onward cr True for cr
proof unfold_locales
  fix pw pk :: bool and c c' :: conn and y
  assume "conn_set_auth_methods pw pk c = (y, c')"
  then show "onward c c'"
    by (cases "cn_cliserv c") (auto simp: conn_set_auth_methods_def conn_server_def trap_option_def onward_def conn_is_client_def)
qed (auto intro: onward_trans forward_onward conn_progress_forward handle_payload_forward dest: conn_resume_forward
  simp: onward_def [of _ "_\<lparr>cn_channels := _\<rparr>"] onward_def [of _ "_\<lparr>cn_remote_version := _\<rparr>"] onward_def [of c c for c]
    onward_def [of _ "_\<lparr>cn_parse_ctx := _\<rparr>"] conn_is_client_def)

end
