(* ===== verification/SSH_Transfer.thy ===== *)
theory SSH_Transfer
  imports SSH_Session
begin

section \<open>Data through the runner\<close>

text \<open>
  What the runner does with the data of channels, from end to end of this library: the data of a packet is
  what \<open>read_channel\<close> gives, piece by piece (\<open>progress_delivers\<close>); \<open>write_channel\<close> is never refused
  for want of room (\<open>write_channel_not_busy\<close>), and what it took is in the output. Also here: which events
  \<open>progress\<close> can return, and what of a connection never changes.
\<close>

subsection \<open>Received data\<close>

text \<open>The channel and stream that a packet has data for, at this end.\<close>

fun data_of :: "bool \<Rightarrow> packet \<Rightarrow> (chan_num \<times> chan_data \<times> bytes) option" where
  "data_of is_client (ChannelData num d) = Some (num, Normal, d)"
| "data_of is_client (ChannelDataExt num code d) =
     (if is_client \<and> code = SSH_EXTENDED_DATA_STDERR then Some (num, Stderr, d) else None)"
| "data_of is_client _ = None"

lemma dispatch_data_event:
  assumes p: "data_of (chs_is_client (cn_channels c)) p = Some (num, dt, d)" "d \<noteq> []" "check_packet p c = Inr ()"
    and ch: "get_chan num (cn_channels c) = Inr ch" "\<not> app_done ch"
  shows "dispatch_packet cr p c ts =
    (Inr \<lparr>disp_event = DispData \<lparr>di_num = num, di_dt = dt, di_len = length d\<rparr>, disp_disconnect = False\<rparr>, c, ts)"
  using assms
  by (cases p) (auto simp: dispatch_packet_def on_channels_def channels_dispatch_def dispatch_data_def
    dispatch_data_ext_def is_disconnect_def split: if_splits)

lemma data_of_payload:
  assumes "packet_from_bytes pl ctx = Inr p" "data_of b p = Some (num, dt, d)"
  shows "length pl = packet_offset dt + length d" "drop (packet_offset dt) pl = d"
  using assms
  by (cases p; auto simp: channel_data_payload channel_data_ext_payload DATA_OFFSET_def DATA_EXT_OFFSET_def split: if_splits)+

lemma runner_finish_traf_in: "rn_traf_in (snd (runner_finish cr d r)) = rn_traf_in r"
  by (auto simp: runner_finish_def runner_conn_progress_def runner_report_def with_conn_def st_bind_def Let_def
      split: prod.splits sum.splits dispatch_event.splits)

lemma payload_slice:
  assumes "payload ti = Inr (Some (pl, sq))"
  shows "rx ti = RxInPayload (length pl) sq" "pl = take (length pl) (drop 5 (in_buf ti))" "5 + length pl \<le> length (in_buf ti)"
  using assms
  by (auto simp: payload_def and_then_Inr_eq panic_option_def slice_def framing_consts split: rx_state.splits if_splits)

lemma incoming_delivers:
  assumes pl: "payload (rn_traf_in r) = Inr (Some (pl, sq))" and p: "conn_packet pl (rn_conn r) = Inr p"
    and d: "data_of (chs_is_client (cn_channels (rn_conn r))) p = Some (num, dt, d)" "d \<noteq> []"
    and ok: "check_packet p (rn_conn r) = Inr ()"
    and ch: "get_chan num (cn_channels (rn_conn r)) = Inr ch" "\<not> app_done ch"
  shows "reading num dt (rn_traf_in (snd (runner_incoming cr r))) \<and> unread (rn_traf_in (snd (runner_incoming cr r))) = d"
proof -
  let ?ti = "rn_traf_in r" and ?off = "packet_offset dt"
  have l: "length pl = ?off + length d" "drop ?off pl = d"
    using data_of_payload p d(1) by (auto simp: conn_packet_def)
  note s = payload_slice [OF pl]
  define ti where "ti = ?ti\<lparr>rx := RxInChannelData num dt (5 + ?off) (5 + ?off + length d)\<rparr>"
  have "snd (runner_incoming cr r) =
      snd (runner_finish cr \<lparr>disp_event = DispNone, disp_disconnect = False\<rparr> (channel_wake_read num dt (r\<lparr>rn_traf_in := ti\<rparr>)))"
    using pl p dispatch_data_event [OF d ok ch] s(1)
    by (simp add: runner_incoming_def st_bind_def with_conn_def handle_payload_def runner_handled_def set_read_channel_data_def
        framing_consts ti_def Let_def)
  then have "rn_traf_in (snd (runner_incoming cr r)) = ti"
    by (simp add: runner_finish_traf_in channel_wake_read_def)
  moreover have "unread ti = d"
  proof -
    have "unread ti = take (length d) (drop (5 + ?off) (in_buf ?ti))" by (simp add: unread_def ti_def)
    also have "\<dots> = drop ?off (take (length pl) (drop 5 (in_buf ?ti)))" using l(1) by (simp add: drop_take add.commute)
    also have "\<dots> = d" using s(2) l(2) by simp
    finally show ?thesis .
  qed
  moreover have "reading num dt ti" using d(2) l(1) s(3) by (simp add: reading_def ti_def)
  ultimately show ?thesis by simp
qed

lemma progress_incoming:
  assumes inv: "runner_inv cr r" and cr: "crypto_ok cr" and ev: "rn_resume_event r = DispNone" "rn_extra_resume_event r = DispNone"
    and p: "runner_progress cr r = (Inr x, r')"
  obtains r1 where "runner_incoming cr r1 = (Inr x, r')" "rn_conn r1 = rn_conn r" "rn_traf_in r1 = rn_traf_in r"
    "rn_closed_input r1 = rn_closed_input r"
proof -
  let ?r1 = "r\<lparr>rn_resume_event := DispNone, rn_extra_resume_event := DispNone\<rparr>"
  define m where "m = (if \<not> conn_is_kex_sending (rn_conn r) then with_sender (ts_send_deferred_packets cr) ?r1 else (Inr (), ?r1))"
  have e: "runner_progress cr r = (case m of (Inl NoRoom, r) \<Rightarrow> (Inr EvNone, r) | (Inl e, r) \<Rightarrow> (Inl e, r)
      | (Inr _, r) \<Rightarrow> runner_incoming cr r)"
    using ev by (simp add: runner_progress_def m_def Let_def)
  have n: "fst m \<noteq> Inl NoRoom"
    using ts_send_deferred_calm(3) [OF _ cr, of "rn_send r"] inv
    by (auto simp: m_def with_sender_def runner_inv_def conn_inv_ts split: prod.splits)
  have k: "rn_conn (snd m) = rn_conn r \<and> rn_traf_in (snd m) = rn_traf_in r \<and> rn_closed_input (snd m) = rn_closed_input r"
    by (simp add: m_def with_sender_def split: prod.splits)
  obtain y r1 where m: "m = (y, r1)" by fastforce
  show thesis
  proof (cases y)
    case (Inl er)
    with e m n p show thesis by (cases er) auto
  next
    case (Inr u)
    with e m p k that show thesis by simp
  qed
qed

text \<open>
  When \<open>progress\<close> takes a packet with data for an open channel, reading that channel in pieces of any size
  gives the data of the packet, in order and once.
\<close>

lemma progress_delivers:
  assumes inv: "runner_inv cr r" and cr: "crypto_ok cr" and ev: "rn_resume_event r = DispNone" "rn_extra_resume_event r = DispNone"
    and pr: "runner_progress cr r = (Inr x, r')"
    and pl: "payload (rn_traf_in r) = Inr (Some (pl, sq))" and p: "conn_packet pl (rn_conn r) = Inr p"
    and d: "data_of (runner_is_client r) p = Some (num, dt, d)" "d \<noteq> []"
    and ok: "check_packet p (rn_conn r) = Inr ()"
    and ch: "get_chan num (cn_channels (rn_conn r)) = Inr ch" "\<not> app_done ch"
  shows "\<exists>ti. pieces (read_piece num dt) ns (rn_traf_in r') = Inr (take (sum_list ns) d, ti)"
proof -
  have c: "chs_is_client (cn_channels (rn_conn r)) = runner_is_client r"
    using inv by (simp add: runner_inv_def conn_inv_def conn_core_def runner_is_client_def)
  obtain r1 where r1: "runner_incoming cr r1 = (Inr x, r')" "rn_conn r1 = rn_conn r" "rn_traf_in r1 = rn_traf_in r"
    by (rule progress_incoming [OF inv cr ev pr])
  have "reading num dt (rn_traf_in r') \<and> unread (rn_traf_in r') = d"
    using incoming_delivers [of r1 pl sq p num dt d ch cr] r1 pl p d ok ch c by simp
  then show ?thesis using app_read.pieces_prefix [of num dt "rn_traf_in r'" ns] by auto
qed

subsection \<open>Writing\<close>

lemma data_packet_encodes:
  "failure (enc_packet (case dt of Normal \<Rightarrow> ChannelData n d | Stderr \<Rightarrow> ChannelDataExt n code d)) = None"
  "length (emitted (enc_packet (case dt of Normal \<Rightarrow> ChannelData n d | Stderr \<Rightarrow> ChannelDataExt n code d)))
     = packet_offset dt + length d"
  by (cases dt; simp add: enc_packet_def enc_simps be32_def DATA_OFFSET_def DATA_EXT_OFFSET_def)+

lemma encrypt_not_busy: "fst (encrypt cr n buf keys) \<noteq> Inl (BusySend m b)"
proof -
  have "trap_result x \<noteq> Inl (BusySend m b)" for x :: "(bytes \<times> bytes) ssh_result"
    by (cases x) (simp_all add: trap_result_def)
  then have "enc_key_encrypt cr k sq enc mac \<noteq> Inl (BusySend m b)" for k sq enc mac
    by (cases k) (auto simp: and_then_Inl_eq aes_apply_def Let_def)
  moreover have "fill_random cr calls l \<noteq> Inl (BusySend m b)" for calls l
    by (auto simp: fill_random_def split: option.splits)
  ultimately have "fst (keys_send_encrypt cr n buf sq calls ks) \<noteq> Inl (BusySend m b)" for sq calls ks
    by (auto simp: keys_send_encrypt_def Let_def split: sum.splits)
  then show ?thesis by (auto simp: encrypt_def Let_def split: prod.splits) (metis fst_conv)
qed

lemma send_packet_inner_not_busy: "fst (send_packet_inner cr p keys out) \<noteq> Inl (BusySend m b)"
proof -
  have "error_from_wire e \<noteq> BusySend m b" for e by (cases e) simp_all
  then have "write_ssh t q \<noteq> Inl (BusySend m b)" for t q by (simp add: write_ssh_eq split: option.splits)
  moreover have "fst (track_send_packet p keys out) \<noteq> Inl (BusySend m b)" by (auto simp: track_send_packet_def)
  moreover note encrypt_not_busy
  ultimately show ?thesis
    by (auto simp: send_packet_inner_def Let_def split: prod.splits sum.splits option.splits) (metis fst_conv)+
qed

lemma send_packet_not_busy:
  assumes cr: "crypto_ok cr" and ok: "tx_inv out" "keys_send_ok (ks_enc keys)"
    and q: "deferred_packets out = []" "\<not> sending_kex out"
    and p: "failure (enc_packet p) = None" "length (emitted (enc_packet p)) \<le> traf_out_send_allowed keys out"
    and s: "send_packet cr p keys out = (x, keys', out')"
  shows "x \<noteq> Inl (BusySend m b)"
proof -
  obtain y k' o' where i: "send_packet_inner cr p keys out = (y, k', o')" by (metis prod_cases3)
  have "y \<noteq> Inl NoRoom" using send_allowed_room [OF cr ok(2,1) p] i by simp
  then have "x = y" using s i q by (auto simp: send_packet_def Let_def split: sum.splits ssh_error.splits)
  with send_packet_inner_not_busy [of cr p keys out m b] i show ?thesis by simp
qed

lemma write_channel_not_busy:
  assumes inv: "runner_inv cr r" and cr: "crypto_ok cr"
  shows "fst (write_channel cr num dt buf r) \<noteq> Inl (BusySend m b)"
proof (cases "\<exists>l > 0. write_channel_ready num dt r = Inr (Some l) \<and> \<not> traf_out_closed (rn_out r) \<and> buf \<noteq> []
    \<and> \<not> is_channel_send_eof num r")
  case False
  have "write_channel_ready num dt r \<noteq> Inl (BusySend m b)"
    by (cases dt) (auto simp: write_channel_ready_def and_then_Inl_eq Let_def)
  with False show ?thesis by (auto simp: write_channel_def split: sum.splits option.splits)
next
  case True
  then obtain l where l: "0 < l" "write_channel_ready num dt r = Inr (Some l)" "\<not> traf_out_closed (rn_out r)" "buf \<noteq> []"
    "\<not> is_channel_send_eof num r" by blast
  let ?cs = "cn_channels (rn_conn r)" and ?len = "min l (length buf)"
  have rd: "\<not> conn_is_kex_sending (rn_conn r)" "\<not> have_deferred_packets (rn_out r)"
      "l \<le> traf_out_send_allowed (ts_keys (rn_send r)) (rn_out r) - packet_offset dt"
    using l by (auto simp: write_channel_ready_def and_then_Inr_eq Let_def split: if_splits)
  have ki: "sending_kex (rn_out r) = conn_is_kex_sending (rn_conn r)" "ts_inv (rn_send r)"
    using inv by (simp_all add: runner_inv_def conn_inv_def conn_core_def kex_inv_def conn_is_kex_sending_def)
  show ?thesis
  proof (cases "get_chan num ?cs")
    case (Inl e)
    with l get_chan_Inl [OF Inl] show ?thesis
      by (simp add: write_channel_def Let_def st_bind_def with_channels_def with_conn_def on_channels_def send_data_def)
  next
    case (Inr ch)
    show ?thesis
    proof (cases "\<exists>p cs. send_data num dt (take ?len buf) ?cs = (Inr p, cs)")
      case False
      then have "fst (send_data num dt (take ?len buf) ?cs) = Inl Bug"
        using Inr by (auto simp: send_data_def split: option.splits if_splits)
      with l show ?thesis
        by (cases "send_data num dt (take ?len buf) ?cs")
           (simp add: write_channel_def Let_def st_bind_def with_channels_def with_conn_def on_channels_def)
    next
      case True
      then obtain p cs where p: "send_data num dt (take ?len buf) ?cs = (Inr p, cs)" by blast
      then obtain n where "p = (case dt of Normal \<Rightarrow> ChannelData n (take ?len buf)
          | Stderr \<Rightarrow> ChannelDataExt n SSH_EXTENDED_DATA_STDERR (take ?len buf))"
        using Inr by (auto simp: send_data_def split: option.splits if_splits)
      with data_packet_encodes rd(3) l(1) have e: "failure (enc_packet p) = None"
        "length (emitted (enc_packet p)) \<le> traf_out_send_allowed (ts_keys (rn_send r)) (rn_out r)" by auto
      obtain x k o' where s: "send_packet cr p (ts_keys (rn_send r)) (rn_out r) = (x, k, o')" by (metis prod_cases3)
      have "x \<noteq> Inl (BusySend m b)"
        using rd ki e by (intro send_packet_not_busy [OF cr _ _ _ _ _ _ s]) (simp_all add: ts_inv_def have_deferred_packets_def)
      with l p s show ?thesis
        by (cases x) (simp_all add: write_channel_def Let_def st_bind_def with_channels_def with_conn_def on_channels_def
            runner_send_packet_def with_sender_def ts_send_def)
    qed
  qed
qed

subsection \<open>Events\<close>

text \<open>A server reports a signed request only for a signature by the key over this session, user and service.\<close>

definition valid_pubkey_request :: "crypto \<Rightarrow> conn \<Rightarrow> bytes \<Rightarrow> bool" where
  "valid_pubkey_request cr c pl \<longleftrightarrow>
     (\<exists>sid u s m k sig. cn_sess_id c = Some sid \<and> conn_packet pl c = Inr (UserauthRequest u s (MethodPubKey m))
       \<and> mpk_pubkey m = PubKeyEd25519 k \<and> mpk_sig m = Some (SigEd25519 sig)
       \<and> ed25519_verify cr k (emitted (enc_auth_sig_msg (auth_sig_msg_new
           (unsigned_request \<lparr>ur_username = u, ur_service = s, ur_method = MethodPubKey m\<rparr> m) sid))) sig)"

lemma finish_serv_event:
  assumes "runner_finish cr d r = (Inr (EvServ ev), r')"
  shows "\<exists>x. disp_event d = DispServEvent x \<and> ev = serv_event_id_event x"
proof (cases "disp_event d = DispNone")
  case False
  with assms show ?thesis
    by (cases "disp_event d") (auto simp: runner_finish_def runner_conn_progress_def st_bind_def runner_report_def Let_def
        and_then_Inr_eq split: if_splits)
next
  case True
  obtain x r1 where w: "with_conn (conn_progress cr) r = (x, r1)" by fastforce
  show ?thesis
  proof (cases x)
    case (Inl e)
    with True assms w show ?thesis by (simp add: runner_finish_def runner_conn_progress_def st_bind_def)
  next
    case (Inr d1)
    then have "disp_event d1 \<noteq> DispServEvent y" for y
      using w conn_progress_event by (auto simp: with_conn_def split: prod.splits)
    with True Inr assms w show ?thesis
      by (cases "disp_event d1") (auto simp: runner_finish_def runner_conn_progress_def st_bind_def runner_report_def Let_def
          and_then_Inr_eq split: if_splits)
  qed
qed

lemma incoming_signed:
  assumes "runner_incoming cr r = (Inr (EvServ (EvPubkeyAuth True)), r')" "unauthed (rn_conn r)"
  shows "\<exists>pl sq. payload (rn_traf_in r) = Inr (Some (pl, sq)) \<and> valid_pubkey_request cr (rn_conn r) pl"
proof (cases "\<exists>pl sq. payload (rn_traf_in r) = Inr (Some (pl, sq))")
  case False
  then show ?thesis
    using assms(1) finish_serv_event [of cr dispatched_default r]
    by (auto simp: runner_incoming_def dispatched_default_def split: sum.splits option.splits if_splits)
next
  case True
  then obtain pl sq where pl: "payload (rn_traf_in r) = Inr (Some (pl, sq))" by blast
  obtain x c ts where h: "handle_payload cr pl sq (rn_conn r) (rn_send r) = (x, c, ts)" by (metis prod_cases3)
  then obtain d where d: "x = Inr d" using assms(1) pl
    by (cases x) (auto simp: runner_incoming_def st_bind_def with_conn_def)
  obtain y r2 where hd: "runner_handled d (r\<lparr>rn_conn := c, rn_send := ts\<rparr>) = (y, r2)" by fastforce
  have f: "\<exists>d2. y = Inr d2 \<and> runner_finish cr d2 r2 = (Inr (EvServ (EvPubkeyAuth True)), r')"
    using assms(1) pl h d hd by (cases y) (auto simp: runner_incoming_def st_bind_def with_conn_def)
  then obtain d2 z where "y = Inr d2" "disp_event d2 = DispServEvent z" "EvPubkeyAuth True = serv_event_id_event z"
    using finish_serv_event by blast
  moreover from this(3) have "z = ServPubkeyAuth True" by (cases z) auto
  ultimately have "disp_event d = DispServEvent (ServPubkeyAuth True)"
    using hd by (auto simp: runner_handled_def Let_def split: dispatch_event.splits sum.splits)
  from signed_event_verified [OF h [unfolded d] assms(2) this] pl show ?thesis
    unfolding valid_pubkey_request_def by metis
qed

lemma progress_signed:
  assumes p: "runner_progress cr r = (Inr (EvServ (EvPubkeyAuth True)), r')" and u: "unauthed (rn_conn r)"
    and inv: "runner_inv cr r"
  shows "\<exists>pl sq. payload (rn_traf_in r) = Inr (Some (pl, sq)) \<and> valid_pubkey_request cr (rn_conn r) pl"
proof -
  have ex: "rn_extra_resume_event r = DispNone" "\<not> disp_needs_resume (rn_resume_event r)"
    using p inv by (auto simp: runner_progress_def Let_def runner_inv_def and_then_Inr_eq split: if_splits)
  define q where "q = (if disp_is_event (rn_resume_event r)
    then r\<lparr>rn_resume_event := DispNone, rn_extra_resume_event := DispNone, rn_traf_in := done_payload (rn_traf_in r)\<rparr>
    else r\<lparr>rn_resume_event := DispNone, rn_extra_resume_event := DispNone\<rparr>)"
  define m where "m = (if \<not> conn_is_kex_sending (rn_conn q) then with_sender (ts_send_deferred_packets cr) q else (Inr (), q))"
  have c: "rn_conn (snd m) = rn_conn r" "rn_traf_in (snd m) = rn_traf_in q"
    by (simp_all add: m_def q_def with_sender_def split: prod.splits)
  have "runner_progress cr r = (case m of (Inl NoRoom, r) \<Rightarrow> (Inr EvNone, r) | (Inl e, r) \<Rightarrow> (Inl e, r)
      | (Inr _, r) \<Rightarrow> runner_incoming cr r)"
    using ex by (simp add: runner_progress_def m_def q_def Let_def)
  then have "runner_incoming cr (snd m) = (Inr (EvServ (EvPubkeyAuth True)), r')"
    using p by (cases m; cases "fst m") (auto split: ssh_error.splits)
  from incoming_signed [OF this] u c obtain pl sq where
    pl: "payload (rn_traf_in q) = Inr (Some (pl, sq))" "valid_pubkey_request cr (rn_conn r) pl" by auto
  then have "rn_traf_in q = rn_traf_in r"
    by (auto simp: q_def payload_def done_payload_def split: rx_state.splits if_splits)
  with pl show ?thesis by auto
qed

text \<open>
  An event that does not stand for the packet in the input buffer still completes that packet: what was read in
  after such an event is dropped by the next \<open>progress\<close>, which goes on as if nothing had been there.
\<close>

lemma event_drops_packet:
  assumes "disp_is_event (rn_resume_event r)" "\<not> disp_needs_resume (rn_resume_event r)" "rn_extra_resume_event r = DispNone"
    and "rx (rn_traf_in r) = RxIdle" "runner_input cr buf r = Inr (n, r1)" "payload (rn_traf_in r1) = Inr (Some (pl, sq))"
  shows "runner_progress cr r1 = runner_progress cr (r1\<lparr>rn_traf_in := (rn_traf_in r1)\<lparr>rx := RxIdle\<rparr>\<rparr>)"
proof -
  have e: "rn_resume_event r1 = rn_resume_event r" "rn_extra_resume_event r1 = DispNone"
    using assms(3,5) by (auto simp: runner_input_def and_then_Inr_eq split: if_splits)
  have "done_payload (rn_traf_in r1) = (rn_traf_in r1)\<lparr>rx := RxIdle\<rparr>"
    using assms(6) by (auto simp: payload_def done_payload_def split: rx_state.splits)
  with e assms(1,2) show ?thesis
    by (simp add: runner_progress_def Let_def done_payload_def [of "_\<lparr>rx := RxIdle\<rparr>"])
qed

end
