(* ===== verification/SFTP_Proto.thy ===== *)
theory SFTP_Proto
  imports SSH_Wire
begin

section \<open>SFTP packets\<close>

text \<open>
  The packets of the file transfer protocol, \<open>src/sftp/src/proto.rs\<close>: constants, flags, status codes, file
  attributes, extensions, and the packets that the macro \<open>sftpmessages!\<close> declares, with the encoders and decoders
  that the macro and the derive macros generate. A packet is modelled without its length field, as \<open>enc\<close> writes it.
  The last part shows that what one end encodes the other decodes.

  A request id is the \<open>u32\<close> inside \<open>ReqId\<close>; a \<open>Filename\<close>, an \<open>OpaqueHandle\<close>, a
  \<open>TextString\<close> and a \<open>BinString\<close> are their bytes. The structs of the requests are the arguments of
  the constructors of \<open>sftp_packet\<close>.
\<close>

subsection \<open>Constants\<close>

definition SFTP_MINIMUM_PACKET_LEN :: nat where "SFTP_MINIMUM_PACKET_LEN = 9"
definition SFTP_MAXIMUM_PACKET_LEN :: nat where "SFTP_MAXIMUM_PACKET_LEN = 34000"
definition SFTP_FIELD_LEN_INDEX :: nat where "SFTP_FIELD_LEN_INDEX = 0"
definition SFTP_FIELD_LEN_LENGTH :: nat where "SFTP_FIELD_LEN_LENGTH = 4"
definition SFTP_FIELD_ID_INDEX :: nat where "SFTP_FIELD_ID_INDEX = 4"
definition SFTP_FIELD_REQ_ID_INDEX :: nat where "SFTP_FIELD_REQ_ID_INDEX = 5"
definition SFTP_FIELD_REQ_ID_LEN :: nat where "SFTP_FIELD_REQ_ID_LEN = 4"
definition MAX_PATH_LEN :: nat where "MAX_PATH_LEN = 256"
definition MAX_EXT_NAME_LEN :: nat where "MAX_EXT_NAME_LEN = 32"
definition MAX_REQUEST_LEN :: nat where
  "MAX_REQUEST_LEN = SFTP_MINIMUM_PACKET_LEN + 4 + MAX_EXT_NAME_LEN + 2 * (4 + MAX_PATH_LEN)"
definition FXP_EXTENDED :: u8 where "FXP_EXTENDED = 200"
definition SFTP_VERSION :: u32 where "SFTP_VERSION = 3"

lemmas sftp_consts [simp] =
  SFTP_MINIMUM_PACKET_LEN_def SFTP_FIELD_LEN_INDEX_def SFTP_FIELD_LEN_LENGTH_def SFTP_FIELD_ID_INDEX_def
  SFTP_FIELD_REQ_ID_INDEX_def SFTP_FIELD_REQ_ID_LEN_def

subsection \<open>Flags and status codes\<close>

text \<open>Enums with a \<open>catch_all\<close>: \<open>from\<close> gives a named constructor for each known value.\<close>

datatype pflags =
    SSH_FXF_READ | SSH_FXF_WRITE | SSH_FXF_APPEND | SSH_FXF_CREAT | SSH_FXF_TRUNC | SSH_FXF_EXCL
  | PFlagsMultiple u32

definition pflags_from :: "u32 \<Rightarrow> pflags" where
  "pflags_from n =
     (if n = 0x01 then SSH_FXF_READ else if n = 0x02 then SSH_FXF_WRITE else if n = 0x04 then SSH_FXF_APPEND
      else if n = 0x08 then SSH_FXF_CREAT else if n = 0x10 then SSH_FXF_TRUNC else if n = 0x20 then SSH_FXF_EXCL
      else PFlagsMultiple n)"

fun pflags_u32 :: "pflags \<Rightarrow> u32" where
  "pflags_u32 SSH_FXF_READ = 0x01"
| "pflags_u32 SSH_FXF_WRITE = 0x02"
| "pflags_u32 SSH_FXF_APPEND = 0x04"
| "pflags_u32 SSH_FXF_CREAT = 0x08"
| "pflags_u32 SSH_FXF_TRUNC = 0x10"
| "pflags_u32 SSH_FXF_EXCL = 0x20"
| "pflags_u32 (PFlagsMultiple n) = n"

definition enc_pflags :: "pflags \<Rightarrow> sink_prog" where
  "enc_pflags f = enc_u32 (pflags_u32 f)"

definition dec_pflags :: "pflags decoder" where
  "dec_pflags = dec_bind dec_u32 (\<lambda>n. dec_return (pflags_from n))"

datatype status_code =
    SSH_FX_OK | SSH_FX_EOF | SSH_FX_NO_SUCH_FILE | SSH_FX_PERMISSION_DENIED | SSH_FX_FAILURE | SSH_FX_BAD_MESSAGE
  | SSH_FX_NO_CONNECTION | SSH_FX_CONNECTION_LOST | SSH_FX_OP_UNSUPPORTED | StatusOther u32

definition status_code_from :: "u32 \<Rightarrow> status_code" where
  "status_code_from n =
     (if n = 0 then SSH_FX_OK else if n = 1 then SSH_FX_EOF else if n = 2 then SSH_FX_NO_SUCH_FILE
      else if n = 3 then SSH_FX_PERMISSION_DENIED else if n = 4 then SSH_FX_FAILURE
      else if n = 5 then SSH_FX_BAD_MESSAGE else if n = 6 then SSH_FX_NO_CONNECTION
      else if n = 7 then SSH_FX_CONNECTION_LOST else if n = 8 then SSH_FX_OP_UNSUPPORTED else StatusOther n)"

fun status_code_u32 :: "status_code \<Rightarrow> u32" where
  "status_code_u32 SSH_FX_OK = 0"
| "status_code_u32 SSH_FX_EOF = 1"
| "status_code_u32 SSH_FX_NO_SUCH_FILE = 2"
| "status_code_u32 SSH_FX_PERMISSION_DENIED = 3"
| "status_code_u32 SSH_FX_FAILURE = 4"
| "status_code_u32 SSH_FX_BAD_MESSAGE = 5"
| "status_code_u32 SSH_FX_NO_CONNECTION = 6"
| "status_code_u32 SSH_FX_CONNECTION_LOST = 7"
| "status_code_u32 SSH_FX_OP_UNSUPPORTED = 8"
| "status_code_u32 (StatusOther n) = n"

definition enc_status_code :: "status_code \<Rightarrow> sink_prog" where
  "enc_status_code c = enc_u32 (status_code_u32 c)"

definition dec_status_code :: "status_code decoder" where
  "dec_status_code = dec_bind dec_u32 (\<lambda>n. dec_return (status_code_from n))"

subsection \<open>File attributes\<close>

record attrs =
  at_size :: "u64 option"
  at_uid :: "u32 option"
  at_gid :: "u32 option"
  at_permissions :: "u32 option"
  at_atime :: "u32 option"
  at_mtime :: "u32 option"
  at_ext_count :: "u32 option"

definition attrs_default :: attrs where
  "attrs_default =
     \<lparr>at_size = None, at_uid = None, at_gid = None, at_permissions = None, at_atime = None, at_mtime = None,
      at_ext_count = None\<rparr>"

definition ATTR_SIZE :: u32 where "ATTR_SIZE = 0x01"
definition ATTR_UIDGID :: u32 where "ATTR_UIDGID = 0x02"
definition ATTR_PERMISSIONS :: u32 where "ATTR_PERMISSIONS = 0x04"
definition ATTR_ACMODTIME :: u32 where "ATTR_ACMODTIME = 0x08"
definition ATTR_EXTENDED :: u32 where "ATTR_EXTENDED = 0x80000000"

lemmas attr_flag_defs = ATTR_SIZE_def ATTR_UIDGID_def ATTR_PERMISSIONS_def ATTR_ACMODTIME_def ATTR_EXTENDED_def

text \<open>\<open>+=\<close> on the flags is \<open>|=\<close>.\<close>

definition attrs_flags :: "attrs \<Rightarrow> u32" where
  "attrs_flags a =
     (let flags = 0;
          flags = (if at_size a \<noteq> None then flags OR ATTR_SIZE else flags);
          flags = (if at_uid a \<noteq> None \<or> at_gid a \<noteq> None then flags OR ATTR_UIDGID else flags);
          flags = (if at_permissions a \<noteq> None then flags OR ATTR_PERMISSIONS else flags)
      in (if at_atime a \<noteq> None \<or> at_mtime a \<noteq> None then flags OR ATTR_ACMODTIME else flags))"

definition enc_attrs :: "attrs \<Rightarrow> sink_prog" where
  "enc_attrs a =
     enc_all [enc_u32 (attrs_flags a), enc_option enc_u64 (at_size a), enc_option enc_u32 (at_uid a),
       enc_option enc_u32 (at_gid a), enc_option enc_u32 (at_permissions a), enc_option enc_u32 (at_atime a),
       enc_option enc_u32 (at_mtime a)]"

text \<open>\<open>if flags & f != 0 { x = Some(dec(s)?) }\<close>, and the loop that discards extended attributes.\<close>

definition dec_when :: "bool \<Rightarrow> 'a decoder \<Rightarrow> 'a option decoder" where
  "dec_when b d = (if b then dec_bind d (\<lambda>a. dec_return (Some a)) else dec_return None)"

primrec dec_ext_attrs :: "nat \<Rightarrow> unit decoder" where
  "dec_ext_attrs 0 = dec_return ()"
| "dec_ext_attrs (Suc n) = dec_bind dec_binstring (\<lambda>_. dec_bind dec_binstring (\<lambda>_. dec_ext_attrs n))"

definition dec_attrs :: "attrs decoder" where
  "dec_attrs =
     dec_bind dec_u32 (\<lambda>flags.
     dec_bind (dec_when (flags AND ATTR_SIZE \<noteq> 0) dec_u64) (\<lambda>size.
     dec_bind (dec_when (flags AND ATTR_UIDGID \<noteq> 0) dec_u32) (\<lambda>uid.
     dec_bind (dec_when (flags AND ATTR_UIDGID \<noteq> 0) dec_u32) (\<lambda>gid.
     dec_bind (dec_when (flags AND ATTR_PERMISSIONS \<noteq> 0) dec_u32) (\<lambda>permissions.
     dec_bind (dec_when (flags AND ATTR_ACMODTIME \<noteq> 0) dec_u32) (\<lambda>atime.
     dec_bind (dec_when (flags AND ATTR_ACMODTIME \<noteq> 0) dec_u32) (\<lambda>mtime.
     dec_bind (dec_when (flags AND ATTR_EXTENDED \<noteq> 0)
       (dec_bind dec_u32 (\<lambda>count. dec_bind (dec_ext_attrs (unat count)) (\<lambda>_. dec_return count)))) (\<lambda>ext_count.
     dec_return \<lparr>at_size = size, at_uid = uid, at_gid = gid, at_permissions = permissions, at_atime = atime,
       at_mtime = mtime, at_ext_count = ext_count\<rparr>))))))))"

subsection \<open>Extensions\<close>

record extensions =
  ex_posix_rename :: bool
  ex_hardlink :: bool
  ex_fsync :: bool
  ex_statvfs :: bool
  ex_limits :: bool

definition extensions_default :: extensions where
  "extensions_default =
     \<lparr>ex_posix_rename = False, ex_hardlink = False, ex_fsync = False, ex_statvfs = False, ex_limits = False\<rparr>"

definition EXT_NAMES :: "string list" where
  "EXT_NAMES = [''posix-rename@openssh.com'', ''hardlink@openssh.com'', ''fsync@openssh.com'',
     ''statvfs@openssh.com'', ''limits@openssh.com'']"

definition ext_enabled :: "extensions \<Rightarrow> bool list" where
  "ext_enabled e = [ex_posix_rename e, ex_hardlink e, ex_fsync e, ex_statvfs e, ex_limits e]"

text \<open>\<open>flags.into_iter().zip(EXT_NAMES)\<close>: each flag as its update.\<close>

definition ext_flags :: "(extensions \<Rightarrow> extensions) list" where
  "ext_flags = [ex_posix_rename_update (\<lambda>_. True), ex_hardlink_update (\<lambda>_. True), ex_fsync_update (\<lambda>_. True),
     ex_statvfs_update (\<lambda>_. True), ex_limits_update (\<lambda>_. True)]"

definition ext_set_by_name :: "bytes \<Rightarrow> extensions \<Rightarrow> extensions" where
  "ext_set_by_name name e =
     (case List.find (\<lambda>(f, n). name = str_bytes n) (zip ext_flags EXT_NAMES) of
        Some (f, _) \<Rightarrow> f e
      | None \<Rightarrow> e)"

definition ext_encoded_len :: "extensions \<Rightarrow> nat" where
  "ext_encoded_len e = sum_list (map (\<lambda>(on, n). 4 + length n + 4 + 1) (filter fst (zip (ext_enabled e) EXT_NAMES)))"

definition ext_enc_pairs :: "extensions \<Rightarrow> sink_prog" where
  "ext_enc_pairs e =
     enc_all (map (\<lambda>(on, n). enc_all [enc_textstring (str_bytes n), enc_textstring (str_bytes ''1'')])
       (filter fst (zip (ext_enabled e) EXT_NAMES)))"

subsection \<open>Packet numbers\<close>

datatype sftp_num =
    SSH_FXP_INIT | SSH_FXP_VERSION
  | SSH_FXP_OPEN | SSH_FXP_CLOSE | SSH_FXP_READ | SSH_FXP_WRITE | SSH_FXP_LSTAT | SSH_FXP_FSTAT | SSH_FXP_SETSTAT
  | SSH_FXP_FSETSTAT | SSH_FXP_OPENDIR | SSH_FXP_READDIR | SSH_FXP_REMOVE | SSH_FXP_MKDIR | SSH_FXP_RMDIR
  | SSH_FXP_REALPATH | SSH_FXP_STAT | SSH_FXP_RENAME | SSH_FXP_READLINK | SSH_FXP_SYMLINK | SSH_FXP_EXTENDED
  | SSH_FXP_STATUS | SSH_FXP_HANDLE | SSH_FXP_DATA | SSH_FXP_NAME | SSH_FXP_ATTRS
  | SftpNumOther u8

fun sftp_num_u8 :: "sftp_num \<Rightarrow> u8" where
  "sftp_num_u8 SSH_FXP_INIT = 1"
| "sftp_num_u8 SSH_FXP_VERSION = 2"
| "sftp_num_u8 SSH_FXP_OPEN = 3"
| "sftp_num_u8 SSH_FXP_CLOSE = 4"
| "sftp_num_u8 SSH_FXP_READ = 5"
| "sftp_num_u8 SSH_FXP_WRITE = 6"
| "sftp_num_u8 SSH_FXP_LSTAT = 7"
| "sftp_num_u8 SSH_FXP_FSTAT = 8"
| "sftp_num_u8 SSH_FXP_SETSTAT = 9"
| "sftp_num_u8 SSH_FXP_FSETSTAT = 10"
| "sftp_num_u8 SSH_FXP_OPENDIR = 11"
| "sftp_num_u8 SSH_FXP_READDIR = 12"
| "sftp_num_u8 SSH_FXP_REMOVE = 13"
| "sftp_num_u8 SSH_FXP_MKDIR = 14"
| "sftp_num_u8 SSH_FXP_RMDIR = 15"
| "sftp_num_u8 SSH_FXP_REALPATH = 16"
| "sftp_num_u8 SSH_FXP_STAT = 17"
| "sftp_num_u8 SSH_FXP_RENAME = 18"
| "sftp_num_u8 SSH_FXP_READLINK = 19"
| "sftp_num_u8 SSH_FXP_SYMLINK = 20"
| "sftp_num_u8 SSH_FXP_EXTENDED = 200"
| "sftp_num_u8 SSH_FXP_STATUS = 101"
| "sftp_num_u8 SSH_FXP_HANDLE = 102"
| "sftp_num_u8 SSH_FXP_DATA = 103"
| "sftp_num_u8 SSH_FXP_NAME = 104"
| "sftp_num_u8 SSH_FXP_ATTRS = 105"
| "sftp_num_u8 (SftpNumOther n) = n"

definition sftp_nums :: "sftp_num list" where
  "sftp_nums =
     [SSH_FXP_INIT, SSH_FXP_VERSION, SSH_FXP_OPEN, SSH_FXP_CLOSE, SSH_FXP_READ, SSH_FXP_WRITE, SSH_FXP_LSTAT,
      SSH_FXP_FSTAT, SSH_FXP_SETSTAT, SSH_FXP_FSETSTAT, SSH_FXP_OPENDIR, SSH_FXP_READDIR, SSH_FXP_REMOVE,
      SSH_FXP_MKDIR, SSH_FXP_RMDIR, SSH_FXP_REALPATH, SSH_FXP_STAT, SSH_FXP_RENAME, SSH_FXP_READLINK,
      SSH_FXP_SYMLINK, SSH_FXP_EXTENDED, SSH_FXP_STATUS, SSH_FXP_HANDLE, SSH_FXP_DATA, SSH_FXP_NAME, SSH_FXP_ATTRS]"

text \<open>\<open>FromPrimitive\<close> with \<open>catch_all\<close>.\<close>

definition sftp_num_from :: "u8 \<Rightarrow> sftp_num" where
  "sftp_num_from n =
     (case List.find (\<lambda>k. sftp_num_u8 k = n) sftp_nums of Some k \<Rightarrow> k | None \<Rightarrow> SftpNumOther n)"

definition sftp_is_request :: "sftp_num \<Rightarrow> bool" where
  "sftp_is_request k = (let n = sftp_num_u8 k in (3 \<le> n \<and> n \<le> 20) \<or> n = FXP_EXTENDED)"

definition sftp_is_response :: "sftp_num \<Rightarrow> bool" where
  "sftp_is_response k = (let n = sftp_num_u8 k in (100 \<le> n \<and> n \<le> 105) \<or> n = 2)"

subsection \<open>Packets\<close>

datatype sftp_packet =
    SftpInit u32
  | SftpVersion u32
  | SftpOpen u32 bytes pflags attrs
  | SftpClose u32 bytes
  | SftpRead u32 bytes u64 u32
  | SftpWrite u32 bytes u64 u32
  | SftpLStat u32 bytes
  | SftpFStat u32 bytes
  | SftpSetStat u32 bytes attrs
  | SftpFSetStat u32 bytes attrs
  | SftpOpenDir u32 bytes
  | SftpReadDir u32 bytes
  | SftpRemove u32 bytes
  | SftpMkDir u32 bytes attrs
  | SftpRmDir u32 bytes
  | SftpPathInfo u32 bytes
  | SftpStat u32 bytes
  | SftpRename u32 bytes bytes
  | SftpReadLink u32 bytes
  | SftpSymlink u32 bytes bytes
  | SftpExtended u32 bytes bytes
  | SftpStatus u32 status_code bytes bytes
  | SftpHandle u32 bytes
  | SftpData u32 bytes
  | SftpName u32 u32
  | SftpAttrs u32 attrs

fun sftp_packet_num :: "sftp_packet \<Rightarrow> sftp_num" where
  "sftp_packet_num (SftpInit _) = SSH_FXP_INIT"
| "sftp_packet_num (SftpVersion _) = SSH_FXP_VERSION"
| "sftp_packet_num (SftpOpen _ _ _ _) = SSH_FXP_OPEN"
| "sftp_packet_num (SftpClose _ _) = SSH_FXP_CLOSE"
| "sftp_packet_num (SftpRead _ _ _ _) = SSH_FXP_READ"
| "sftp_packet_num (SftpWrite _ _ _ _) = SSH_FXP_WRITE"
| "sftp_packet_num (SftpLStat _ _) = SSH_FXP_LSTAT"
| "sftp_packet_num (SftpFStat _ _) = SSH_FXP_FSTAT"
| "sftp_packet_num (SftpSetStat _ _ _) = SSH_FXP_SETSTAT"
| "sftp_packet_num (SftpFSetStat _ _ _) = SSH_FXP_FSETSTAT"
| "sftp_packet_num (SftpOpenDir _ _) = SSH_FXP_OPENDIR"
| "sftp_packet_num (SftpReadDir _ _) = SSH_FXP_READDIR"
| "sftp_packet_num (SftpRemove _ _) = SSH_FXP_REMOVE"
| "sftp_packet_num (SftpMkDir _ _ _) = SSH_FXP_MKDIR"
| "sftp_packet_num (SftpRmDir _ _) = SSH_FXP_RMDIR"
| "sftp_packet_num (SftpPathInfo _ _) = SSH_FXP_REALPATH"
| "sftp_packet_num (SftpStat _ _) = SSH_FXP_STAT"
| "sftp_packet_num (SftpRename _ _ _) = SSH_FXP_RENAME"
| "sftp_packet_num (SftpReadLink _ _) = SSH_FXP_READLINK"
| "sftp_packet_num (SftpSymlink _ _ _) = SSH_FXP_SYMLINK"
| "sftp_packet_num (SftpExtended _ _ _) = SSH_FXP_EXTENDED"
| "sftp_packet_num (SftpStatus _ _ _ _) = SSH_FXP_STATUS"
| "sftp_packet_num (SftpHandle _ _) = SSH_FXP_HANDLE"
| "sftp_packet_num (SftpData _ _) = SSH_FXP_DATA"
| "sftp_packet_num (SftpName _ _) = SSH_FXP_NAME"
| "sftp_packet_num (SftpAttrs _ _) = SSH_FXP_ATTRS"

text \<open>What follows the packet number: the request id and the fields of the struct, in order.\<close>

fun enc_sftp_body :: "sftp_packet \<Rightarrow> sink_prog list" where
  "enc_sftp_body (SftpInit version) = [enc_u32 version]"
| "enc_sftp_body (SftpVersion version) = [enc_u32 version]"
| "enc_sftp_body (SftpOpen i filename flags a) = [enc_u32 i, enc_textstring filename, enc_pflags flags, enc_attrs a]"
| "enc_sftp_body (SftpClose i handle) = [enc_u32 i, enc_binstring handle]"
| "enc_sftp_body (SftpRead i handle offset len) = [enc_u32 i, enc_binstring handle, enc_u64 offset, enc_u32 len]"
| "enc_sftp_body (SftpWrite i handle offset data_len) =
     [enc_u32 i, enc_binstring handle, enc_u64 offset, enc_u32 data_len]"
| "enc_sftp_body (SftpLStat i path) = [enc_u32 i, enc_textstring path]"
| "enc_sftp_body (SftpFStat i handle) = [enc_u32 i, enc_binstring handle]"
| "enc_sftp_body (SftpSetStat i path a) = [enc_u32 i, enc_textstring path, enc_attrs a]"
| "enc_sftp_body (SftpFSetStat i handle a) = [enc_u32 i, enc_binstring handle, enc_attrs a]"
| "enc_sftp_body (SftpOpenDir i dirname) = [enc_u32 i, enc_textstring dirname]"
| "enc_sftp_body (SftpReadDir i handle) = [enc_u32 i, enc_binstring handle]"
| "enc_sftp_body (SftpRemove i path) = [enc_u32 i, enc_textstring path]"
| "enc_sftp_body (SftpMkDir i path a) = [enc_u32 i, enc_textstring path, enc_attrs a]"
| "enc_sftp_body (SftpRmDir i path) = [enc_u32 i, enc_textstring path]"
| "enc_sftp_body (SftpPathInfo i path) = [enc_u32 i, enc_textstring path]"
| "enc_sftp_body (SftpStat i path) = [enc_u32 i, enc_textstring path]"
| "enc_sftp_body (SftpRename i old_path new_path) = [enc_u32 i, enc_textstring old_path, enc_textstring new_path]"
| "enc_sftp_body (SftpReadLink i path) = [enc_u32 i, enc_textstring path]"
| "enc_sftp_body (SftpSymlink i target_path link_path) =
     [enc_u32 i, enc_textstring target_path, enc_textstring link_path]"
| "enc_sftp_body (SftpExtended i name dat) = [enc_u32 i, enc_textstring name, Push dat Done]"
| "enc_sftp_body (SftpStatus i code message lang) =
     [enc_u32 i, enc_status_code code, enc_textstring message, enc_textstring lang]"
| "enc_sftp_body (SftpHandle i handle) = [enc_u32 i, enc_binstring handle]"
| "enc_sftp_body (SftpData i dat) = [enc_u32 i, enc_binstring dat]"
| "enc_sftp_body (SftpName i count) = [enc_u32 i, enc_u32 count]"
| "enc_sftp_body (SftpAttrs i a) = [enc_u32 i, enc_attrs a]"

definition enc_sftp_packet :: "sftp_packet \<Rightarrow> sink_prog" where
  "enc_sftp_packet p = enc_all (enc_u8 (sftp_num_u8 (sftp_packet_num p)) # enc_sftp_body p)"

text \<open>Structs of one, two and three fields after the request id.\<close>

definition dec_req1 :: "(u32 \<Rightarrow> 'a \<Rightarrow> sftp_packet) \<Rightarrow> 'a decoder \<Rightarrow> sftp_packet decoder" where
  "dec_req1 mk d = dec_bind dec_u32 (\<lambda>i. dec_bind d (\<lambda>a. dec_return (mk i a)))"

definition dec_req2 :: "(u32 \<Rightarrow> 'a \<Rightarrow> 'b \<Rightarrow> sftp_packet) \<Rightarrow> 'a decoder \<Rightarrow> 'b decoder \<Rightarrow> sftp_packet decoder" where
  "dec_req2 mk d e = dec_bind dec_u32 (\<lambda>i. dec_bind d (\<lambda>a. dec_bind e (\<lambda>b. dec_return (mk i a b))))"

definition dec_req3 ::
  "(u32 \<Rightarrow> 'a \<Rightarrow> 'b \<Rightarrow> 'c \<Rightarrow> sftp_packet) \<Rightarrow> 'a decoder \<Rightarrow> 'b decoder \<Rightarrow> 'c decoder \<Rightarrow> sftp_packet decoder" where
  "dec_req3 mk d e f =
     dec_bind dec_u32 (\<lambda>i. dec_bind d (\<lambda>a. dec_bind e (\<lambda>b. dec_bind f (\<lambda>c. dec_return (mk i a b c)))))"

text \<open>The data of an extended request: all that remains.\<close>

definition dec_ext_data :: "bytes decoder" where
  "dec_ext_data = dec_bind remaining (\<lambda>len. source_take len)"

definition dec_sftp_body :: "u8 \<Rightarrow> sftp_packet decoder" where
  "dec_sftp_body number =
     (case sftp_num_from number of
        SSH_FXP_INIT \<Rightarrow> dec_bind dec_u32 (\<lambda>v. dec_return (SftpInit v))
      | SSH_FXP_VERSION \<Rightarrow> dec_bind dec_u32 (\<lambda>v. dec_return (SftpVersion v))
      | SSH_FXP_OPEN \<Rightarrow> dec_req3 SftpOpen dec_textstring dec_pflags dec_attrs
      | SSH_FXP_CLOSE \<Rightarrow> dec_req1 SftpClose dec_binstring
      | SSH_FXP_READ \<Rightarrow> dec_req3 SftpRead dec_binstring dec_u64 dec_u32
      | SSH_FXP_WRITE \<Rightarrow> dec_req3 SftpWrite dec_binstring dec_u64 dec_u32
      | SSH_FXP_LSTAT \<Rightarrow> dec_req1 SftpLStat dec_textstring
      | SSH_FXP_FSTAT \<Rightarrow> dec_req1 SftpFStat dec_binstring
      | SSH_FXP_SETSTAT \<Rightarrow> dec_req2 SftpSetStat dec_textstring dec_attrs
      | SSH_FXP_FSETSTAT \<Rightarrow> dec_req2 SftpFSetStat dec_binstring dec_attrs
      | SSH_FXP_OPENDIR \<Rightarrow> dec_req1 SftpOpenDir dec_textstring
      | SSH_FXP_READDIR \<Rightarrow> dec_req1 SftpReadDir dec_binstring
      | SSH_FXP_REMOVE \<Rightarrow> dec_req1 SftpRemove dec_textstring
      | SSH_FXP_MKDIR \<Rightarrow> dec_req2 SftpMkDir dec_textstring dec_attrs
      | SSH_FXP_RMDIR \<Rightarrow> dec_req1 SftpRmDir dec_textstring
      | SSH_FXP_REALPATH \<Rightarrow> dec_req1 SftpPathInfo dec_textstring
      | SSH_FXP_STAT \<Rightarrow> dec_req1 SftpStat dec_textstring
      | SSH_FXP_RENAME \<Rightarrow> dec_req2 SftpRename dec_textstring dec_textstring
      | SSH_FXP_READLINK \<Rightarrow> dec_req1 SftpReadLink dec_textstring
      | SSH_FXP_SYMLINK \<Rightarrow> dec_req2 SftpSymlink dec_textstring dec_textstring
      | SSH_FXP_EXTENDED \<Rightarrow> dec_req2 SftpExtended dec_textstring dec_ext_data
      | SSH_FXP_STATUS \<Rightarrow> dec_req3 SftpStatus dec_status_code dec_textstring dec_textstring
      | SSH_FXP_HANDLE \<Rightarrow> dec_req1 SftpHandle dec_binstring
      | SSH_FXP_DATA \<Rightarrow> dec_req1 SftpData dec_binstring
      | SSH_FXP_NAME \<Rightarrow> dec_req1 SftpName dec_u32
      | SSH_FXP_ATTRS \<Rightarrow> dec_req1 SftpAttrs dec_attrs
      | SftpNumOther _ \<Rightarrow> dec_fail (WireUnknownPacket number))"

definition dec_sftp_packet :: "sftp_packet decoder" where
  "dec_sftp_packet = dec_bind dec_u8 dec_sftp_body"

text \<open>\<open>Write::peek_len\<close>, with \<open>saturating_add\<close> on \<open>u32\<close>.\<close>

definition write_PEEK_NEEDED :: nat where "write_PEEK_NEEDED = 4"

definition write_peek_len :: "bytes \<Rightarrow> nat option" where
  "write_peek_len buf =
     (if length buf < 4 then None
      else case read_ssh dec_u32 (take 4 buf) None of
             Inl _ \<Rightarrow> None
           | Inr (handle_len, _) \<Rightarrow> Some (unat (u32_sat_add handle_len (4 + 8 + 4))))"

text \<open>One entry of a name reply.\<close>

record name_entry =
  ne_filename :: bytes
  ne_longname :: bytes
  ne_attrs :: attrs

definition enc_name_entry :: "name_entry \<Rightarrow> sink_prog" where
  "enc_name_entry e = enc_all [enc_textstring (ne_filename e), enc_textstring (ne_longname e), enc_attrs (ne_attrs e)]"

definition dec_name_entry :: "name_entry decoder" where
  "dec_name_entry =
     dec_bind dec_textstring (\<lambda>f. dec_bind dec_textstring (\<lambda>l. dec_bind dec_attrs (\<lambda>a.
     dec_return \<lparr>ne_filename = f, ne_longname = l, ne_attrs = a\<rparr>)))"

subsection \<open>Round trips\<close>

fun pflags_ok :: "pflags \<Rightarrow> bool" where
  "pflags_ok (PFlagsMultiple n) \<longleftrightarrow> n \<notin> {0x01, 0x02, 0x04, 0x08, 0x10, 0x20}"
| "pflags_ok _ \<longleftrightarrow> True"

fun status_code_ok :: "status_code \<Rightarrow> bool" where
  "status_code_ok (StatusOther n) \<longleftrightarrow> 8 < n"
| "status_code_ok _ \<longleftrightarrow> True"

interpretation pflags_codec: codec enc_pflags dec_pflags "\<lambda>_. pflags_ok"
proof unfold_locales
  fix c f rest
  assume "pflags_ok f"
  then have "pflags_from (pflags_u32 f) = f" by (cases f) (simp_all add: pflags_from_def)
  then show "dec_pflags (src (emitted (enc_pflags f) @ rest) c) = Inr (f, src rest c)"
    by (simp add: enc_pflags_def dec_pflags_def dec_bind_def dec_prim dec_return_def)
qed (simp add: enc_pflags_def)

lemma status_code_from_u32: "status_code_ok c \<Longrightarrow> status_code_from (status_code_u32 c) = c"
  by (cases c) (auto simp: status_code_from_def)

interpretation status_code_codec: codec enc_status_code dec_status_code "\<lambda>_. status_code_ok"
  by unfold_locales
     (simp_all add: enc_status_code_def dec_status_code_def dec_bind_def dec_prim dec_return_def status_code_from_u32)

text \<open>
  Attributes survive when the two members of a pair are both present or both absent, and no extended attributes
  are to be sent.
\<close>

definition attrs_ok :: "attrs \<Rightarrow> bool" where
  "attrs_ok a \<longleftrightarrow> (at_uid a = None \<longleftrightarrow> at_gid a = None) \<and> (at_atime a = None \<longleftrightarrow> at_mtime a = None)
     \<and> at_ext_count a = None"

lemma attrs_flags_test:
  "attrs_flags a AND ATTR_SIZE \<noteq> 0 \<longleftrightarrow> at_size a \<noteq> None"
  "attrs_flags a AND ATTR_UIDGID \<noteq> 0 \<longleftrightarrow> at_uid a \<noteq> None \<or> at_gid a \<noteq> None"
  "attrs_flags a AND ATTR_PERMISSIONS \<noteq> 0 \<longleftrightarrow> at_permissions a \<noteq> None"
  "attrs_flags a AND ATTR_ACMODTIME \<noteq> 0 \<longleftrightarrow> at_atime a \<noteq> None \<or> at_mtime a \<noteq> None"
  "attrs_flags a AND ATTR_EXTENDED = 0"
  by (simp_all add: attrs_flags_def Let_def attr_flag_defs)

lemma dec_when_option:
  assumes "codec enc dec (\<lambda>_ _. True)" "b \<longleftrightarrow> m \<noteq> None"
  shows "dec_when b dec (src (emitted (enc_option enc m) @ rest) c) = Inr (m, src rest c)"
  using codec.dec_enc [OF assms(1)] assms(2) by (cases m) (simp_all add: dec_when_def dec_bind_def dec_return_def)

lemma failure_enc_option: "(\<And>a. failure (enc a) = None) \<Longrightarrow> failure (enc_option enc m) = None"
  by (cases m) simp_all

interpretation attrs_codec: codec enc_attrs dec_attrs "\<lambda>_. attrs_ok"
proof unfold_locales
  fix c a rest
  have f: "failure (enc_option enc_u32 m) = None" "failure (enc_option enc_u64 k) = None" for m k
    by (simp_all add: failure_enc_option)
  then show "failure (enc_attrs a) = None" by (simp add: enc_attrs_def failure_seq)
  assume a: "attrs_ok a"
  let ?fl = "attrs_flags a"
  note d = dec_when_option [OF u32_codec.codec_axioms] dec_when_option [OF u64_codec.codec_axioms]
  have w: "dec_when (?fl AND ATTR_SIZE \<noteq> 0) dec_u64 (src (emitted (enc_option enc_u64 (at_size a)) @ r) c) = Inr (at_size a, src r c)"
    "dec_when (?fl AND ATTR_UIDGID \<noteq> 0) dec_u32 (src (emitted (enc_option enc_u32 (at_uid a)) @ r) c) = Inr (at_uid a, src r c)"
    "dec_when (?fl AND ATTR_UIDGID \<noteq> 0) dec_u32 (src (emitted (enc_option enc_u32 (at_gid a)) @ r) c) = Inr (at_gid a, src r c)"
    "dec_when (?fl AND ATTR_PERMISSIONS \<noteq> 0) dec_u32 (src (emitted (enc_option enc_u32 (at_permissions a)) @ r) c)
       = Inr (at_permissions a, src r c)"
    "dec_when (?fl AND ATTR_ACMODTIME \<noteq> 0) dec_u32 (src (emitted (enc_option enc_u32 (at_atime a)) @ r) c) = Inr (at_atime a, src r c)"
    "dec_when (?fl AND ATTR_ACMODTIME \<noteq> 0) dec_u32 (src (emitted (enc_option enc_u32 (at_mtime a)) @ r) c) = Inr (at_mtime a, src r c)"
    "dec_when (?fl AND ATTR_EXTENDED \<noteq> 0) e s = Inr (None, s)" for r e s
    using a by (auto simp: attrs_flags_test attrs_ok_def intro!: d) (simp_all add: dec_when_def dec_return_def)
  have "dec_attrs (src (emitted (enc_attrs a) @ rest) c) = Inr (a\<lparr>at_ext_count := None\<rparr>, src rest c)"
    using w(6) [of rest]
    by (simp add: dec_attrs_def enc_attrs_def dec_bind_def emitted_seq f dec_prim w dec_return_def)
  then show "dec_attrs (src (emitted (enc_attrs a) @ rest) c) = Inr (a, src rest c)"
    using a by (simp add: attrs_ok_def)
qed

text \<open>
  Where only one member of a pair is present the flag announces two values and one is written: what follows is
  taken for the other one.
\<close>

lemma attrs_half_pair:
  assumes "at_uid a = Some u" "at_gid a = None" "at_size a = None" "at_permissions a = None"
    and "at_atime a = None" "at_mtime a = None"
  shows "read_ssh dec_attrs (emitted (enc_attrs a)) ctx = Inl RanOut"
    and "dec_attrs (src (emitted (enc_attrs a) @ be32 n @ rest) c) = Inr (attrs_default\<lparr>at_uid := Some u, at_gid := Some n\<rparr>, src rest c)"
proof -
  have e: "emitted (enc_attrs a) = be32 2 @ be32 u"
    using assms by (simp add: enc_attrs_def emitted_seq attrs_flags_def attr_flag_defs)
  have f: "(2 :: u32) AND ATTR_SIZE = 0" "(2 :: u32) AND ATTR_UIDGID \<noteq> 0" "(2 :: u32) AND ATTR_PERMISSIONS = 0"
    "(2 :: u32) AND ATTR_ACMODTIME = 0" "(2 :: u32) AND ATTR_EXTENDED = 0" by (simp_all add: attr_flag_defs)
  have "dec_u32 (src [] c) = Inl WireRanOut" for c by (simp add: dec_u32_def dec_bind_def source_take_def)
  then show "read_ssh dec_attrs (emitted (enc_attrs a)) ctx = Inl RanOut"
    using dec_prim(2) [of u "[]"]
    by (simp add: read_ssh_def e dec_attrs_def dec_bind_def dec_prim f dec_when_def dec_return_def)
  show "dec_attrs (src (emitted (enc_attrs a) @ be32 n @ rest) c) = Inr (attrs_default\<lparr>at_uid := Some u, at_gid := Some n\<rparr>, src rest c)"
    by (simp add: e dec_attrs_def dec_bind_def dec_prim f dec_when_def dec_return_def attrs_default_def)
qed

lemma sftp_num_from_u8: "k \<in> set sftp_nums \<Longrightarrow> sftp_num_from (sftp_num_u8 k) = k"
  by (cases k) (simp_all add: sftp_num_from_def sftp_nums_def)

lemma sftp_packet_num_known: "sftp_packet_num p \<in> set sftp_nums"
  by (cases p) (simp_all add: sftp_nums_def)

fun sftp_packet_ok :: "sftp_packet \<Rightarrow> bool" where
  "sftp_packet_ok (SftpInit _) \<longleftrightarrow> True"
| "sftp_packet_ok (SftpVersion _) \<longleftrightarrow> True"
| "sftp_packet_ok (SftpOpen _ filename flags a) \<longleftrightarrow> len_ok filename \<and> pflags_ok flags \<and> attrs_ok a"
| "sftp_packet_ok (SftpClose _ handle) \<longleftrightarrow> len_ok handle"
| "sftp_packet_ok (SftpRead _ handle _ _) \<longleftrightarrow> len_ok handle"
| "sftp_packet_ok (SftpWrite _ handle _ _) \<longleftrightarrow> len_ok handle"
| "sftp_packet_ok (SftpLStat _ path) \<longleftrightarrow> len_ok path"
| "sftp_packet_ok (SftpFStat _ handle) \<longleftrightarrow> len_ok handle"
| "sftp_packet_ok (SftpSetStat _ path a) \<longleftrightarrow> len_ok path \<and> attrs_ok a"
| "sftp_packet_ok (SftpFSetStat _ handle a) \<longleftrightarrow> len_ok handle \<and> attrs_ok a"
| "sftp_packet_ok (SftpOpenDir _ dirname) \<longleftrightarrow> len_ok dirname"
| "sftp_packet_ok (SftpReadDir _ handle) \<longleftrightarrow> len_ok handle"
| "sftp_packet_ok (SftpRemove _ path) \<longleftrightarrow> len_ok path"
| "sftp_packet_ok (SftpMkDir _ path a) \<longleftrightarrow> len_ok path \<and> attrs_ok a"
| "sftp_packet_ok (SftpRmDir _ path) \<longleftrightarrow> len_ok path"
| "sftp_packet_ok (SftpPathInfo _ path) \<longleftrightarrow> len_ok path"
| "sftp_packet_ok (SftpStat _ path) \<longleftrightarrow> len_ok path"
| "sftp_packet_ok (SftpRename _ old_path new_path) \<longleftrightarrow> len_ok old_path \<and> len_ok new_path"
| "sftp_packet_ok (SftpReadLink _ path) \<longleftrightarrow> len_ok path"
| "sftp_packet_ok (SftpSymlink _ target_path link_path) \<longleftrightarrow> len_ok target_path \<and> len_ok link_path"
| "sftp_packet_ok (SftpExtended _ name _) \<longleftrightarrow> len_ok name"
| "sftp_packet_ok (SftpStatus _ code message lang) \<longleftrightarrow> status_code_ok code \<and> len_ok message \<and> len_ok lang"
| "sftp_packet_ok (SftpHandle _ handle) \<longleftrightarrow> len_ok handle"
| "sftp_packet_ok (SftpData _ dat) \<longleftrightarrow> len_ok dat"
| "sftp_packet_ok (SftpName _ _) \<longleftrightarrow> True"
| "sftp_packet_ok (SftpAttrs _ a) \<longleftrightarrow> attrs_ok a"

lemma enc_sftp_body_ok: "sftp_packet_ok p \<Longrightarrow> failure (enc_all (enc_sftp_body p)) = None"
  by (cases p) (simp_all add: failure_seq attrs_codec.enc_ok pflags_codec.enc_ok status_code_codec.enc_ok)

lemma enc_sftp_packet_ok: "sftp_packet_ok p \<Longrightarrow> failure (enc_sftp_packet p) = None"
  by (simp add: enc_sftp_packet_def failure_seq enc_sftp_body_ok)

lemma emitted_sftp_packet:
  "sftp_packet_ok p \<Longrightarrow> emitted (enc_sftp_packet p) = sftp_num_u8 (sftp_packet_num p) # emitted (enc_all (enc_sftp_body p))"
  by (simp add: enc_sftp_packet_def emitted_seq)

text \<open>An extended request takes all that follows, every other packet just its own bytes.\<close>

definition sftp_rest_ok :: "sftp_packet \<Rightarrow> bytes \<Rightarrow> bool" where
  "sftp_rest_ok p rest \<longleftrightarrow> (case p of SftpExtended _ _ _ \<Rightarrow> rest = [] | _ \<Rightarrow> True)"

lemma dec_sftp_body_enc:
  assumes ok: "sftp_packet_ok p" and rest: "sftp_rest_ok p rest"
  shows "dec_sftp_body (sftp_num_u8 (sftp_packet_num p)) (src (emitted (enc_all (enc_sftp_body p)) @ rest) c) = Inr (p, src rest c)"
proof -
  have k: "sftp_num_from (sftp_num_u8 (sftp_packet_num p)) = sftp_packet_num p"
    by (rule sftp_num_from_u8 [OF sftp_packet_num_known])
  show ?thesis
    using ok rest unfolding dec_sftp_body_def k
    by (cases p)
       (simp_all add: sftp_rest_ok_def emitted_seq failure_seq attrs_codec.enc_ok pflags_codec.enc_ok status_code_codec.enc_ok
          dec_req1_def dec_req2_def dec_req3_def dec_bind_def dec_prim dec_binstring dec_textstring_eq dec_return_def
          attrs_codec.dec_enc pflags_codec.dec_enc status_code_codec.dec_enc dec_ext_data_def remaining_def source_take_def)
qed

lemma dec_sftp_packet_enc:
  assumes "sftp_packet_ok p" "sftp_rest_ok p rest"
  shows "dec_sftp_packet (src (emitted (enc_sftp_packet p) @ rest) c) = Inr (p, src rest c)"
  using dec_sftp_body_enc [OF assms] by (simp add: emitted_sftp_packet [OF assms(1)] dec_sftp_packet_def dec_bind_def dec_prim)

interpretation sftp_packet_codec: codec enc_sftp_packet dec_sftp_packet
  "\<lambda>_ p. sftp_packet_ok p \<and> sftp_packet_num p \<noteq> SSH_FXP_EXTENDED"
proof unfold_locales
  fix c p rest
  assume p: "sftp_packet_ok p \<and> sftp_packet_num p \<noteq> SSH_FXP_EXTENDED"
  then show "failure (enc_sftp_packet p) = None" by (simp add: enc_sftp_packet_ok)
  have "sftp_rest_ok p rest" using p by (cases p) (simp_all add: sftp_rest_ok_def)
  with p show "dec_sftp_packet (src (emitted (enc_sftp_packet p) @ rest) c) = Inr (p, src rest c)"
    by (simp add: dec_sftp_packet_enc)
qed

lemma sftp_packet_read:
  assumes "sftp_packet_ok p"
  shows "read_ssh dec_sftp_packet (emitted (enc_sftp_packet p)) ctx = Inr (p, length (emitted (enc_sftp_packet p)))"
  using dec_sftp_packet_enc [OF assms, of "[]"] by (simp add: read_ssh_def sftp_rest_ok_def split: sftp_packet.split)

interpretation name_entry_codec: codec enc_name_entry dec_name_entry
  "\<lambda>_ e. len_ok (ne_filename e) \<and> len_ok (ne_longname e) \<and> attrs_ok (ne_attrs e)"
  by unfold_locales (simp_all add: enc_name_entry_def dec_name_entry_def failure_seq emitted_seq attrs_codec.enc_ok dec_bind_def
      dec_textstring_eq dec_binstring attrs_codec.dec_enc dec_return_def)

text \<open>The announced length of the extension pairs is what is written.\<close>

lemma ext_enc_pairs_length: "length (emitted (ext_enc_pairs e)) = ext_encoded_len e" "failure (ext_enc_pairs e) = None"
proof -
  have "failure (enc_all (map f ps)) = None \<and> length (emitted (enc_all (map f ps))) = sum_list (map (\<lambda>p. length (emitted (f p))) ps)"
    if "\<And>p. failure (f p) = None" for f :: "bool \<times> string \<Rightarrow> sink_prog" and ps
    using that by (induction ps) (simp_all add: failure_seq emitted_seq)
  from this [of "\<lambda>(on, n). enc_all [enc_textstring (str_bytes n), enc_textstring (str_bytes ''1'')]"]
  show "length (emitted (ext_enc_pairs e)) = ext_encoded_len e" "failure (ext_enc_pairs e) = None"
    by (simp_all add: ext_enc_pairs_def ext_encoded_len_def case_prod_beta failure_seq emitted_seq be32_def)
       (intro arg_cong [where f = sum_list] map_cong refl, auto)
qed

end
