(* ===== verification/Spec2Isabelle.thy ===== *)
theory Spec2Isabelle
  imports SSH_Transfer SFTP_Proto
begin

text \<open>
  A verification library for \<open>sunset\<close>, an SSH implementation in Rust that runs without an operating system:
  a core that does no input or output of its own, and a file transfer (SFTP) crate on top of it.

  \<^bold>\<open>The program.\<close> The application owns a \<open>Runner\<close> (\<open>src/src/runner.rs\<close>), for a client or a server. It
  feeds the runner the bytes that come from the network (\<open>input\<close>), sends what the runner has for the network
  (\<open>output\<close>, \<open>output_buf\<close> with \<open>consume_output\<close>), and polls \<open>progress\<close> for events, which it answers with
  the \<open>resume\<close> methods. \<open>traffic.rs\<close> collects the bytes of a packet, has \<open>encrypt.rs\<close> check and decrypt it,
  and hands the payload to \<open>packets.rs\<close> for decoding; \<open>conn.rs\<close> dispatches the packet to the key exchange
  (\<open>kex.rs\<close>, \<open>sign.rs\<close>), to authentication (\<open>cliauth.rs\<close>, \<open>servauth.rs\<close>) or to the channels
  (\<open>channel.rs\<close>), which send packets back through \<open>traffic.rs\<close>. Before the first packet \<open>ident.rs\<close> exchanges
  the version lines. The SFTP crate has its own packets (\<open>src/sftp/src/proto.rs\<close>), which travel as channel data.

  \<^bold>\<open>The theories.\<close> Each operation of the source is one definition with the source's name, prefixed where
  the same name occurs in several types; its state is a record with the fields of the struct.

  \<^item> \<open>SSH_Prelude\<close>: machine words, big endian numbers, \<open>Result\<close> and \<open>?\<close> as \<open>and_then\<close>, slices.
  \<^item> \<open>SSH_Errors\<close>: \<open>error.rs\<close>, \<open>config.rs\<close>. A failed \<open>unwrap\<close>, an index out of range and an overlong copy
    are the value \<open>Inl Panic\<close>, so that the absence of panics is a theorem and not a convention;
    \<open>Error::bug()\<close> is \<open>Inl Bug\<close>, as in a release build.
  \<^item> \<open>SSH_Wire\<close>: \<open>sshwire.rs\<close>. An encoder is the sequence of the pushes that it makes (\<open>sink_prog\<close>), run
    against any sink; the contract of a sink is the locale \<open>ssh_sink\<close>, that of an encoder and decoder pair
    the locale \<open>codec\<close>, and both have an interpretation for every type that implements the traits.
  \<^item> \<open>SSH_Names\<close>: \<open>sshnames.rs\<close>, \<open>namelist.rs\<close>; \<open>SSH_Ident\<close>: \<open>ident.rs\<close>;
    \<open>SSH_Packets\<close>, \<open>SSH_Packets_Codec\<close>: \<open>packets.rs\<close> with what \<open>sshwire-derive\<close> generates for it.
  \<^item> \<open>SSH_Crypto\<close>: the cryptographic packages, which are outside the repository, as the record \<open>crypto\<close> of
    functions. What is assumed of them is \<open>crypto_ok\<close> (lengths, decryption), \<open>kex_crypto_ok\<close> (the two ends
    of an exchange agree) and \<open>sign_crypto_ok\<close> (a signature verifies); \<open>toy_crypto\<close> satisfies all three, and
    the witnesses of the properties use it.
  \<^item> \<open>SSH_Encrypt\<close>: \<open>encrypt.rs\<close>, \<open>ssh_chapoly.rs\<close>, with \<open>SSH_Traffic\<close>, \<open>SSH_Traffic_Correct\<close>,
    \<open>SSH_Send_Correct\<close>: \<open>traffic.rs\<close>. Taking a buffer in pieces, by the application and by the socket, is
    the locale \<open>drained\<close>.
  \<^item> \<open>SSH_Sign\<close>: \<open>sign.rs\<close>; \<open>SSH_Kex\<close>, \<open>SSH_Kex_Correct\<close>: \<open>kex.rs\<close>; \<open>SSH_Auth\<close>, \<open>SSH_Auth_Correct\<close>:
    \<open>auth.rs\<close>, \<open>cliauth.rs\<close>, \<open>client.rs\<close>, \<open>servauth.rs\<close>, \<open>server.rs\<close>; \<open>SSH_Channel\<close>,
    \<open>SSH_Channel_Correct\<close>: \<open>channel.rs\<close>; \<open>SSH_Event\<close>: \<open>event.rs\<close>; \<open>SSH_Conn\<close>, \<open>SSH_Conn_Correct\<close>:
    \<open>conn.rs\<close>; \<open>SSH_Runner\<close>, \<open>SSH_Runner_Correct\<close>: \<open>runner.rs\<close>.
  \<^item> \<open>SSH_Session\<close>, \<open>SSH_Transfer\<close>: the composition. A session is a derivation of the inductive
    predicate \<open>runs\<close>, whose steps are the operations of the runner (\<open>app_op\<close>) with arbitrary arguments,
    so the peer and the application may do anything. The locale \<open>conn_relation\<close> lifts what one packet does to a connection
    to what a session does.
  \<^item> \<open>SFTP_Proto\<close>: \<open>proto.rs\<close> of the SFTP crate.

  \<^bold>\<open>What is shown.\<close> The properties are the theorems of this theory, each with a text that states it. C1 to C6
  are about whole sessions: no panic, nothing before authentication, verified signatures, delivery of channel
  data, states that only move on, and the packet stream between two ends. C7 is the round trip of all packets, C8
  that channel writes wait for a key exchange. C9 to C15 are about key exchange, C16 to C23 about encryption and the two
  buffers, C24 to C27 about channels, C28 to C30 about authentication, C31 to C33 about identification.
  The invariants behind them (\<open>runner_inv\<close>, \<open>conn_inv\<close>, \<open>chans_inv\<close>, \<open>kex_inv\<close>, \<open>ts_inv\<close>) hold initially
  and are kept by every operation, on its error paths too.

  \<^bold>\<open>Bounds.\<close> Machine integers have their width: sequence numbers, windows, lengths on the wire and the counters
  of the rekeying limits are words with the source's wrapping, saturating or checked arithmetic. \<open>usize\<close> is a
  natural number where it indexes a buffer, whose length bounds it, and has the bound \<open>usize_max\<close> where the source
  checks for overflow. No definition has fuel: loops recurse on the data they consume, with a measure where the
  recursion is not structural. Reading from a socket or a queue that has too little is a result of its own.

  \<^bold>\<open>Not modelled.\<close> RSA keys and the other optional features of the crate: the model is that of the default
  features. The text of log messages, and wakers beyond which of them is woken. \<open>agent.rs\<close>
  (an external ssh-agent; its answer is an argument of the operation that resumes with it) and
  \<open>termmodes.rs\<close> (a table). The async and std wrappers, the client application, the demonstration programs
  and the fuzzing harnesses: scheduling, files, terminals and sockets.
  Of the SFTP crate, all but the packets.

  \<^bold>\<open>Findings.\<close> Where the code does not do what it or its documentation says, the model follows the code. Lemmas
  such as \<open>slots_stay_taken\<close>, \<open>event_drops_packet\<close>, \<open>read_channel_reports_end\<close>, \<open>consume_empty_line\<close> and
  \<open>attrs_half_pair\<close> state what it does.
\<close>

section \<open>Sample states\<close>

text \<open>
  A runner in the middle of a session, with the payload \<open>pl\<close> of a packet in its input buffer and \<open>ch\<close> in its
  first channel slot. The properties are applied to it with \<open>toy_crypto\<close> for the packages that are outside the
  repository.
\<close>

definition sample_runner :: "bool \<Rightarrow> conn_state \<Rightarrow> channel option \<Rightarrow> bytes \<Rightarrow> runner" where
  "sample_runner is_client s ch pl =
     \<lparr>rn_conn = \<lparr>cn_state = s, cn_kex = kex_new, cn_sess_id = Some (replicate 32 7),
        cn_cliserv = cli_serv_default is_client, cn_algo_conf = std_config is_client, cn_parse_ctx = parse_context_new,
        cn_remote_version = remote_version_new is_client,
        cn_channels = \<lparr>chs = ch # replicate (MAX_CHANNELS - 1) None, chs_is_client = is_client\<rparr>\<rparr>,
      rn_traf_in = \<lparr>in_buf = replicate 5 0 @ pl @ replicate 16 0, rx = RxInPayload (length pl) 3\<rparr>,
      rn_send = \<lparr>ts_keys = key_state_new_cleartext, ts_out = traf_out_new (replicate 256 0)\<rparr>,
      rn_output_waker = None, rn_input_waker = None, rn_closed_input = False,
      rn_resume_event = DispNone, rn_extra_resume_event = DispNone, rn_woken = []\<rparr>"

definition sample_channel :: channel where
  "sample_channel =
     \<lparr>ch_ty = ChanSession, ch_state = ChNormal, sent_eof = False, sent_close = False,
      ch_recv = \<lparr>cd_num = 0, cd_max_packet = DEFAULT_MAX_PACKET, cd_window = DEFAULT_WINDOW\<rparr>,
      ch_send = Some \<lparr>cd_num = 4, cd_max_packet = 100, cd_window = 100\<rparr>,
      pending_adjust = 0, full_window = DEFAULT_WINDOW, open_confirmed = False, app_done = False,
      read_waker = None, write_waker = None, ext_waker = None, woken = []\<rparr>"

lemma sample_channel_ok: "channel_num sample_channel = 0 \<and> chan_ok sample_channel"
  by (simp add: sample_channel_def chan_ok_def channel_num_def usize_max_def u32_max_def)

lemma sample_runner_inv:
  assumes "s \<noteq> SendIdent" "pred_option (\<lambda>c. channel_num c = 0 \<and> chan_ok c) ch"
  shows "runner_inv cr (sample_runner is_client s ch pl)"
proof -
  let ?ts = "\<lparr>ts_keys = key_state_new_cleartext, ts_out = traf_out_new (replicate 256 0)\<rparr>"
  have "ts_inv ?ts" "kex_inv cr is_client (Some (replicate 32 7)) kex_new ?ts"
    by (simp_all add: ts_inv_def tx_inv_def traf_out_new_def key_state_new_cleartext_def
        keys_send_new_cleartext_def keys_send_ok_def kex_inv_new)
  moreover have "chans_inv \<lparr>chs = ch # replicate (MAX_CHANNELS - 1) None, chs_is_client = is_client\<rparr>"
    using assms(2) by (auto simp: chans_inv_def nth_Cons MAX_CHANNELS_def split: nat.splits)
  ultimately show ?thesis
    using assms(1) rv_inv_new [of is_client]
    by (simp only: runner_inv_def sample_runner_def conn_inv_def conn_core_def conn_is_client_def runner.simps conn.simps)
       (auto simp: cli_serv_default_def rx_inv_def)
qed

lemma sample_payload: "payload (rn_traf_in (sample_runner is_client s ch pl)) = Inr (Some (pl, 3))"
  by (simp add: sample_runner_def payload_def panic_option_def slice_def framing_consts)

lemma sample_received:
  assumes "wf_packet parse_context_new p"
  shows "conn_packet (emitted (enc_packet p)) (rn_conn (sample_runner is_client s ch pl)) = Inr (received p)"
  using packet_sent [of parse_context_new p] assms by (simp add: sample_runner_def conn_packet_def parse_context_new_def)



lemma sample_signed_request:
  defines "ca \<equiv> cli_auth_default\<lparr>ca_username := [97]\<rparr>"
  shows "\<exists>p. cli_signed_request toy_crypto (SignEd25519 key) (replicate 32 7) ca = Inr p
     \<and> ur_username p = [97] \<and> wf_packet parse_context_new (UserauthRequest [97] (ur_service p) (received_method (ur_method p)))"
proof -
  let ?pk = "ed25519_verifying_key toy_crypto key"
  have k: "length ?pk = 32" using toy_crypto_ok(3) by (simp add: sign_crypto_ok_def)
  obtain m where m: "method_pub_key_new (PubKeyEd25519 ?pk) None = Inr m"
    by (simp add: method_pub_key_new_def trap_result_def)
  let ?msg = "enc_auth_sig_msg (auth_sig_msg_new \<lparr>ur_username = [97], ur_service = SSH_SERVICE_CONNECTION,
               ur_method = MethodPubKey (m\<lparr>mpk_force_sig := True\<rparr>)\<rparr> (replicate 32 7))"
  have "sig_msg_bytes ?msg = Inr (emitted ?msg)"
    using auth_sig_msg_fits [OF _ _ k m refl, of "replicate 32 7" "[97]"] by (simp add: sig_msg_bytes_Inr)
  moreover have "is_name SSH_SERVICE_CONNECTION" by code_simp
  moreover have "len_ok SSH_SERVICE_CONNECTION" "len_ok SSH_NAME_ED25519"
    by (simp_all add: ssh_name_defs)
  ultimately show ?thesis
    using m k toy_crypto_ok(3)
    by (auto simp: ca_def cli_signed_request_def cli_auth_sig_msg_def req_packet_pubkey_def method_pub_key_new_def
        trap_result_def sign_crypto_ok_def method_pub_key_ok_def)
qed


lemma sample_progress:
  fixes pl :: bytes and is_client s ch
  defines "r \<equiv> sample_runner is_client s ch pl"
  shows "runner_progress cr r = st_bind (with_conn (handle_payload cr pl 3)) (\<lambda>disp. st_bind (runner_handled disp) (runner_finish cr)) r"
proof -
  have "runner_progress cr r = runner_incoming cr r"
  unfolding r_def by (simp add: sample_runner_def runner_progress_def Let_def with_sender_def ts_send_deferred_packets_def send_deferred_packets_def traf_out_new_def
    conn_is_kex_sending_def kex_new_def)
  then show ?thesis using sample_payload [of is_client s ch pl] by (simp add: r_def runner_incoming_def)
qed


lemma sample_serv_event:
  fixes pl :: bytes and s ch
  defines "r \<equiv> sample_runner False s ch pl"
  assumes "handle_payload cr pl 3 (rn_conn r) (rn_send r) = (Inr \<lparr>disp_event = DispServEvent e, disp_disconnect = False\<rparr>, c, ts)"
    "\<not> conn_is_client c"
   shows "\<exists>r'. runner_progress cr r = (Inr (EvServ (serv_event_id_event e)), r')"
  using assms(2,3) unfolding r_def
  by (simp add: sample_progress st_bind_def with_conn_def runner_handled_def runner_finish_def runner_conn_progress_def runner_report_def Let_def
     runner_is_client_def runner_wake_def)

lemma sample_signed_progress:
  assumes p: "cli_signed_request toy_crypto (SignEd25519 [5]) (replicate 32 7) (cli_auth_default\<lparr>ca_username := [97]\<rparr>) = Inr p"
  "ur_username p = [97]" "wf_packet parse_context_new (UserauthRequest [97] (ur_service p) (received_method (ur_method p)))"
  shows "\<exists>r'. (runner_progress toy_crypto (sample_runner False PreAuth None (emitted (enc_packet (UserauthRequest [97] (ur_service p) (received_method (ur_method p)))))))
   = (Inr (EvServ (EvPubkeyAuth True)), r')"
proof -
  let ?pkt = "UserauthRequest [97] (ur_service p) (received_method (ur_method p))"
  let ?r = "sample_runner False PreAuth None (emitted (enc_packet ?pkt))"
  have "serv_check_username [97] serv_auth_default = Inr (serv_auth_default\<lparr>sa_username := Some [97]\<rparr>)"
    by (simp add: serv_check_username_def serv_auth_default_def MAX_USERNAME_def)
  with client_request_accepted [OF toy_crypto_ok(3) p(1), of serv_auth_default "serv_auth_default\<lparr>sa_username := Some [97]\<rparr>" "rn_send ?r"]
   have a: "serv_request toy_crypto (replicate 32 7) (p\<lparr>ur_method := received_method (ur_method p)\<rparr>) serv_auth_default (rn_send ?r)
     = (Inr (DispServEvent (ServPubkeyAuth True)), serv_auth_default\<lparr>sa_username := Some [97], sa_tried_first := True\<rparr>, rn_send ?r)"
     by (simp add: cli_auth_default_def serv_auth_default_def)
  have "p\<lparr>ur_method := received_method (ur_method p)\<rparr> = \<lparr>ur_username = [97], ur_service = ur_service p, ur_method = received_method (ur_method p)\<rparr>"
    using p(2) by simp
  moreover have "check_packet ?pkt (rn_conn ?r) = Inr ()" "cn_cliserv (rn_conn ?r) = Server serv_auth_default" "cn_sess_id (rn_conn ?r) = Some (replicate 32 7)"
   by (simp_all add: sample_runner_def check_packet_def conn_is_first_kex_def kex_new_def cli_serv_default_def)
  ultimately have "\<exists>c ts. handle_payload toy_crypto (emitted (enc_packet ?pkt)) 3 (rn_conn ?r) (rn_send ?r) = (Inr \<lparr>disp_event = DispServEvent (ServPubkeyAuth True), disp_disconnect = False\<rparr>, c, ts)
     \<and> \<not> conn_is_client c"
    using sample_received [OF p(3)] a
    by (simp add: handle_payload_def dispatch_packet_def is_disconnect_def dispatch_userauth_request_def trap_option_def conn_is_client_def)
  then show ?thesis using sample_serv_event by fastforce
qed

lemmas send_eval =
  send_packet_inner_def track_send_packet_def traf_out_new_def slice_def write_ssh_eq enc_packet_def enc_simps be32_def
  framing_consts encrypt_def keys_send_encrypt_def calc_encrypt_pad_def key_state_new_cleartext_def keys_send_new_cleartext_def
  Let_def fill_random_def toy_crypto_def

lemma sample_sends:
  "\<exists>s' out'. sends toy_crypto key_state_new_cleartext (traf_out_new (replicate 64 0)) [Ignore [1], Ignore [2, 3]] s' out'"
  apply (intro exI)
  apply (rule sends_one)
   apply (simp add: send_eval)
  apply (rule sends_one)
   apply (simp add: send_eval)
  apply (rule sends_none)
  done

definition sample_algos :: "bytes \<Rightarrow> algos" where
  "sample_algos k = \<lparr>al_kex = KexCurve25519 \<lparr>kc_ours = Some k, kc_pubkey = x25519_public toy_crypto k\<rparr>, al_hostsig = SigTypeEd25519,
     al_cipher_enc = ChaPoly, al_cipher_dec = ChaPoly, al_integ_enc = IntegChaPoly, al_integ_dec = IntegChaPoly,
     al_discard_next = False, al_send_ext_info = False, al_strict_kex = False\<rparr>"



lemma toy_sizes: "length (ed25519_verifying_key toy_crypto k) = 32" "length (x25519_public toy_crypto k) = 32" "length (ed25519_sign toy_crypto k m) = 64"
  "length (sha256 toy_crypto m) = 32"
  by (simp_all add: toy_crypto_def)


lemma sample_enc_lengths:
  "length k = 32 \<Longrightarrow> length (emitted (enc_pub_key (PubKeyEd25519 k))) = 51"
  "length sg = 64 \<Longrightarrow> length (emitted (enc_signature (SigEd25519 sg))) = 83"
  by (simp add: enc_pub_key_def enc_signature_def enc_simps array_blob.enc_ok emitted_enc_blob, simp add: ssh_name_defs be32_def)+

lemma sample_reply_sent:
  assumes "length k = 32" "length q = 32" "length sg = 64"
  shows "fst (ts_send toy_crypto (KexDHReply (PubKeyEd25519 k) q (SigEd25519 sg)) (rn_send (sample_runner False FirstKex None []))) = Inr ()"
proof -
  let ?p = "KexDHReply (PubKeyEd25519 k) q (SigEd25519 sg)"
  have "failure (enc_packet ?p) = None" "length (emitted (enc_packet ?p)) = 179"
    using assms sample_enc_lengths by (simp_all add: enc_packet_def enc_simps be32_def blob_simps emitted_enc_blob pub_key_codec.enc_ok signature_codec.enc_ok)
  then show ?thesis
   by (simp add: sample_runner_def ts_send_def send_packet_def Let_def send_packet_inner_def track_send_packet_def traf_out_new_def slice_def write_ssh_eq 
  framing_consts encrypt_def keys_send_encrypt_def calc_encrypt_pad_def key_state_new_cleartext_def keys_send_new_cleartext_def
   fill_random_def toy_crypto_def)
qed

lemma sample_exchange: "\<exists>ko b' us'. shared_secret_handle_kexdhinit toy_crypto (sample_algos [2]) [] [SignEd25519 [5]] (x25519_public toy_crypto [1]) (rn_send (sample_runner False FirstKex None [])) = (Inr (ko, b'), us')"
proof -
  let ?k = "\<lparr>kc_ours = Some [2], kc_pubkey = x25519_public toy_crypto [2]\<rparr>" and ?pk = "ed25519_verifying_key toy_crypto [5]"
  obtain h where h: "hash_hostkey (PubKeyEd25519 ?pk) [] = Inr h"
   by (simp add: hash_hostkey_def hash_ser_length_def length_enc_eq hash_ser_eq pub_key_codec.enc_ok toy_sizes sample_enc_lengths u32_max_def usize_max_def)
  obtain ko where k: "curve25519_secret toy_crypto (x25519_public toy_crypto [1]) h False ?k = Inr (ko, ?k\<lparr>kc_ours := None\<rparr>)" "length (ko_h ko) = 32"
   by (auto simp: curve25519_secret_def Let_def raw_secret_def kex_output_new_def toy_sizes trap_option_def kex_hash_finish_def hash_mpint_def hash_ser_eq)
  have "sig_msg_bytes (enc_array (ko_h ko)) = Inr (ko_h ko)"
    using k(2) by (simp add: sig_msg_bytes_Inr enc_simps MAX_ED25519_SIG_MSG_def)
  then obtain sg where sg: "sign_key_sign toy_crypto (SignEd25519 [5]) (enc_array (ko_h ko)) = Inr (OwnedEd25519 sg)" "length sg = 64"
    by (simp add: toy_sizes)
  from sample_reply_sent [of ?pk "x25519_public toy_crypto [2]" sg] sg(2) obtain us' where
    "ts_send toy_crypto (KexDHReply (PubKeyEd25519 ?pk) (x25519_public toy_crypto [2]) (SigEd25519 sg)) (rn_send (sample_runner False FirstKex None [])) = (Inr (), us')"
    by (metis prod.collapse toy_sizes(1,2))
  with h k sg show ?thesis
   by (simp add: shared_secret_handle_kexdhinit_def sample_algos_def st_bind_def st_lift_def send_kexdhreply_def)
qed

lemma sample_exchange_accepted:
  "\<exists>k_s q_s sig ko a'. shared_secret_handle_kexdhreply toy_crypto (sample_algos [1]) [] k_s q_s sig = Inr (ko, a')"
proof -
  obtain ko b' us' where s: "shared_secret_handle_kexdhinit toy_crypto (sample_algos [2]) [] [SignEd25519 [5]]
      (x25519_public toy_crypto [1]) (rn_send (sample_runner False FirstKex None [])) = (Inr (ko, b'), us')"
    using sample_exchange by blast
  have a: "algos_agree (sample_algos [1]) (sample_algos [2])" "fresh_secret toy_crypto (al_kex (sample_algos k))"
    "(sample_algos k)\<lparr>al_kex := al_kex (sample_algos k)\<rparr> = sample_algos k" for k
    by (simp_all add: algos_agree_def sample_algos_def fresh_curve_def)
  have q: "shared_secret_q_c toy_crypto (al_kex (sample_algos [1])) ts
      = (Inr (x25519_public toy_crypto [1], al_kex (sample_algos [1])), ts)" for ts
    by (simp add: sample_algos_def st_lift_def)
  show ?thesis using server_reply_accepted [OF toy_crypto_ok(2,3) a(1,2,2) q s] a(3) by metis
qed

definition sample_keys :: "bool \<Rightarrow> key_state" where
  "sample_keys chapoly =
     key_state_new_cleartext
       \<lparr>ks_enc := (if chapoly then \<lparr>s_cipher = EncChaPoly \<lparr>k1 = [1], k2 = [2]\<rparr>, s_integ = IntegKeyChaPoly\<rparr>
                   else \<lparr>s_cipher = EncAes256Ctr \<lparr>aes_key = [3], aes_iv = [4], aes_pos = 0\<rparr>, s_integ = IntegKeyHmacSha256 [6]\<rparr>),
        ks_dec := (if chapoly then \<lparr>r_cipher = DecChaPoly \<lparr>k1 = [1], k2 = [2]\<rparr>, r_integ = IntegKeyChaPoly\<rparr>
                   else \<lparr>r_cipher = DecAes256Ctr \<lparr>aes_key = [3], aes_iv = [4], aes_pos = 0\<rparr>, r_integ = IntegKeyHmacSha256 [6]\<rparr>)\<rparr>"

lemma sample_keys_in_step: "in_step (sample_keys b) (sample_keys b)"
  by (simp add: sample_keys_def in_step_def paired_def keys_send_ok_def key_state_new_cleartext_def)

lemma sample_encrypt:
  "fst (encrypt toy_crypto 3 (replicate 5 0 @ [7, 8, 9] @ replicate 40 0) (sample_keys True)) = Inr 28"
  by (simp add: encrypt_def keys_send_encrypt_def Let_def sample_keys_def calc_encrypt_pad_def framing_consts fill_random_def
      toy_crypto_def chapoly_encrypt_def key_state_new_cleartext_def trap_result_def CHAPOLY_TAG_LEN_def)

definition sample_wire :: bytes where
  "sample_wire = take 28 (snd (snd (snd (keys_send_encrypt toy_crypto 3
     (replicate 5 0 @ [7, 8, 9] @ replicate 40 0) 0 0 (ks_enc (sample_keys True))))))"

lemma sample_decrypt: "fst (keys_recv_decrypt toy_crypto sample_wire 0 (ks_dec (sample_keys True))) = Inr 3"
  by code_simp


definition sample_channels :: channels where
  "sample_channels = cn_channels (rn_conn (sample_runner False Authed (Some sample_channel) []))"

lemma sample_channels_ok: "chans_inv sample_channels" "established 0 sample_channels" "chan_window 0 sample_channels = 100"
  using sample_runner_inv [of Authed "Some sample_channel" toy_crypto False "[]"] sample_channel_ok
  by (simp_all add: sample_channels_def runner_inv_def conn_inv_def conn_core_def)
     (simp_all add: sample_runner_def established_def get_any_def sample_channel_def chan_window_def)

definition sample_send :: traf_send where
  "sample_send = \<lparr>ts_keys = sample_keys True, ts_out = traf_out_new (replicate 64 0)\<rparr>"


section \<open>Sessions\<close>



text \<open>
  C2. Nothing opens before authentication. In a session of a server in which the application has not allowed
  an authentication request (a first, password or signed public key request; allowing a query about a key does
  not count), the connection is not authenticated and its channel table is empty, whatever the peer has sent.
\<close>

theorem nothing_before_authentication:
  assumes "runs cr False tr r ev" "\<not> (\<exists>x \<in> set tr. lets_in x)"
  shows "cn_state (rn_conn r) \<noteq> Authed \<and> set (chs (cn_channels (rn_conn r))) \<subseteq> {None}"
  using runs_locked [OF assms] by (simp add: locked_def unauthed_def)

theorem nothing_before_authentication_witness:
  "\<exists>r. runs toy_crypto False [(OpCloseInput, EvNone)] r EvNone
     \<and> cn_state (rn_conn r) \<noteq> Authed \<and> set (chs (cn_channels (rn_conn r))) \<subseteq> {None}"
proof -
  obtain r where "runner_new False (replicate 64 0) (replicate 64 0) = Inr r"
    by (simp add: runner_new_def conn_new_def algo_config_new_eq)
  then have "runs toy_crypto False [] r EvNone" by (rule runs.start) simp
  then have "runs toy_crypto False [(OpCloseInput, EvNone)] (runner_close_input r) EvNone" by (rule runs.step) simp_all
  with nothing_before_authentication [OF this] show ?thesis by auto
qed

text \<open>
  C3. A signed request is verified. When \<open>progress\<close> of a server that has not let anyone in
  reports a public key request as signed, the packet in the input buffer is a request of that kind, and its
  signature verifies with the key it names over the identifier of this session and over the user, service,
  method and key of the request.
\<close>

theorem signed_request_verified:
  assumes "runner_progress cr r = (Inr (EvServ (EvPubkeyAuth True)), r')" "unauthed (rn_conn r)" "runner_inv cr r"
  shows "\<exists>pl sq. payload (rn_traf_in r) = Inr (Some (pl, sq)) \<and> valid_pubkey_request cr (rn_conn r) pl"
  using assms by (rule progress_signed)

theorem signed_request_verified_witness:
  "\<exists>p r r'. cli_signed_request toy_crypto (SignEd25519 [5]) (replicate 32 7) (cli_auth_default\<lparr>ca_username := [97]\<rparr>) = Inr p
     \<and> r = sample_runner False PreAuth None
           (emitted (enc_packet (UserauthRequest [97] (ur_service p) (received_method (ur_method p)))))
     \<and> runner_progress toy_crypto r = (Inr (EvServ (EvPubkeyAuth True)), r')
     \<and> (\<exists>pl sq. payload (rn_traf_in r) = Inr (Some (pl, sq)) \<and> valid_pubkey_request toy_crypto (rn_conn r) pl)"
proof -
  obtain p where p: "cli_signed_request toy_crypto (SignEd25519 [5]) (replicate 32 7) (cli_auth_default\<lparr>ca_username := [97]\<rparr>) = Inr p"
    "ur_username p = [97]" "wf_packet parse_context_new (UserauthRequest [97] (ur_service p) (received_method (ur_method p)))"
    using sample_signed_request by blast
  let ?r = "sample_runner False PreAuth None
    (emitted (enc_packet (UserauthRequest [97] (ur_service p) (received_method (ur_method p)))))"
  obtain r' where r': "runner_progress toy_crypto ?r = (Inr (EvServ (EvPubkeyAuth True)), r')"
    using sample_signed_progress [OF p] by blast
  have "unauthed (rn_conn ?r)"
    by (auto simp: unauthed_def sample_runner_def conn_is_client_def cli_serv_default_def)
  from signed_request_verified [OF r' this sample_runner_inv] p(1) r' show ?thesis by auto
qed

text \<open>
  C4. Channel data reaches the application. When \<open>progress\<close> takes a data packet for an open
  channel (stderr data only at a client), reading that channel with buffers of any sizes \<open>ns\<close>
  gives the data of the packet, in order and once, and then nothing more.
\<close>

theorem data_reaches_application:
  assumes "runner_inv cr r" "crypto_ok cr" "rn_resume_event r = DispNone" "rn_extra_resume_event r = DispNone"
    and "runner_progress cr r = (Inr x, r')"
    and "payload (rn_traf_in r) = Inr (Some (pl, sq))" "conn_packet pl (rn_conn r) = Inr p"
    and "data_of (runner_is_client r) p = Some (num, dt, d)" "d \<noteq> []"
    and "check_packet p (rn_conn r) = Inr ()"
    and "get_chan num (cn_channels (rn_conn r)) = Inr ch" "\<not> app_done ch"
  shows "\<exists>ti. pieces (read_piece num dt) ns (rn_traf_in r') = Inr (take (sum_list ns) d, ti)"
  using assms by (rule progress_delivers)

theorem data_reaches_application_witness:
  "\<exists>x r' ti. runner_progress toy_crypto
       (sample_runner False Authed (Some sample_channel) (emitted (enc_packet (ChannelData 0 [1, 2, 3])))) = (Inr x, r')
     \<and> pieces (read_piece 0 Normal) [2, 5] (rn_traf_in r') = Inr ([1, 2, 3], ti)"
proof -
  let ?r = "sample_runner False Authed (Some sample_channel) (emitted (enc_packet (ChannelData 0 [1, 2, 3])))"
  have "case fst (runner_progress toy_crypto ?r) of Inl _ \<Rightarrow> False | Inr _ \<Rightarrow> True" by code_simp
  then obtain x r' where r': "runner_progress toy_crypto ?r = (Inr x, r')"
    by (cases "runner_progress toy_crypto ?r") (auto split: sum.splits)
  have r: "runner_inv toy_crypto ?r" using sample_channel_ok by (intro sample_runner_inv) simp_all
  have f: "rn_resume_event ?r = DispNone" "rn_extra_resume_event ?r = DispNone" "\<not> runner_is_client ?r"
    "check_packet (ChannelData 0 [1, 2, 3]) (rn_conn ?r) = Inr ()"
    "get_chan 0 (cn_channels (rn_conn ?r)) = Inr sample_channel" "\<not> app_done sample_channel"
    by (simp_all add: sample_runner_def runner_is_client_def conn_is_client_def cli_serv_default_def check_packet_def
        kex_new_def conn_is_first_kex_def get_chan_def get_any_def sample_channel_def)
  have p: "conn_packet (emitted (enc_packet (ChannelData 0 [1, 2, 3]))) (rn_conn ?r) = Inr (ChannelData 0 [1, 2, 3])"
    by (simp add: sample_received)
  from data_reaches_application [OF r toy_crypto_ok(1) f(1,2) r' sample_payload p _ _ f(4,5,6), where ns = "[2, 5]"] r'
  show ?thesis by auto
qed

text \<open>
  C5. A session only moves on. Whatever operation the application performs, and whatever the peer has sent,
  the connection keeps its role, does not go back to an earlier state, and keeps the session identifier once
  the first key exchange has made one (rekeying does not change it).
\<close>

theorem session_moves_onward:
  assumes "permitted op ev r"
  shows "onward (rn_conn r) (rn_conn (snd (app_step cr ev op r)))"
  using moves.app_step_within [OF assms, of cr] by simp

theorem session_moves_onward_witness:
  "onward (rn_conn (sample_runner False PreAuth None [20]))
     (rn_conn (snd (app_step toy_crypto EvNone OpProgress (sample_runner False PreAuth None [20]))))"
  by (rule session_moves_onward) simp

section \<open>Packets on the wire\<close>

text \<open>
  C6. The connection is a stream of packets. When one end sends the packets \<open>ps\<close>, with keys that
  match those of the other end, then the bytes that were added to the output are such that the other end, fed
  with them, receives the same packets in the same order, and both ends are in step afterwards.
\<close>

theorem stream_of_packets:
  assumes "sends cr s out ps s' out'" "crypto_ok cr" "in_step s r" "tx_inv out" "tx out \<noteq> TxClosed"
    and "\<forall>p \<in> set ps. wf_packet (ctx\<lparr>seen_unknown := False\<rparr>) p"
    and "rx ti = RxIdle" "16 \<le> length (in_buf ti)" "length (out_buf out) \<le> length (in_buf ti)"
    and "length (out_buf out) < 2 ^ 32"
  shows "\<exists>w r' ti'. pending out' = pending out @ w \<and> receives cr ctx r ti w (map received ps) r' ti' \<and> in_step s' r'"
  using assms by (rule stream_delivered)

theorem stream_of_packets_witness:
  "\<exists>s' out' w r' ti'. sends toy_crypto key_state_new_cleartext (traf_out_new (replicate 64 0)) [Ignore [1], Ignore [2, 3]] s' out'
     \<and> pending out' = w
     \<and> receives toy_crypto parse_context_new key_state_new_cleartext (traf_in_new (replicate 64 0)) w
         [Ignore [1], Ignore [2, 3]] r' ti' \<and> in_step s' r'"
proof -
  obtain s' out' where s: "sends toy_crypto key_state_new_cleartext (traf_out_new (replicate 64 0)) [Ignore [1], Ignore [2, 3]] s' out'"
    using sample_sends by blast
  from stream_of_packets [OF s toy_crypto_ok(1), of key_state_new_cleartext parse_context_new "traf_in_new (replicate 64 0)"]
  show ?thesis
    using s by (auto simp: in_step_def paired_def key_state_new_cleartext_def keys_send_new_cleartext_def
        keys_recv_new_cleartext_def keys_send_ok_def tx_inv_def traf_out_new_def traf_in_new_def pending_def)
qed

text \<open>
  C7. A packet survives the wire. \<open>packet_from_bytes\<close> of the encoding of any well-formed packet
  gives that packet back, with name lists in the form a receiver sees them.
\<close>

theorem packet_roundtrip:
  assumes "wf_packet (ctx\<lparr>seen_unknown := False\<rparr>) p"
  shows "packet_from_bytes (emitted (enc_packet p)) ctx = Inr (received p)"
  using assms by (rule packet_sent)

theorem packet_roundtrip_witness:
  "wf_packet (parse_context_new\<lparr>seen_unknown := False\<rparr>) (ChannelData 3 [1, 2])
   \<and> packet_from_bytes (emitted (enc_packet (ChannelData 3 [1, 2]))) parse_context_new = Inr (ChannelData 3 [1, 2])"
  using packet_roundtrip [of parse_context_new "ChannelData 3 [1, 2]"] by simp

text \<open>
  C8. Channel data waits for a key exchange. \<open>write_channel\<close> never fails with
  \<open>BusySend\<close>, whatever the state of the key exchange: while one is being sent nothing is written.
\<close>

theorem write_never_busy:
  assumes "runner_inv cr r" "crypto_ok cr"
  shows "fst (write_channel cr num dt buf r) \<noteq> Inl (BusySend m b)"
  using assms by (rule write_channel_not_busy)

theorem write_never_busy_witness:
  "runner_inv toy_crypto (sample_runner False Authed (Some sample_channel) [])
   \<and> fst (write_channel toy_crypto 0 Normal [1, 2] (sample_runner False Authed (Some sample_channel) []))
       \<noteq> Inl (BusySend SSH_MSG_CHANNEL_DATA True)"
proof -
  have "runner_inv toy_crypto (sample_runner False Authed (Some sample_channel) [])"
    using sample_channel_ok by (intro sample_runner_inv) simp_all
  with write_never_busy [OF this toy_crypto_ok(1)] show ?thesis by blast
qed

section \<open>Key exchange\<close>

text \<open>
  C9. Negotiation agrees. When a client and a server each work out the algorithms from the
  \<open>KexInit\<close> that the other one sent, and both find some, they have the same key exchange, host
  key and cipher algorithms, and each direction has the same cipher and MAC at its two ends, whatever the two
  configurations are.
\<close>

theorem both_ends_agree:
  assumes "kex_crypto_ok cr" "conf_ok cc" "conf_ok sc"
    and "algo_negotiation cr True (received_kex_init (sent_kexinit sk sc)) cc ts = (Inr a, ts')"
    and "algo_negotiation cr False (received_kex_init (sent_kexinit ck cc)) sc us = (Inr b, us')"
  shows "algos_agree a b"
  using assms by (rule negotiation_agrees)

theorem both_ends_agree_witness:
  "\<exists>ts a b ts' us'. algo_negotiation toy_crypto True (received_kex_init (sent_kexinit [0] (std_config False))) (std_config True) ts = (Inr a, ts')
     \<and> algo_negotiation toy_crypto False (received_kex_init (sent_kexinit [1] (std_config True))) (std_config False) ts = (Inr b, us')
     \<and> algos_agree a b"
proof -
  let ?ts = "rn_send (sample_runner True FirstKex None [])"
  have r: "getrandom toy_crypto n 32 = Some (replicate 32 (word_of_nat n))" for n by (simp add: toy_crypto_def)
  obtain a ts' where a: "algo_negotiation toy_crypto True (received_kex_init (sent_kexinit [0] (std_config False)))
      (std_config True) ?ts = (Inr a, ts')"
    using std_negotiation [OF toy_crypto_ok(2) r, of True "[0]" ?ts] by auto
  obtain b us' where b: "algo_negotiation toy_crypto False (received_kex_init (sent_kexinit [1] (std_config True)))
      (std_config False) ?ts = (Inr b, us')"
    using std_negotiation [OF toy_crypto_ok(2) r, of False "[1]" ?ts] by auto
  from both_ends_agree [OF toy_crypto_ok(2) std_config_ok std_config_ok a b] a b show ?thesis by blast
qed

text \<open>
  C10. A key exchange completes. When a client and a server have agreed algorithms and fresh secrets, and the
  server answers the client's public value, then the packet it sends is a \<open>KexDHReply\<close> with one
  of its host keys that the client accepts, and the client gets the exchange hash and the key material that
  the server has.
\<close>

theorem exchange_completes:
  assumes "kex_crypto_ok cr" "sign_crypto_ok cr"
    and "algos_agree a b" "fresh_secret cr (al_kex a)" "fresh_secret cr (al_kex b)"
    and "shared_secret_q_c cr (al_kex a) ts0 = (Inr (q_c, ss), ts1)"
    and "shared_secret_handle_kexdhinit cr b h keys q_c us = (Inr (ko, b'), us')"
  shows "\<exists>k_s q_s sig us1 ss'. ts_send cr (KexDHReply k_s q_s sig) us1 = (Inr (), us')
    \<and> shared_secret_handle_kexdhreply cr (a\<lparr>al_kex := ss\<rparr>) h k_s q_s sig = Inr (ko, a\<lparr>al_kex := ss'\<rparr>)
    \<and> (\<exists>hk \<in> set keys. k_s = sign_key_pubkey cr hk)"
  using server_reply_accepted [OF assms] by metis

theorem exchange_completes_witness:
  "\<exists>ko b' us' k_s q_s sig us1 ss'.
     shared_secret_handle_kexdhinit toy_crypto (sample_algos [2]) [] [SignEd25519 [5]] (x25519_public toy_crypto [1])
       (rn_send (sample_runner False FirstKex None [])) = (Inr (ko, b'), us')
     \<and> ts_send toy_crypto (KexDHReply k_s q_s sig) us1 = (Inr (), us')
     \<and> shared_secret_handle_kexdhreply toy_crypto (sample_algos [1]) [] k_s q_s sig = Inr (ko, (sample_algos [1])\<lparr>al_kex := ss'\<rparr>)"
proof -
  obtain ko b' us' where s: "shared_secret_handle_kexdhinit toy_crypto (sample_algos [2]) [] [SignEd25519 [5]]
      (x25519_public toy_crypto [1]) (rn_send (sample_runner False FirstKex None [])) = (Inr (ko, b'), us')"
    using sample_exchange by blast
  have a: "algos_agree (sample_algos [1]) (sample_algos [2])" "fresh_secret toy_crypto (al_kex (sample_algos k))"
    "(sample_algos k)\<lparr>al_kex := al_kex (sample_algos k)\<rparr> = sample_algos k" for k
    by (simp_all add: algos_agree_def sample_algos_def fresh_curve_def)
  have q: "shared_secret_q_c toy_crypto (al_kex (sample_algos [1])) ts
      = (Inr (x25519_public toy_crypto [1], al_kex (sample_algos [1])), ts)" for ts
    by (simp add: sample_algos_def st_lift_def)
  from exchange_completes [OF toy_crypto_ok(2,3) a(1,2,2) q s] s a(3) show ?thesis by metis
qed

text \<open>
  C11. The server proves its host key. A client goes on after \<open>KexDHReply\<close> only with a signature
  that verifies, with the host key of that packet, over the exchange hash that the client computed itself.
\<close>

theorem client_checks_signature:
  assumes "shared_secret_handle_kexdhreply cr a h k_s q_s sig = Inr (ko, a')"
  shows "\<exists>k s. k_s = PubKeyEd25519 k \<and> sig = SigEd25519 s \<and> ed25519_verify cr k (ko_h ko) s"
  using assms by (rule client_verifies)

theorem client_checks_signature_witness:
  "\<exists>k_s q_s sig ko a' k s. shared_secret_handle_kexdhreply toy_crypto (sample_algos [1]) [] k_s q_s sig = Inr (ko, a')
     \<and> k_s = PubKeyEd25519 k \<and> sig = SigEd25519 s \<and> ed25519_verify toy_crypto k (ko_h ko) s"
proof -
  obtain k_s q_s sig ko a' where "shared_secret_handle_kexdhreply toy_crypto (sample_algos [1]) [] k_s q_s sig = Inr (ko, a')"
    using sample_exchange_accepted by blast
  from client_checks_signature [OF this] this show ?thesis by blast
qed

text \<open>
  C12. Both ends derive the same keys. From the same exchange, session identifier and algorithms, the keys
  that one end makes for sending and those that the other end makes for receiving exist and match, and stay in
  step when they are switched in at the same packet number.
\<close>

theorem derived_keys_match:
  assumes "crypto_ok cr" "algos_ok a" "al_cipher_dec b = al_cipher_enc a" "al_integ_dec b = al_integ_enc a"
    and "strict_kex s = strict_kex r" "strict_kex s \<or> seq_encrypt s = seq_decrypt r"
  shows "\<exists>ks kr. keys_send_new cr c ko sid a = Inr ks \<and> keys_recv_new cr (\<not> c) ko sid b = Inr kr
    \<and> in_step (rekey_send ks s) (rekey_recv kr r)"
  using keys_paired [OF assms(1-4), of c ko sid] rekey_in_step assms(5,6) by metis

theorem derived_keys_match_witness:
  "\<exists>ks kr. keys_send_new toy_crypto True \<lparr>ko_h = [1], ko_partial_hash = [2]\<rparr> [3] (sample_algos [1]) = Inr ks
    \<and> keys_recv_new toy_crypto False \<lparr>ko_h = [1], ko_partial_hash = [2]\<rparr> [3] (sample_algos [2]) = Inr kr
    \<and> in_step (rekey_send ks key_state_new_cleartext) (rekey_recv kr key_state_new_cleartext)"
  using derived_keys_match [OF toy_crypto_ok(1), of "sample_algos [1]" "sample_algos [2]" key_state_new_cleartext
      key_state_new_cleartext True "\<lparr>ko_h = [1], ko_partial_hash = [2]\<rparr>" "[3]"]
  by (simp add: algos_ok_def integ_fits_def sample_algos_def key_state_new_cleartext_def)

text \<open>
  C13. Both ends hash the same. With the two version lines and \<open>KexInit\<close> packets of a session
  between two ends, the client and the server start the exchange hash with the same bytes, each from the
  packet it sent and the one it received.
\<close>

theorem exchange_hash_same:
  assumes "version cv = Inr (Some OUR_VERSION)" "version sv = Inr (Some OUR_VERSION)"
  shows "kex_hash_new True cc ck cv (KexInit (received_kex_init (sent_kexinit sk sc)))
       = kex_hash_new False sc sk sv (KexInit (received_kex_init (sent_kexinit ck cc)))"
  using assms by (rule kex_hash_agrees)

theorem exchange_hash_same_witness:
  "\<exists>rv. version rv = Inr (Some OUR_VERSION)
     \<and> kex_hash_new True (std_config True) [1] rv (KexInit (received_kex_init (sent_kexinit [2] (std_config False))))
       = kex_hash_new False (std_config False) [2] rv (KexInit (received_kex_init (sent_kexinit [1] (std_config True))))"
proof -
  have "version_line OUR_VERSION" by code_simp
  from consume_accepts [OF this, of "[]" True "[]"] obtain rv where "version rv = Inr (Some OUR_VERSION)" by auto
  from exchange_hash_same [OF this this] this show ?thesis by blast
qed

text \<open>
  C14. Negotiation of the defaults succeeds. Between two ends with the configuration that
  \<open>AlgoConfig::new\<close> makes, \<open>algo_negotiation\<close> succeeds whenever the random source
  works, and chooses the hybrid ML-KEM and X25519 exchange, Ed25519 host keys, ChaCha20-Poly1305 in both
  directions and strict key exchange.
\<close>

theorem default_negotiation:
  assumes "kex_crypto_ok cr" "getrandom cr (rng_calls (ts_keys ts)) 32 = Some r"
    and "algo_config_new c = Inr ours" "algo_config_new (\<not> c) = Inr theirs"
  shows "\<exists>a ts'. algo_negotiation cr c (received_kex_init (sent_kexinit ck theirs)) ours ts = (Inr a, ts')
    \<and> (\<exists>k. al_kex a = KexMlkemX25519 k) \<and> al_hostsig a = SigTypeEd25519
    \<and> al_cipher_enc a = ChaPoly \<and> al_cipher_dec a = ChaPoly \<and> al_strict_kex a \<and> \<not> al_discard_next a"
  using std_negotiation [OF assms(1,2), of c ck] assms(3,4) by (simp add: algo_config_new_eq)

theorem default_negotiation_witness:
  "\<exists>ts a ts'. algo_negotiation toy_crypto True (received_kex_init (sent_kexinit [0] (std_config False))) (std_config True) ts = (Inr a, ts')
     \<and> al_strict_kex a"
proof -
  have "getrandom toy_crypto n 32 = Some (replicate 32 (word_of_nat n))" for n by (simp add: toy_crypto_def)
  from default_negotiation [OF toy_crypto_ok(2) this algo_config_new_eq algo_config_new_eq, where c = True and ck = "[0]"]
  show ?thesis by auto blast
qed



section \<open>Encryption and framing\<close>

text \<open>
  C16. An encrypted packet opens. With keys in step, for each cipher and MAC, the total length that
  \<open>encrypt\<close> returns is what the receiver reads from the first block, decrypting the whole gives
  the payload length and the payload, and the two ends are in step again.
\<close>

theorem encrypted_packet_opens:
  assumes "crypto_ok cr" "in_step s r" "tot < 2 ^ 32" "encrypt cr n buf s = (Inr tot, s', buf')"
  shows "\<exists>r1 w1 r2 pkt. decrypt_first_block cr (take (size_block_dec r) buf') r = (Inr tot, r1, w1)
    \<and> decrypt cr (w1 @ drop (size_block_dec r) (take tot buf')) r1 = (Inr n, r2, pkt)
    \<and> take n (drop 5 pkt) = take n (drop 5 buf) \<and> in_step s' r2"
  using encrypt_then_decrypt [OF assms] by metis

theorem encrypted_packet_opens_witness:
  "\<exists>tot s' buf' r1 w1 r2 pkt. encrypt toy_crypto 3 (replicate 5 0 @ [7, 8, 9] @ replicate 40 0) (sample_keys True) = (Inr tot, s', buf')
    \<and> decrypt_first_block toy_crypto (take 8 buf') (sample_keys True) = (Inr tot, r1, w1)
    \<and> decrypt toy_crypto (w1 @ drop 8 (take tot buf')) r1 = (Inr 3, r2, pkt) \<and> take 3 (drop 5 pkt) = [7, 8, 9]"
proof -
  let ?buf = "replicate 5 0 @ [7, 8, 9] @ replicate 40 (0 :: u8)"
  obtain s' buf' where e: "encrypt toy_crypto 3 ?buf (sample_keys True) = (Inr 28, s', buf')"
    using sample_encrypt by (metis prod.collapse)
  from encrypted_packet_opens [OF toy_crypto_ok(1) sample_keys_in_step _ e] e show ?thesis
    by (auto simp: size_block_dec_def sample_keys_def SSH_MIN_BLOCK_def)
qed

text \<open>
  C17. Accepted packets are authentic. When \<open>KeysRecv::decrypt\<close> accepts a packet, the MAC at its
  end is the one that the key gives for the receiver's own sequence number and this packet (over the
  ciphertext for ChaCha20-Poly1305, over the plaintext for HMAC), and what it returns is the decryption of
  what was authenticated.
\<close>

theorem accepted_packets_authentic:
  assumes "keys_recv_decrypt cr buf sq ks = (Inr n, ks', buf')"
  defines "m \<equiv> length buf - integ_size_out (r_integ ks)"
  shows "authentic cr (r_cipher ks) (r_integ ks) sq (take m buf) (take m buf') (drop m buf)"
  using assms(1) unfolding m_def by (rule decrypt_authentic)

theorem accepted_packets_authentic_witness:
  "\<exists>ks' buf'. keys_recv_decrypt toy_crypto sample_wire 0 (ks_dec (sample_keys True)) = (Inr 3, ks', buf')
     \<and> authentic toy_crypto (DecChaPoly \<lparr>k1 = [1], k2 = [2]\<rparr>) IntegKeyChaPoly 0
         (take (length sample_wire - 16) sample_wire) (take (length sample_wire - 16) buf') (drop (length sample_wire - 16) sample_wire)"
proof -
  obtain ks' buf' where "keys_recv_decrypt toy_crypto sample_wire 0 (ks_dec (sample_keys True)) = (Inr 3, ks', buf')"
    using sample_decrypt by (metis prod.collapse)
  from accepted_packets_authentic [OF this] this show ?thesis by (simp add: sample_keys_def CHAPOLY_TAG_LEN_def)
qed



text \<open>
  C19. The largest payload is exact. A payload of \<open>n\<close> bytes fits into \<open>avail\<close> bytes,
  with its length field, the padding that \<open>calc_encrypt_pad\<close> chooses and the MAC, just when
  \<open>n\<close> is at most \<open>max_enc_payload\<close>: neither too much is promised nor room wasted.
\<close>

theorem max_payload_fits:
  assumes "0 < n"
  shows "frame_len ks n + integ_size_out (s_integ ks) \<le> avail \<longleftrightarrow> n \<le> keys_send_max_enc_payload ks avail"
  using assms by (rule max_payload_exact)

theorem max_payload_fits_witness:
  "frame_len keys_send_new_cleartext 3 + integ_size_out (s_integ keys_send_new_cleartext) \<le> 16
     \<longleftrightarrow> 3 \<le> keys_send_max_enc_payload keys_send_new_cleartext 16"
  by (rule max_payload_fits) simp

section \<open>Input and output\<close>

text \<open>
  C20. How the network cuts the stream does not matter. Feeding \<open>fill_input\<close> with
  \<open>a\<close> and then with \<open>b\<close> consumes as many bytes, and leaves the same keys and the
  same state (or the same error), as feeding it with \<open>a @ b\<close>.
\<close>

theorem input_cut_anywhere:
  assumes "rx_inv (size_block_dec keys) ti"
  shows "fill_input cr (a @ b) keys ti = then_fill cr b (fill_input cr a keys ti)"
  using assms by (rule fill_input_append)

theorem input_cut_anywhere_witness:
  "fill_input toy_crypto ([0, 0] @ [0, 12, 5]) key_state_new_cleartext (traf_in_new (replicate 64 0))
   = then_fill toy_crypto [0, 12, 5] (fill_input toy_crypto [0, 0] key_state_new_cleartext (traf_in_new (replicate 64 0)))"
  by (rule input_cut_anywhere) (simp add: rx_inv_def traf_in_new_def)

text \<open>
  C21. The output buffer is a byte stream. Taking the output in pieces of any sizes \<open>ns\<close>, by
  \<open>output_buf\<close> and \<open>consume_output\<close>, gives the pending bytes in order, each once,
  and leaves the rest pending.
\<close>

theorem output_is_a_stream:
  assumes "tx_inv out"
  shows "\<exists>out'. pieces output_piece ns out = Inr (take (sum_list ns) (pending out), out')
    \<and> tx_inv out' \<and> pending out' = drop (sum_list ns) (pending out)"
  using assms by (rule socket.pieces_prefix)

theorem output_is_a_stream_witness:
  "\<exists>out'. pieces output_piece [1, 5] (\<lparr>out_buf = [1, 2, 3, 4], tx = TxWrite 1 3, drain = False, sending_kex = False,
       deferred_packets = []\<rparr>) = Inr ([2, 3], out')"
  using output_is_a_stream [of "\<lparr>out_buf = [1, 2, 3, 4], tx = TxWrite 1 3, drain = False, sending_kex = False,
       deferred_packets = []\<rparr>" "[1, 5]"]
  by (auto simp: tx_inv_def pending_def)



text \<open>
  C23. Nothing private goes out in the clear. Before the first keys are in use, sending an authentication or a
  channel packet fails, and leaves keys and output as they were.
\<close>

theorem never_in_the_clear:
  assumes "packet_category p \<in> {CatAuth, CatSess}" "is_send_cleartext keys"
  shows "send_packet_inner cr p keys out = (Inl Bug, keys, out)"
  using assms by (rule no_cleartext)

theorem never_in_the_clear_witness:
  "send_packet_inner toy_crypto (ChannelData 1 [65]) key_state_new_cleartext (traf_out_new (replicate 64 0))
     = (Inl Bug, key_state_new_cleartext, traf_out_new (replicate 64 0))"
  by (rule never_in_the_clear) (simp_all add: is_send_cleartext_def key_state_new_cleartext_def keys_send_new_cleartext_def)

section \<open>Channels\<close>

text \<open>
  C24. Flow control. Over any sequence of data sent on a channel and packets received from the peer, the bytes
  that were sent and the window that is left never exceed the window at the start and what the peer's window
  adjustments added.
\<close>

theorem flow_control:
  assumes "chans_inv cs" "established num cs" "run_flow cr num ops cs ts = (n, cs', ts')"
  shows "n + chan_window num cs' \<le> chan_window num cs + sum_list (map (flow_credit num) ops)"
  using assms by (rule run_flow_window)

theorem flow_control_witness:
  "\<exists>n cs' ts'. run_flow toy_crypto 0 [FlowSend Normal [1, 2], FlowPacket (ChannelWindowAdjust 0 5)] sample_channels
       (rn_send (sample_runner False Authed None [])) = (n, cs', ts') \<and> n + chan_window 0 cs' \<le> 105"
proof -
  obtain n cs' ts' where r: "run_flow toy_crypto 0 [FlowSend Normal [1, 2], FlowPacket (ChannelWindowAdjust 0 5)] sample_channels
       (rn_send (sample_runner False Authed None [])) = (n, cs', ts')" by (metis prod_cases3)
  from flow_control [OF sample_channels_ok(1,2) r] r sample_channels_ok(3) show ?thesis by simp
qed







section \<open>Authentication\<close>

text \<open>
  C28. A signature cannot be moved. The bytes that are signed for public key authentication determine the
  session identifier, the user name and the service, so a signature for one session, user or service is not
  one for another.
\<close>

theorem signature_binds_session:
  assumes "emitted (enc_auth_sig_msg m) = emitted (enc_auth_sig_msg n)"
    and "len_ok (as_sess_id m)" "len_ok (as_sess_id n)" "len_ok (ur_username (as_u m))" "len_ok (ur_username (as_u n))"
      "len_ok (ur_service (as_u m))" "len_ok (ur_service (as_u n))"
    and "failure (enc_auth_sig_msg m) = None" "failure (enc_auth_sig_msg n) = None"
  shows "as_sess_id m = as_sess_id n \<and> ur_username (as_u m) = ur_username (as_u n) \<and> ur_service (as_u m) = ur_service (as_u n)"
  using assms by (rule auth_sig_msg_binds)

theorem signature_binds_session_witness:
  "let m = auth_sig_msg_new \<lparr>ur_username = [97], ur_service = ''ssh'', ur_method = MethodNone\<rparr> [1];
       n = auth_sig_msg_new \<lparr>ur_username = [97], ur_service = ''ssh'', ur_method = MethodNone\<rparr> ([1] @ [])
   in emitted (enc_auth_sig_msg m) = emitted (enc_auth_sig_msg n) \<and> as_sess_id m = as_sess_id n"
proof -
  let ?m = "auth_sig_msg_new \<lparr>ur_username = [97], ur_service = ''ssh'', ur_method = MethodNone\<rparr> [1]"
  have "failure (enc_auth_sig_msg ?m) = None"
    by (simp add: enc_auth_sig_msg_def auth_sig_msg_new_def enc_simps enc_userauth_request_def enc_auth_method_def)
  then show ?thesis
    using signature_binds_session [of ?m ?m] by (simp add: auth_sig_msg_new_def)
qed

text \<open>
  C29. A client with the key gets in. The request that a client signs with its key, as it arrives at the
  server, makes the server ask its application about a signed public key request for that user, if the public
  key method is enabled and the user name is acceptable.
\<close>

theorem client_request_is_accepted:
  assumes "sign_crypto_ok cr" "cli_signed_request cr key sid ca = Inr p"
    and "\<not> sa_authed sa" "sa_method_pubkey sa" "serv_check_username (ca_username ca) sa = Inr sa1"
  shows "serv_request cr sid (p\<lparr>ur_method := received_method (ur_method p)\<rparr>) sa ts
       = (Inr (DispServEvent (ServPubkeyAuth True)), sa1\<lparr>sa_tried_first := True\<rparr>, ts)"
  using assms by (rule client_request_accepted)

theorem client_request_is_accepted_witness:
  "\<exists>p sa'. cli_signed_request toy_crypto (SignEd25519 [5]) (replicate 32 7) (cli_auth_default\<lparr>ca_username := [97]\<rparr>) = Inr p
     \<and> serv_request toy_crypto (replicate 32 7) (p\<lparr>ur_method := received_method (ur_method p)\<rparr>) serv_auth_default sample_send
       = (Inr (DispServEvent (ServPubkeyAuth True)), sa', sample_send)"
proof -
  obtain p where p: "cli_signed_request toy_crypto (SignEd25519 [5]) (replicate 32 7) (cli_auth_default\<lparr>ca_username := [97]\<rparr>) = Inr p"
    using sample_signed_request by blast
  have "serv_check_username [97] serv_auth_default = Inr (serv_auth_default\<lparr>sa_username := Some [97]\<rparr>)"
    by (simp add: serv_check_username_def serv_auth_default_def MAX_USERNAME_def)
  with client_request_is_accepted [OF toy_crypto_ok(3) p, of serv_auth_default] p show ?thesis
    by (auto simp: cli_auth_default_def serv_auth_default_def)
qed

text \<open>
  C30. A request does not let anyone in. Handling an authentication request neither marks the session as
  authenticated nor changes the methods that are on offer, a user name once given stays, and when a request is
  reported to the application the user name that is kept is the one of that request.
\<close>

theorem request_changes_no_user:
  assumes "serv_request cr sid p sa ts = (r, sa', ts')"
  shows "sa_authed sa' = sa_authed sa \<and> sa_method_password sa' = sa_method_password sa \<and> sa_method_pubkey sa' = sa_method_pubkey sa
    \<and> (sa_username sa \<noteq> None \<longrightarrow> sa_username sa' = sa_username sa)
    \<and> (\<forall>ev. r = Inr ev \<longrightarrow> sa_username sa' = Some (ur_username p))"
  using serv_request_state [OF assms] by blast

theorem request_changes_no_user_witness:
  "\<exists>r sa' ts'. serv_request toy_crypto [1] \<lparr>ur_username = [97], ur_service = ''ssh-connection'', ur_method = MethodNone\<rparr>
       serv_auth_default sample_send = (r, sa', ts') \<and> \<not> sa_authed sa'"
proof -
  obtain r sa' ts' where e: "serv_request toy_crypto [1] \<lparr>ur_username = [97], ur_service = ''ssh-connection'', ur_method = MethodNone\<rparr>
       serv_auth_default sample_send = (r, sa', ts')" by (metis prod_cases3)
  from request_changes_no_user [OF e] e show ?thesis by (auto simp: serv_auth_default_def)
qed

section \<open>Identification\<close>



text \<open>
  C32. Only a version line is taken for one. When \<open>consume\<close> ends with a version, it is a
  printable \<open>SSH-2.0-\<close> line of legal length which the input holds, followed by CR LF, at the
  start of a line, just before the point up to which the input was consumed.
\<close>

theorem version_was_sent:
  assumes "consume (remote_version_new client) bs = Inr (n, rv)" "version rv = Inr (Some v)"
  shows "version_line v \<and> n \<le> length bs \<and> (\<exists>pre. take n bs = pre @ v @ [CR, LF] \<and> line_start client pre)"
  using assms by (rule consume_sound)

theorem version_was_sent_witness:
  "\<exists>rv. consume (remote_version_new False) (str_bytes ''SSH-2.0-x'' @ [CR, LF]) = Inr (11, rv)
     \<and> version_line (str_bytes ''SSH-2.0-x'')"
proof -
  have "version_line (str_bytes ''SSH-2.0-x'')" by code_simp
  from consume_accepts [OF this, of "[]" False "[]"] obtain rv where
    c: "consume (remote_version_new False) (str_bytes ''SSH-2.0-x'' @ [CR, LF]) = Inr (11, rv)"
      "version rv = Inr (Some (str_bytes ''SSH-2.0-x''))" by auto
  from version_was_sent [OF this] c show ?thesis by blast
qed


end
